(* ===== verification/Prelude.thy ===== *)
theory Prelude
  imports "HOL-Library.Word" "HOL-Library.Sublist"
begin

text \<open>
  Shared vocabulary of the FastDNS development: the machine integers and byte strings of the
  Rust sources, the outcome type every fallible function returns, bounds-checked slicing, the
  big-endian integer codecs of the standard library (\<open>from_be_bytes\<close>, \<open>to_be_bytes\<close>), the ASCII
  operations of \<open>u8\<close> and \<open>str\<close>, and the generic lemmas the component theories rely on.

  Conventions.  A Rust \<open>usize\<close> that counts or indexes bytes of a buffer is a \<open>nat\<close>: a Rust
  allocation is at most \<open>isize::MAX\<close> bytes, so no such sum in the sources can wrap.  Protocol
  fields keep their width as words.  A Rust \<open>str\<close> or \<open>String\<close> is a \<open>string\<close> whose characters are
  its UTF-8 bytes.
\<close>

unbundle bit_operations_syntax

named_theorems wire_simps \<open>unfolding rules of the wire codecs\<close>
named_theorems outcome_simps \<open>rules that split or invert the sequencing of outcomes\<close>

type_synonym u8 = "8 word"
type_synonym u16 = "16 word"
type_synonym u32 = "32 word"
type_synonym u64 = "64 word"
type_synonym bytes = "8 word list"

section \<open>Outcomes of a Rust function\<close>

text \<open>
  A call of a Rust function returning \<open>Result<T, E>\<close> gives \<open>Ok\<close>, gives \<open>Err\<close>, panics (an index
  or slice out of range, a remainder by zero, an \<open>unwrap\<close> of nothing), or never returns.
\<close>

datatype ('e, 'a) outcome = Ok (ok_value: 'a) | Err (err_value: 'e) | Panic | Diverge

fun obind :: "('e, 'a) outcome \<Rightarrow> ('a \<Rightarrow> ('e, 'b) outcome) \<Rightarrow> ('e, 'b) outcome" where
  "obind (Ok a) f = f a"
| "obind (Err e) f = Err e"
| "obind Panic f = Panic"
| "obind Diverge f = Diverge"

fun returns :: "('e, 'a) outcome \<Rightarrow> bool" where
  "returns (Ok a) = True"
| "returns (Err e) = True"
| "returns Panic = False"
| "returns Diverge = False"

lemma obind_eq_Ok [outcome_simps]:
  "obind m f = Ok b \<longleftrightarrow> (\<exists>a. m = Ok a \<and> f a = Ok b)"
  by (cases m) auto

lemma obind_eq_Err [outcome_simps]:
  "obind m f = Err e \<longleftrightarrow> m = Err e \<or> (\<exists>a. m = Ok a \<and> f a = Err e)"
  by (cases m) auto

lemma obind_eq_Panic [outcome_simps]:
  "obind m f = Panic \<longleftrightarrow> m = Panic \<or> (\<exists>a. m = Ok a \<and> f a = Panic)"
  by (cases m) auto

lemma obind_eq_Diverge [outcome_simps]:
  "obind m f = Diverge \<longleftrightarrow> m = Diverge \<or> (\<exists>a. m = Ok a \<and> f a = Diverge)"
  by (cases m) auto

lemma returns_iff: "returns m \<longleftrightarrow> m \<noteq> Panic \<and> m \<noteq> Diverge"
  by (cases m) auto

lemma returns_obind [outcome_simps]:
  "returns (obind m f) \<longleftrightarrow> returns m \<and> (\<forall>a. m = Ok a \<longrightarrow> returns (f a))"
  by (cases m) auto

lemma obind_assoc: "obind (obind m f) g = obind m (\<lambda>a. obind (f a) g)"
  by (cases m) auto

section \<open>Ranges of machine integers\<close>

lemma unat_u8_less [simp]: "unat (b :: u8) < 256"
  using unsigned_less [of b, where 'a = nat] by simp

lemma unat_u16_less [simp]: "unat (w :: u16) < 65536"
  using unsigned_less [of w, where 'a = nat] by simp

lemma unat_u32_less [simp]: "unat (w :: u32) < 4294967296"
  using unsigned_less [of w, where 'a = nat] by simp

lemma unat_of_nat_u8 [simp]: "n < 256 \<Longrightarrow> unat (of_nat n :: u8) = n"
  by (simp add: unat_of_nat)

lemma unat_of_nat_u16 [simp]: "n < 65536 \<Longrightarrow> unat (of_nat n :: u16) = n"
  by (simp add: unat_of_nat)

lemma unat_of_nat_u32 [simp]: "n < 4294967296 \<Longrightarrow> unat (of_nat n :: u32) = n"
  by (simp add: unat_of_nat)

section \<open>Slices\<close>

text \<open>\<open>xs[i]\<close> and \<open>xs[i..j]\<close>: out of range they panic.\<close>

definition idx :: "'a list \<Rightarrow> nat \<Rightarrow> ('e, 'a) outcome" where
  "idx xs i = (if i < length xs then Ok (xs ! i) else Panic)"

definition slice :: "'a list \<Rightarrow> nat \<Rightarrow> nat \<Rightarrow> ('e, 'a list) outcome" where
  "slice xs i j = (if i \<le> j \<and> j \<le> length xs then Ok (take (j - i) (drop i xs)) else Panic)"

text \<open>\<open>buf[i..i + n].copy_from_slice(ys)\<close> inside the buffer: the bytes it leaves there.\<close>

definition overwrite :: "'a list \<Rightarrow> nat \<Rightarrow> 'a list \<Rightarrow> 'a list" where
  "overwrite buf i ys = take i buf @ ys @ drop (i + length ys) buf"

lemma length_overwrite [simp]:
  "i + length ys \<le> length buf \<Longrightarrow> length (overwrite buf i ys) = length buf"
  by (simp add: overwrite_def)

lemma take_overwrite:
  "i \<le> length buf \<Longrightarrow> take (i + length ys) (overwrite buf i ys) = take i buf @ ys"
  by (simp add: overwrite_def)

lemma take_overwrite_before:
  "n \<le> i \<Longrightarrow> i \<le> length buf \<Longrightarrow> take n (overwrite buf i ys) = take n buf"
  by (simp add: overwrite_def)

text \<open>\<open>buf[i..j].copy_from_slice(ys)\<close>: the range must lie in the buffer and have the length of \<open>ys\<close>.\<close>

definition copy_slice :: "'a list \<Rightarrow> nat \<Rightarrow> nat \<Rightarrow> 'a list \<Rightarrow> ('e, 'a list) outcome" where
  "copy_slice buf i j ys =
     (if i \<le> j \<and> j \<le> length buf \<and> length ys = j - i then Ok (overwrite buf i ys) else Panic)"

text \<open>\<open>&mut buf[off..]\<close> handed to a writer that returns the changed tail and a count.\<close>

definition write_at ::
  "('a list \<Rightarrow> ('e, 'a list \<times> nat) outcome) \<Rightarrow> 'a list \<Rightarrow> nat \<Rightarrow> ('e, 'a list \<times> nat) outcome" where
  "write_at w buf off =
     (if off \<le> length buf
      then obind (w (drop off buf)) (\<lambda>(tail, n). Ok (take off buf @ tail, off + n))
      else Panic)"

lemma copy_slice_append:
  "length pre = i \<Longrightarrow> i + length ys = j \<Longrightarrow> j \<le> i + length rest \<Longrightarrow>
     copy_slice (pre @ rest) i j ys = Ok (pre @ ys @ drop (length ys) rest)"
  by (auto simp: copy_slice_def overwrite_def)

lemma idx_Ok_iff [outcome_simps]: "idx xs i = Ok x \<longleftrightarrow> i < length xs \<and> x = xs ! i"
  by (auto simp: idx_def)

lemma slice_Ok_iff [outcome_simps]:
  "slice xs i j = Ok ys \<longleftrightarrow> i \<le> j \<and> j \<le> length xs \<and> ys = take (j - i) (drop i xs)"
  by (auto simp: slice_def)

lemma idx_append_left [simp]: "i < length xs \<Longrightarrow> idx (xs @ ys) i = Ok (xs ! i)"
  by (simp add: idx_def nth_append)

lemma nth_append_at: "n = length xs + i \<Longrightarrow> (xs @ ys) ! n = ys ! i"
  by (simp add: nth_append)

lemma take_drop_append_mid:
  "i = length pre \<Longrightarrow> n = length mid \<Longrightarrow> take n (drop i (pre @ mid @ post)) = mid"
  by simp

section \<open>Big-endian integers\<close>

definition be16 :: "u8 \<Rightarrow> u8 \<Rightarrow> u16" where
  "be16 a b = (push_bit 8 (ucast a) OR ucast b)"

definition be32 :: "u8 \<Rightarrow> u8 \<Rightarrow> u8 \<Rightarrow> u8 \<Rightarrow> u32" where
  "be32 a b c d =
     (push_bit 24 (ucast a) OR push_bit 16 (ucast b) OR push_bit 8 (ucast c) OR ucast d)"

definition bytes_of_u16 :: "u16 \<Rightarrow> bytes" where
  "bytes_of_u16 w = [ucast (drop_bit 8 w), ucast w]"

definition bytes_of_u32 :: "u32 \<Rightarrow> bytes" where
  "bytes_of_u32 w = [ucast (drop_bit 24 w), ucast (drop_bit 16 w), ucast (drop_bit 8 w), ucast w]"

text \<open>
  \<open>u16::from_be_bytes([bs[i], bs[i + 1]])\<close> and its 32-bit form, \<open>xs[i..]\<close>, and the difference of two
  \<open>usize\<close>: each panics out of range.
\<close>

definition get_u16 :: "bytes \<Rightarrow> nat \<Rightarrow> ('e, u16) outcome" where
  "get_u16 bs i = obind (idx bs i) (\<lambda>a. obind (idx bs (i + 1)) (\<lambda>b. Ok (be16 a b)))"

definition get_u32 :: "bytes \<Rightarrow> nat \<Rightarrow> ('e, u32) outcome" where
  "get_u32 bs i =
     obind (idx bs i) (\<lambda>a. obind (idx bs (i + 1)) (\<lambda>b. obind (idx bs (i + 2)) (\<lambda>c. obind (idx bs (i + 3)) (\<lambda>d.
       Ok (be32 a b c d)))))"

definition slice_from :: "'a list \<Rightarrow> nat \<Rightarrow> ('e, 'a list) outcome" where
  "slice_from xs i = slice xs i (length xs)"

definition usize_sub :: "nat \<Rightarrow> nat \<Rightarrow> ('e, nat) outcome" where
  "usize_sub a b = (if b \<le> a then Ok (a - b) else Panic)"

lemma idx_eq: "i < length xs \<Longrightarrow> idx xs i = Ok (xs ! i)"
  by (simp add: idx_def)

lemma get_u16_eq: "i + 1 < length bs \<Longrightarrow> get_u16 bs i = Ok (be16 (bs ! i) (bs ! (i + 1)))"
  by (simp add: get_u16_def idx_def)

lemma get_u32_eq:
  "i + 3 < length bs \<Longrightarrow> get_u32 bs i = Ok (be32 (bs ! i) (bs ! (i + 1)) (bs ! (i + 2)) (bs ! (i + 3)))"
  by (simp add: get_u32_def idx_def)

lemma slice_from_eq: "slice_from xs i = (if i \<le> length xs then Ok (drop i xs) else Panic)"
  by (simp add: slice_from_def slice_def)

lemma usize_sub_eq: "b \<le> a \<Longrightarrow> usize_sub a b = Ok (a - b)"
  by (simp add: usize_sub_def)

lemmas checked_reads = idx_eq get_u16_eq get_u32_eq

lemma length_bytes_of_u16 [simp]: "length (bytes_of_u16 w) = 2"
  by (simp add: bytes_of_u16_def)

lemma length_bytes_of_u32 [simp]: "length (bytes_of_u32 w) = 4"
  by (simp add: bytes_of_u32_def)

lemma not_bit_u8_ge [simp]: "8 \<le> n \<Longrightarrow> \<not> bit (w :: u8) n"
  by (auto dest: bit_imp_le_length)

lemmas be_bit_simps = bit_or_iff bit_push_bit_iff bit_ucast_iff bit_drop_bit_eq not_less

lemma be16_bytes_of_u16 [simp]: "be16 (ucast (drop_bit 8 w)) (ucast (w :: u16)) = w"
  unfolding be16_def
  by (rule bit_word_eqI) (auto simp: be_bit_simps dest: bit_imp_le_length)

lemma be32_bytes_of_u32 [simp]:
  "be32 (ucast (drop_bit 24 w)) (ucast (drop_bit 16 w)) (ucast (drop_bit 8 w))
     (ucast (w :: u32)) = w"
  unfolding be32_def
proof (rule bit_word_eqI)
  fix n assume n: "n < LENGTH(32)"
  then have "n < 8 \<or> (8 \<le> n \<and> n < 16) \<or> (16 \<le> n \<and> n < 24) \<or> (24 \<le> n \<and> n < 32)"
    by auto
  then show "bit (push_bit 24 (ucast (ucast (drop_bit 24 w) :: u8)) OR
      push_bit 16 (ucast (ucast (drop_bit 16 w) :: u8)) OR
      push_bit 8 (ucast (ucast (drop_bit 8 w) :: u8)) OR ucast (ucast w :: u8) :: u32) n
      \<longleftrightarrow> bit w n"
    by (elim disjE conjE) (auto simp: be_bit_simps less_diff_conv2)
qed

lemma bytes_of_u16_be16 [simp]: "bytes_of_u16 (be16 a b) = [a, b]"
  unfolding bytes_of_u16_def be16_def
  by (auto intro!: bit_word_eqI simp: be_bit_simps)

lemma bytes_of_u32_be32 [simp]: "bytes_of_u32 (be32 a b c d) = [a, b, c, d]"
  unfolding bytes_of_u32_def be32_def
  by (auto intro!: bit_word_eqI simp: be_bit_simps)

section \<open>Bytes and text\<close>

definition as_bytes :: "string \<Rightarrow> bytes" where
  "as_bytes s = map of_char s"

definition char_of_byte :: "u8 \<Rightarrow> char" where
  "char_of_byte b = char_of (unat b)"

definition text_of_bytes :: "bytes \<Rightarrow> string" where
  "text_of_bytes bs = map char_of_byte bs"

text \<open>\<open>u8::to_ascii_lowercase\<close>, \<open>eq_ignore_ascii_case\<close>, \<open>is_ascii_alphabetic\<close>.\<close>

definition ascii_lower :: "u8 \<Rightarrow> u8" where
  "ascii_lower b = (if 65 \<le> b \<and> b \<le> 90 then b + 32 else b)"

definition eq_ignore_case :: "u8 \<Rightarrow> u8 \<Rightarrow> bool" where
  "eq_ignore_case a b \<longleftrightarrow> ascii_lower a = ascii_lower b"

definition is_ascii_alphabetic :: "u8 \<Rightarrow> bool" where
  "is_ascii_alphabetic b \<longleftrightarrow> (65 \<le> b \<and> b \<le> 90) \<or> (97 \<le> b \<and> b \<le> 122)"

text \<open>Decimal \<open>Display\<close> of an unsigned integer.\<close>

fun show_nat :: "nat \<Rightarrow> string" where
  "show_nat n =
     (if n < 10 then [char_of (48 + n)] else show_nat (n div 10) @ [char_of (48 + n mod 10)])"

declare show_nat.simps [simp del]

lemma show_nat_digits: "c \<in> set (show_nat n) \<Longrightarrow> \<exists>d<10. c = char_of (48 + d :: nat)"
proof (induction n rule: show_nat.induct)
  case (1 n)
  show ?case
  proof (cases "n < 10")
    case True
    with "1.prems" show ?thesis by (auto simp: show_nat.simps [of n])
  next
    case False
    with "1.prems" have "c \<in> set (show_nat (n div 10)) \<or> c = char_of (48 + n mod 10)"
      by (auto simp: show_nat.simps [of n])
    then show ?thesis using "1.IH" [OF False]
      by (metis mod_less_divisor zero_less_numeral)
  qed
qed

end
