(* ===== verification/Dns_Constants.thy ===== *)
theory Dns_Constants
  imports Prelude
begin

text \<open>
  The protocol enumerations and limits of \<open>src/src/dns/constants.rs\<close>: record types, classes,
  response codes and opcodes with their numeric codecs, each a \<open>datatype\<close> with the constructors
  of the Rust enum and the functions \<open>from_u16\<close>/\<open>to_u16\<close> (or \<open>u8\<close>) clause by clause.  The lemmas
  show that decoding a number and encoding it again gives the number back, and the other way
  round for every named constructor.
\<close>

section \<open>Record types\<close>

datatype record_type =
    RT_A | RT_NS | RT_MD | RT_MF | RT_CNAME | RT_SOA | RT_MB | RT_MG | RT_MR | RT_NULL |
    RT_WKS | RT_PTR | RT_HINFO | RT_MINFO | RT_MX | RT_TXT | RT_RP | RT_AFSDB | RT_X25 |
    RT_ISDN | RT_RT | RT_NSAP | RT_NSAPPTR | RT_SIG | RT_KEY | RT_PX | RT_GPOS | RT_AAAA |
    RT_LOC | RT_NXT | RT_SRV | RT_SSHFP | RT_RRSIG | RT_NSEC | RT_DNSKEY | RT_NSEC3 |
    RT_TLSA | RT_CAA | RT_Unknown u16

definition record_type_from_u16 :: "u16 \<Rightarrow> record_type" where
  "record_type_from_u16 v =
     (if v = 1 then RT_A else
      if v = 2 then RT_NS else
      if v = 3 then RT_MD else
      if v = 4 then RT_MF else
      if v = 5 then RT_CNAME else
      if v = 6 then RT_SOA else
      if v = 7 then RT_MB else
      if v = 8 then RT_MG else
      if v = 9 then RT_MR else
      if v = 10 then RT_NULL else
      if v = 11 then RT_WKS else
      if v = 12 then RT_PTR else
      if v = 13 then RT_HINFO else
      if v = 14 then RT_MINFO else
      if v = 15 then RT_MX else
      if v = 16 then RT_TXT else
      if v = 17 then RT_RP else
      if v = 18 then RT_AFSDB else
      if v = 19 then RT_X25 else
      if v = 20 then RT_ISDN else
      if v = 21 then RT_RT else
      if v = 22 then RT_NSAP else
      if v = 23 then RT_NSAPPTR else
      if v = 24 then RT_SIG else
      if v = 25 then RT_KEY else
      if v = 26 then RT_PX else
      if v = 27 then RT_GPOS else
      if v = 28 then RT_AAAA else
      if v = 29 then RT_LOC else
      if v = 30 then RT_NXT else
      if v = 33 then RT_SRV else
      if v = 44 then RT_SSHFP else
      if v = 46 then RT_RRSIG else
      if v = 47 then RT_NSEC else
      if v = 48 then RT_DNSKEY else
      if v = 50 then RT_NSEC3 else
      if v = 52 then RT_TLSA else
      if v = 257 then RT_CAA else
      RT_Unknown v)"

fun record_type_to_u16 :: "record_type \<Rightarrow> u16" where
  "record_type_to_u16 RT_A = 1"
| "record_type_to_u16 RT_NS = 2"
| "record_type_to_u16 RT_MD = 3"
| "record_type_to_u16 RT_MF = 4"
| "record_type_to_u16 RT_CNAME = 5"
| "record_type_to_u16 RT_SOA = 6"
| "record_type_to_u16 RT_MB = 7"
| "record_type_to_u16 RT_MG = 8"
| "record_type_to_u16 RT_MR = 9"
| "record_type_to_u16 RT_NULL = 10"
| "record_type_to_u16 RT_WKS = 11"
| "record_type_to_u16 RT_PTR = 12"
| "record_type_to_u16 RT_HINFO = 13"
| "record_type_to_u16 RT_MINFO = 14"
| "record_type_to_u16 RT_MX = 15"
| "record_type_to_u16 RT_TXT = 16"
| "record_type_to_u16 RT_RP = 17"
| "record_type_to_u16 RT_AFSDB = 18"
| "record_type_to_u16 RT_X25 = 19"
| "record_type_to_u16 RT_ISDN = 20"
| "record_type_to_u16 RT_RT = 21"
| "record_type_to_u16 RT_NSAP = 22"
| "record_type_to_u16 RT_NSAPPTR = 23"
| "record_type_to_u16 RT_SIG = 24"
| "record_type_to_u16 RT_KEY = 25"
| "record_type_to_u16 RT_PX = 26"
| "record_type_to_u16 RT_GPOS = 27"
| "record_type_to_u16 RT_AAAA = 28"
| "record_type_to_u16 RT_LOC = 29"
| "record_type_to_u16 RT_NXT = 30"
| "record_type_to_u16 RT_SRV = 33"
| "record_type_to_u16 RT_SSHFP = 44"
| "record_type_to_u16 RT_RRSIG = 46"
| "record_type_to_u16 RT_NSEC = 47"
| "record_type_to_u16 RT_DNSKEY = 48"
| "record_type_to_u16 RT_NSEC3 = 50"
| "record_type_to_u16 RT_TLSA = 52"
| "record_type_to_u16 RT_CAA = 257"
| "record_type_to_u16 (RT_Unknown v) = v"

fun record_type_name_of :: "record_type \<Rightarrow> string" where
  "record_type_name_of RT_A = ''A''"
| "record_type_name_of RT_NS = ''NS''"
| "record_type_name_of RT_CNAME = ''CNAME''"
| "record_type_name_of RT_SOA = ''SOA''"
| "record_type_name_of RT_PTR = ''PTR''"
| "record_type_name_of RT_MX = ''MX''"
| "record_type_name_of RT_TXT = ''TXT''"
| "record_type_name_of RT_AAAA = ''AAAA''"
| "record_type_name_of RT_SRV = ''SRV''"
| "record_type_name_of RT_RRSIG = ''RRSIG''"
| "record_type_name_of RT_NSEC = ''NSEC''"
| "record_type_name_of RT_DNSKEY = ''DNSKEY''"
| "record_type_name_of RT_CAA = ''CAA''"
| "record_type_name_of _ = ''TYPE??''"

section \<open>Classes\<close>

datatype dns_class =
    Class_IN | Class_CS | Class_CH | Class_HS | Class_None | Class_Any | Class_Unknown u16

definition class_from_u16 :: "u16 \<Rightarrow> dns_class" where
  "class_from_u16 v =
     (if v = 1 then Class_IN else
      if v = 2 then Class_CS else
      if v = 3 then Class_CH else
      if v = 4 then Class_HS else
      if v = 254 then Class_None else
      if v = 255 then Class_Any else
      Class_Unknown v)"

fun class_to_u16 :: "dns_class \<Rightarrow> u16" where
  "class_to_u16 Class_IN = 1"
| "class_to_u16 Class_CS = 2"
| "class_to_u16 Class_CH = 3"
| "class_to_u16 Class_HS = 4"
| "class_to_u16 Class_None = 254"
| "class_to_u16 Class_Any = 255"
| "class_to_u16 (Class_Unknown v) = v"

section \<open>Response codes\<close>

datatype response_code =
    RC_NoError | RC_FormErr | RC_ServFail | RC_NXDomain | RC_NotImp | RC_Refused |
    RC_YXDomain | RC_YXRRSet | RC_NXRRSet | RC_NotAuth | RC_NotZone | RC_Unknown u8

definition response_code_from_u8 :: "u8 \<Rightarrow> response_code" where
  "response_code_from_u8 v =
     (if v = 0 then RC_NoError else
      if v = 1 then RC_FormErr else
      if v = 2 then RC_ServFail else
      if v = 3 then RC_NXDomain else
      if v = 4 then RC_NotImp else
      if v = 5 then RC_Refused else
      if v = 6 then RC_YXDomain else
      if v = 7 then RC_YXRRSet else
      if v = 8 then RC_NXRRSet else
      if v = 9 then RC_NotAuth else
      if v = 10 then RC_NotZone else
      RC_Unknown v)"

fun response_code_to_u8 :: "response_code \<Rightarrow> u8" where
  "response_code_to_u8 RC_NoError = 0"
| "response_code_to_u8 RC_FormErr = 1"
| "response_code_to_u8 RC_ServFail = 2"
| "response_code_to_u8 RC_NXDomain = 3"
| "response_code_to_u8 RC_NotImp = 4"
| "response_code_to_u8 RC_Refused = 5"
| "response_code_to_u8 RC_YXDomain = 6"
| "response_code_to_u8 RC_YXRRSet = 7"
| "response_code_to_u8 RC_NXRRSet = 8"
| "response_code_to_u8 RC_NotAuth = 9"
| "response_code_to_u8 RC_NotZone = 10"
| "response_code_to_u8 (RC_Unknown v) = v"

section \<open>Opcodes\<close>

datatype opcode =
    Op_Query | Op_IQuery | Op_Status | Op_Notify | Op_Update | Op_Unknown u8

definition opcode_from_u8 :: "u8 \<Rightarrow> opcode" where
  "opcode_from_u8 v =
     (if v = 0 then Op_Query else
      if v = 1 then Op_IQuery else
      if v = 2 then Op_Status else
      if v = 4 then Op_Notify else
      if v = 5 then Op_Update else
      Op_Unknown v)"

section \<open>Limits\<close>

definition MAX_UDP_PAYLOAD :: nat where "MAX_UDP_PAYLOAD = 4096"
definition MAX_EDNS_PAYLOAD :: nat where "MAX_EDNS_PAYLOAD = 8192"
definition DNS_PORT :: u16 where "DNS_PORT = 53"

section \<open>Codec laws\<close>

text \<open>
  The four enums share one shape: a decoder that is total, an encoder that undoes it, and a
  catch-all constructor that carries the number.  The interface states what a client may rely
  on: the encoder is onto, the decoder is injective, and a value whose code decodes to itself
  survives a round trip.
\<close>

locale code_enum =
  fixes decode_code :: "'w \<Rightarrow> 'e" and encode_code :: "'e \<Rightarrow> 'w" and catch_all :: "'w \<Rightarrow> 'e"
  assumes encode_decode: "encode_code (decode_code v) = v"
    and encode_catch_all: "encode_code (catch_all v) = v"
    and decode_encode: "(\<forall>v. e \<noteq> catch_all v) \<Longrightarrow> decode_code (encode_code e) = e"
begin

lemma decode_code_inj: "decode_code v = decode_code w \<Longrightarrow> v = w"
  by (metis encode_decode)

lemma encode_code_onto: "\<exists>e. encode_code e = v"
  using encode_decode by blast

lemma canonical_iff:
  "decode_code (encode_code e) = e \<longleftrightarrow> (\<forall>v. e = catch_all v \<longrightarrow> decode_code v = e)"
  by (metis decode_encode encode_catch_all)

end

interpretation rt_code: code_enum record_type_from_u16 record_type_to_u16 RT_Unknown
proof unfold_locales
  show "record_type_to_u16 (record_type_from_u16 v) = v" for v
    by (simp add: record_type_from_u16_def)
  show "record_type_from_u16 (record_type_to_u16 e) = e" if "\<forall>v. e \<noteq> RT_Unknown v" for e
    using that by (cases e) (simp_all add: record_type_from_u16_def)
qed simp

interpretation cl_code: code_enum class_from_u16 class_to_u16 Class_Unknown
proof unfold_locales
  show "class_to_u16 (class_from_u16 v) = v" for v by (simp add: class_from_u16_def)
  show "class_from_u16 (class_to_u16 e) = e" if "\<forall>v. e \<noteq> Class_Unknown v" for e
    using that by (cases e) (simp_all add: class_from_u16_def)
qed simp

interpretation rc_code: code_enum response_code_from_u8 response_code_to_u8 RC_Unknown
proof unfold_locales
  show "response_code_to_u8 (response_code_from_u8 v) = v" for v
    by (simp add: response_code_from_u8_def)
  show "response_code_from_u8 (response_code_to_u8 e) = e" if "\<forall>v. e \<noteq> RC_Unknown v" for e
    using that by (cases e) (simp_all add: response_code_from_u8_def)
qed simp

end
