(* ===== verification/Dns_Data.thy ===== *)
theory Dns_Data
  imports Dns_Constants
begin

text \<open>
  The message data model of \<open>src/src/dns/types.rs\<close> and the error type of
  \<open>src/src/dns/error.rs\<close>: header, question, resource record with its parsed RDATA, message and
  EDNS0 option record, with the constructors the sources have for them.  A record field carries
  the first letters of its struct (\<open>h_\<close>, \<open>q_\<close>, \<open>rr_\<close>, \<open>m_\<close>, \<open>opt_\<close>); the names after the prefix are
  those of the Rust fields.
\<close>

section \<open>Addresses\<close>

datatype ipv4 = Ipv4 u8 u8 u8 u8

datatype ipv6 = Ipv6 (octets6: bytes) \<comment> \<open>sixteen octets\<close>

datatype ip_addr = V4 ipv4 | V6 ipv6

fun octets4 :: "ipv4 \<Rightarrow> bytes" where
  "octets4 (Ipv4 a b c d) = [a, b, c, d]"

lemma length_octets4 [simp]: "length (octets4 a) = 4"
  by (cases a) simp

section \<open>Header\<close>

record header =
  h_id :: u16
  h_qr :: bool
  h_opcode :: u8
  h_aa :: bool
  h_tc :: bool
  h_rd :: bool
  h_ra :: bool
  h_z :: u8
  h_ad :: bool
  h_cd :: bool
  h_rcode :: u8
  h_qdcount :: u16
  h_ancount :: u16
  h_nscount :: u16
  h_arcount :: u16

definition new_query :: "u16 \<Rightarrow> bool \<Rightarrow> header" where
  "new_query i rd =
     \<lparr>h_id = i, h_qr = False, h_opcode = 0, h_aa = False, h_tc = False, h_rd = rd,
      h_ra = False, h_z = 0, h_ad = False, h_cd = False, h_rcode = 0,
      h_qdcount = 0, h_ancount = 0, h_nscount = 0, h_arcount = 0\<rparr>"

definition new_response :: "u16 \<Rightarrow> u8 \<Rightarrow> header" where
  "new_response i rcode =
     \<lparr>h_id = i, h_qr = True, h_opcode = 0, h_aa = False, h_tc = False, h_rd = True,
      h_ra = True, h_z = 0, h_ad = False, h_cd = False, h_rcode = rcode,
      h_qdcount = 0, h_ancount = 0, h_nscount = 0, h_arcount = 0\<rparr>"

section \<open>Question, record, message\<close>

record question =
  q_name :: bytes
  q_type :: u16
  q_class :: u16

datatype rdata =
    RD_A ipv4
  | RD_AAAA ipv6
  | RD_CNAME bytes
  | RD_NS bytes
  | RD_PTR bytes
  | RD_MX (mx_preference: u16) (mx_exchange: bytes)
  | RD_SOA (soa_mname: bytes) (soa_rname: bytes) (soa_serial: u32) (soa_refresh: u32) (soa_retry: u32)
      (soa_expire: u32) (soa_minimum: u32)
  | RD_TXT "string list"
  | RD_SRV (srv_priority: u16) (srv_weight: u16) (srv_port: u16) (srv_target: bytes)
  | RD_RRSIG (sig_type_covered: u16) (sig_algorithm: u8) (sig_labels: u8) (sig_original_ttl: u32)
      (sig_expiration: u32) (sig_inception: u32) (sig_key_tag: u16)
      (sig_signer_name: bytes) (sig_signature: bytes)
  | RD_DNSKEY (dnskey_flags: u16) (dnskey_protocol: u8) (dnskey_algorithm: u8) (dnskey_public_key: bytes)
  | RD_NSEC (nsec_next_domain: bytes) (nsec_bit_maps: bytes)
  | RD_DS (ds_key_tag: u16) (ds_algorithm: u8) (ds_digest_type: u8) (ds_digest: bytes)
  | RD_NSEC3 (nsec3_hash_algorithm: u8) (nsec3_flags: u8) (nsec3_iterations: u16) (nsec3_salt: bytes)
      (nsec3_next_hashed_owner: bytes) (nsec3_bit_maps: bytes)
  | RD_Unknown bytes

record resource_record =
  rr_name :: bytes
  rr_type :: u16
  rr_class :: u16
  rr_ttl :: u32
  rr_rdlength :: u16
  rr_rdata :: bytes
  rr_parsed :: "rdata option"

record message =
  m_header :: header
  m_questions :: "question list"
  m_answers :: "resource_record list"
  m_authorities :: "resource_record list"
  m_additionals :: "resource_record list"

definition answer_records :: "message \<Rightarrow> u16 \<Rightarrow> resource_record list" where
  "answer_records m t = filter (\<lambda>r. rr_type r = t) (m_answers m)"

definition authority_records :: "message \<Rightarrow> u16 \<Rightarrow> resource_record list" where
  "authority_records m t = filter (\<lambda>r. rr_type r = t) (m_authorities m)"

definition additional_records :: "message \<Rightarrow> u16 \<Rightarrow> resource_record list" where
  "additional_records m t = filter (\<lambda>r. rr_type r = t) (m_additionals m)"

section \<open>EDNS0\<close>

datatype edns_option =
    Nsid
  | ClientSubnet u16 u8 u8 bytes
  | Cookie bytes bytes
  | Padding bytes
  | OtherOption u16 bytes

record opt_record =
  opt_udp_payload_size :: u16
  opt_ext_rcode :: u8
  opt_edns_version :: u8
  opt_dnssec_ok :: bool
  opt_options :: "edns_option list"

definition opt_new :: "bool \<Rightarrow> opt_record" where
  "opt_new dnssec_ok =
     \<lparr>opt_udp_payload_size = of_nat MAX_EDNS_PAYLOAD, opt_ext_rcode = 0, opt_edns_version = 0,
      opt_dnssec_ok = dnssec_ok, opt_options = []\<rparr>"

definition to_resource_record :: "opt_record \<Rightarrow> resource_record" where
  "to_resource_record r =
     (let rdata = [] in
      \<lparr>rr_name = [0], rr_type = 41, rr_class = opt_udp_payload_size r,
       rr_ttl = push_bit 24 (ucast (opt_ext_rcode r)) OR push_bit 16 (ucast (opt_edns_version r))
         OR push_bit 15 (of_bool (opt_dnssec_ok r)),
       rr_rdlength = of_nat (length rdata), rr_rdata = rdata, rr_parsed = None\<rparr>)"

section \<open>Errors\<close>

text \<open>
  An I/O error is reduced to the one distinction the sources make
  (\<open>e.kind() == ErrorKind::UnexpectedEof\<close>).
\<close>

datatype io_error = IoUnexpectedEof | IoOther string

datatype dns_error =
    Malformed string
  | NxDomain "resource_record list" bool
  | Transport string
  | BufferTooSmall nat nat
  | UnknownRecordType u16
  | InvalidPointer nat
  | InvalidLabel string
  | UnexpectedEof
  | Io io_error

type_synonym 'a dns_result = "(dns_error, 'a) outcome"

fun io_error_display :: "io_error \<Rightarrow> string" where
  "io_error_display IoUnexpectedEof = ''unexpected end of file''"
| "io_error_display (IoOther msg) = msg"

text \<open>\<open>Display for DnsError\<close>.\<close>

fun dns_error_display :: "dns_error \<Rightarrow> string" where
  "dns_error_display (Malformed msg) = ''malformed DNS message: '' @ msg"
| "dns_error_display (NxDomain rs ad) = ''NXDOMAIN''"
| "dns_error_display (Transport msg) = ''transport error: '' @ msg"
| "dns_error_display (BufferTooSmall need have) =
     ''buffer too small: need '' @ show_nat need @ '' bytes, have '' @ show_nat have"
| "dns_error_display (UnknownRecordType t) = ''unknown record type: '' @ show_nat (unat t)"
| "dns_error_display (InvalidPointer p) =
     ''invalid compression pointer at offset '' @ show_nat p"
| "dns_error_display (InvalidLabel msg) = ''invalid label: '' @ msg"
| "dns_error_display UnexpectedEof = ''unexpected end of data''"
| "dns_error_display (Io e) = ''I/O error: '' @ io_error_display e"

end
