(* ===== verification/Text.thy ===== *)
theory Text
  imports Prelude
begin

text \<open>
  The operations of Rust's \<open>str\<close> the sources use, on UTF-8 byte strings: splitting, joining,
  trimming a trailing character, searching, prefix and suffix stripping, and the UTF-8 check of
  \<open>std::str::from_utf8\<close>.
\<close>

section \<open>Splitting and joining\<close>

fun split_on :: "'a \<Rightarrow> 'a list \<Rightarrow> 'a list list" where
  "split_on c [] = [[]]"
| "split_on c (x # xs) =
     (if x = c then [] # split_on c xs
      else case split_on c xs of [] \<Rightarrow> [[x]] | y # ys \<Rightarrow> (x # y) # ys)"

fun join_with :: "'a list \<Rightarrow> 'a list list \<Rightarrow> 'a list" where
  "join_with sep [] = []"
| "join_with sep [x] = x"
| "join_with sep (x # y # ys) = x @ sep @ join_with sep (y # ys)"

definition trim_end_matches :: "'a \<Rightarrow> 'a list \<Rightarrow> 'a list" where
  "trim_end_matches c xs = rev (dropWhile (\<lambda>x. x = c) (rev xs))"

definition strip_prefix :: "'a list \<Rightarrow> 'a list \<Rightarrow> 'a list option" where
  "strip_prefix p xs = (if take (length p) xs = p then Some (drop (length p) xs) else None)"

definition strip_suffix :: "'a list \<Rightarrow> 'a list \<Rightarrow> 'a list option" where
  "strip_suffix p xs = map_option rev (strip_prefix (rev p) (rev xs))"

definition starts_with :: "'a list \<Rightarrow> 'a list \<Rightarrow> bool" where
  "starts_with p xs \<longleftrightarrow> take (length p) xs = p"

definition ends_with :: "'a list \<Rightarrow> 'a list \<Rightarrow> bool" where
  "ends_with p xs \<longleftrightarrow> starts_with (rev p) (rev xs)"

fun find_index :: "('a \<Rightarrow> bool) \<Rightarrow> 'a list \<Rightarrow> nat option" where
  "find_index P [] = None"
| "find_index P (x # xs) = (if P x then Some 0 else map_option Suc (find_index P xs))"

fun contains_str :: "'a list \<Rightarrow> 'a list \<Rightarrow> bool" where
  "contains_str p [] \<longleftrightarrow> p = []"
| "contains_str p (x # xs) \<longleftrightarrow> starts_with p (x # xs) \<or> contains_str p xs"

lemma split_on_nonempty [simp]: "split_on c xs \<noteq> []"
  by (cases xs) (auto split: list.splits)

lemma split_on_no_sep: "p \<in> set (split_on c xs) \<Longrightarrow> c \<notin> set p"
  by (induction xs arbitrary: p) (auto split: if_splits list.splits)

lemma split_on_single: "c \<notin> set xs \<Longrightarrow> split_on c xs = [xs]"
  by (induction xs) auto

lemma split_on_append: "c \<notin> set xs \<Longrightarrow> split_on c (xs @ c # ys) = xs # split_on c ys"
  by (induction xs) auto

lemma split_on_join:
  "\<forall>p \<in> set ps. c \<notin> set p \<Longrightarrow> ps \<noteq> [] \<Longrightarrow> split_on c (join_with [c] ps) = ps"
  by (induction "[c]" ps rule: join_with.induct) (auto simp: split_on_single split_on_append)

lemma join_with_Cons: "ys \<noteq> [] \<Longrightarrow> join_with sep (x # ys) = x @ sep @ join_with sep ys"
  by (cases ys) simp_all

lemma join_with_Cons_hd: "join_with sep ((x # y) # ys) = x # join_with sep (y # ys)"
  by (cases ys) simp_all

lemma join_split_on: "join_with [c] (split_on c xs) = xs"
proof (induction xs)
  case (Cons x xs)
  obtain y ys where "split_on c xs = y # ys" by (cases "split_on c xs") auto
  with Cons show ?case by (auto simp: join_with_Cons join_with_Cons_hd)
qed simp

lemma trim_end_last: "trim_end_matches c xs = [] \<or> last (trim_end_matches c xs) \<noteq> c"
  using hd_dropWhile [of "\<lambda>x. x = c" "rev xs"]
  by (auto simp: trim_end_matches_def last_rev)

lemma trim_end_id: "xs = [] \<or> last xs \<noteq> c \<Longrightarrow> trim_end_matches c xs = xs"
  by (cases xs rule: rev_cases) (auto simp: trim_end_matches_def)

lemma trim_end_snoc [simp]: "trim_end_matches c (xs @ [c]) = trim_end_matches c xs"
  by (simp add: trim_end_matches_def)

lemma trim_end_idem [simp]: "trim_end_matches c (trim_end_matches c xs) = trim_end_matches c xs"
  using trim_end_last [of c xs] by (intro trim_end_id) auto

lemma join_last:
  "ps \<noteq> [] \<Longrightarrow> last ps \<noteq> [] \<Longrightarrow> join_with sep ps \<noteq> [] \<and> last (join_with sep ps) = last (last ps)"
  by (induction sep ps rule: join_with.induct) auto

section \<open>UTF-8\<close>

text \<open>
  The well-formed sequences \<open>std::str::from_utf8\<close> accepts (Unicode 3.9, table 3-7): a leading byte
  fixes the ranges of the bytes that follow it.
\<close>

definition utf8_follow :: "u8 \<Rightarrow> (u8 \<times> u8) list option" where
  "utf8_follow a =
     (if a < 0x80 then Some []
      else if 0xC2 \<le> a \<and> a \<le> 0xDF then Some [(0x80, 0xBF)]
      else if a = 0xE0 then Some [(0xA0, 0xBF), (0x80, 0xBF)]
      else if a = 0xED then Some [(0x80, 0x9F), (0x80, 0xBF)]
      else if 0xE1 \<le> a \<and> a \<le> 0xEF then Some [(0x80, 0xBF), (0x80, 0xBF)]
      else if a = 0xF0 then Some [(0x90, 0xBF), (0x80, 0xBF), (0x80, 0xBF)]
      else if 0xF1 \<le> a \<and> a \<le> 0xF3 then Some [(0x80, 0xBF), (0x80, 0xBF), (0x80, 0xBF)]
      else if a = 0xF4 then Some [(0x80, 0x8F), (0x80, 0xBF), (0x80, 0xBF)]
      else None)"

fun utf8_run :: "(u8 \<times> u8) list \<Rightarrow> bytes \<Rightarrow> bool" where
  "utf8_run [] [] = True"
| "utf8_run ((lo, hi) # rs) [] = False"
| "utf8_run [] (a # bs) =
     (case utf8_follow a of None \<Rightarrow> False | Some rs \<Rightarrow> utf8_run rs bs)"
| "utf8_run ((lo, hi) # rs) (b # bs) \<longleftrightarrow> lo \<le> b \<and> b \<le> hi \<and> utf8_run rs bs"

definition utf8_valid :: "bytes \<Rightarrow> bool" where
  "utf8_valid bs = utf8_run [] bs"

definition utf8_high :: "(u8 \<times> u8) list \<Rightarrow> bool" where
  "utf8_high rs \<longleftrightarrow> (\<forall>(lo, hi) \<in> set rs. 0x80 \<le> lo)"

lemma utf8_follow_high: "utf8_follow a = Some rs \<Longrightarrow> utf8_high rs"
  by (auto simp: utf8_follow_def utf8_high_def split: if_splits)

lemma utf8_run_split:
  "utf8_run rs (xs @ b # ys) \<Longrightarrow> b < 0x80 \<Longrightarrow> utf8_high rs \<Longrightarrow> utf8_run rs xs \<and> utf8_run [] ys"
proof (induction rs xs rule: utf8_run.induct)
  case 1
  then show ?case by (simp add: utf8_follow_def)
next
  case (2 lo hi rs)
  then have "0x80 \<le> lo" "lo \<le> b" "b < 0x80" by (auto simp: utf8_high_def)
  then show ?case by simp
next
  case (3 a bs)
  then show ?case by (auto split: option.splits dest: utf8_follow_high)
next
  case (4 lo hi rs b bs)
  then show ?case by (auto simp: utf8_high_def)
qed

lemma ascii_lower_ge [simp]: "0x80 \<le> b \<Longrightarrow> ascii_lower b = b"
  by (auto simp: ascii_lower_def dest: order_trans)

lemma ascii_lower_lt: "b < 0x80 \<Longrightarrow> ascii_lower b < 0x80"
proof -
  have "b + 32 < 0x80" if "65 \<le> b" "b \<le> 90" using that by unat_arith
  then show "b < 0x80 \<Longrightarrow> ascii_lower b < 0x80" by (simp add: ascii_lower_def)
qed

lemma utf8_follow_lower [simp]: "utf8_follow (ascii_lower a) = utf8_follow a"
  by (cases "a < 0x80") (simp_all add: utf8_follow_def ascii_lower_lt not_less)

lemma utf8_run_ascii_lower:
  "utf8_run rs bs \<Longrightarrow> utf8_high rs \<Longrightarrow> utf8_run rs (map ascii_lower bs)"
proof (induction rs bs rule: utf8_run.induct)
  case (3 a bs)
  then show ?case by (auto split: option.splits dest: utf8_follow_high)
next
  case (4 lo hi rs b bs)
  then have "0x80 \<le> b" by (auto simp: utf8_high_def)
  with 4 show ?case by (auto simp: utf8_high_def)
qed simp_all

lemma utf8_valid_split:
  "utf8_valid (xs @ b # ys) \<Longrightarrow> b < 0x80 \<Longrightarrow> utf8_valid xs \<and> utf8_valid ys"
  using utf8_run_split [of "[]" xs b ys] by (simp add: utf8_valid_def utf8_high_def)

lemma utf8_valid_lower: "utf8_valid bs \<Longrightarrow> utf8_valid (map ascii_lower bs)"
  by (simp add: utf8_valid_def utf8_run_ascii_lower utf8_high_def)

lemma utf8_valid_Nil [simp]: "utf8_valid []"
  by (simp add: utf8_valid_def)

lemma utf8_valid_Cons_ascii: "b < 0x80 \<Longrightarrow> utf8_valid (b # bs) = utf8_valid bs"
  by (simp add: utf8_valid_def utf8_follow_def)

lemma utf8_valid_ascii: "\<forall>b \<in> set bs. b < 0x80 \<Longrightarrow> utf8_valid bs"
  by (induction bs) (auto simp: utf8_valid_Cons_ascii)

section \<open>Bytes and characters\<close>

lemma char_of_byte_of_char [simp]: "char_of_byte (of_char c) = c"
proof -
  have "(of_char c :: u8) = of_nat (of_char c :: nat)" by (simp only: of_nat_of_char)
  then have "unat (of_char c :: u8) = of_char c"
    using nat_of_char_less_256 [of c] by (simp add: unat_of_nat)
  then show ?thesis by (simp add: char_of_byte_def)
qed

lemma of_char_char_of_byte [simp]: "of_char (char_of_byte b) = (b :: u8)"
proof -
  have "(of_char (char_of (unat b)) :: u8) = of_nat (of_char (char_of (unat b)) :: nat)"
    by (simp only: of_nat_of_char)
  also have "\<dots> = of_nat (unat b mod 256)" by simp
  also have "\<dots> = b" by simp
  finally show ?thesis by (simp add: char_of_byte_def)
qed

lemma text_of_as_bytes [simp]: "text_of_bytes (as_bytes s) = s"
  by (induction s) (simp_all add: text_of_bytes_def as_bytes_def)

lemma as_bytes_of_text [simp]: "as_bytes (text_of_bytes bs) = bs"
  by (induction bs) (simp_all add: text_of_bytes_def as_bytes_def)

lemma length_as_bytes [simp]: "length (as_bytes s) = length s"
  by (simp add: as_bytes_def)

lemma length_text_of_bytes [simp]: "length (text_of_bytes bs) = length bs"
  by (simp add: text_of_bytes_def)

lemma as_bytes_inj: "as_bytes s = as_bytes t \<Longrightarrow> s = t"
  by (metis text_of_as_bytes)

lemma ascii_lower_idem [simp]: "ascii_lower (ascii_lower b) = ascii_lower b"
  unfolding ascii_lower_def by (auto, unat_arith)

lemma map_ascii_lower_idem [simp]: "map ascii_lower (map ascii_lower bs) = map ascii_lower bs"
  by (induction bs) simp_all

lemma as_bytes_append [simp]: "as_bytes (s @ t) = as_bytes s @ as_bytes t"
  by (simp add: as_bytes_def)

lemma of_char_dot: "(of_char CHR ''.'' :: u8) = 46"
  by simp

lemma as_bytes_Cons [simp]: "as_bytes (c # s) = of_char c # as_bytes s"
  by (simp add: as_bytes_def)

lemma as_bytes_Nil [simp]: "as_bytes [] = []"
  by (simp add: as_bytes_def)

text \<open>\<open>str::to_ascii_lowercase\<close>.\<close>

definition str_lower :: "string \<Rightarrow> string" where
  "str_lower s = text_of_bytes (map ascii_lower (as_bytes s))"

lemma str_lower_Nil [simp]: "str_lower [] = []"
  by (simp add: str_lower_def text_of_bytes_def)

lemma str_lower_append [simp]: "str_lower (s @ t) = str_lower s @ str_lower t"
  by (simp add: str_lower_def text_of_bytes_def)

lemma str_lower_dot [simp]: "str_lower ''.'' = ''.''"
  by code_simp

lemma str_lower_join: "str_lower (join_with ''.'' ps) = join_with ''.'' (map str_lower ps)"
proof (induction "''.''" ps rule: join_with.induct)
  case (3 x y ys)
  then show ?case using str_lower_append [of x "''.'' @ join_with ''.'' (y # ys)"]
      str_lower_append [of "''.''" "join_with ''.'' (y # ys)"] by (simp del: str_lower_append)
qed simp_all

lemma trim_end_decomp: "\<exists>k. xs = trim_end_matches c xs @ replicate k c"
proof (induction xs rule: rev_induct)
  case (snoc x xs)
  then obtain k where "xs = trim_end_matches c xs @ replicate k c" by blast
  then show ?case
    by (cases "x = c") (auto simp: trim_end_id intro: exI [of _ "Suc k"] exI [of _ 0]
        simp flip: replicate_append_same)
qed (simp add: trim_end_matches_def)

lemma utf8_valid_before_dot: "utf8_valid (as_bytes (t @ replicate k CHR ''.'')) \<Longrightarrow> utf8_valid (as_bytes t)"
  using utf8_valid_split [of "as_bytes t" 46 "as_bytes (replicate (k - 1) CHR ''.'')"]
  by (cases k) simp_all

lemma utf8_valid_trim_dot:
  "utf8_valid (as_bytes s) \<Longrightarrow> utf8_valid (as_bytes (trim_end_matches CHR ''.'' s))"
  by (metis trim_end_decomp utf8_valid_before_dot)

lemma utf8_valid_join_dot:
  "utf8_valid (as_bytes (join_with ''.'' ps)) \<Longrightarrow> p \<in> set ps \<Longrightarrow> utf8_valid (as_bytes p)"
proof (induction "''.''" ps rule: join_with.induct)
  case (3 x y ys)
  have "utf8_valid (as_bytes x @ 46 # as_bytes (join_with ''.'' (y # ys)))"
    using "3.prems"(1) by simp
  from utf8_valid_split [OF this] 3 show ?case by auto
qed simp_all

end
