(* ===== verification/Wire_Name.thy ===== *)
theory Wire_Name
  imports Dns_Data Text
begin

text \<open>
  Domain names of \<open>src/src/dns/types.rs\<close>: the text encoder, the 0x20 encoder, the decoder that
  follows compression pointers, and the helpers on encoded names (\<open>labels_to_string\<close>,
  \<open>domain_names_equal\<close>, \<open>count_labels\<close>, \<open>name_prefix\<close>).

  A loop of the sources that walks an index over an encoded name is a recursion on the remaining
  suffix of the name.  The decoder's loop jumps backwards and may revisit a position, so it is a
  \<open>partial_function (option)\<close>: \<open>None\<close> is the loop that never ends, and \<open>decode_domain_name\<close> turns it
  into the outcome \<open>Diverge\<close>.
\<close>

section \<open>Encoding text\<close>

fun encode_labels :: "string list \<Rightarrow> bytes \<Rightarrow> bytes dns_result" where
  "encode_labels [] encoded = Ok (encoded @ [0])"
| "encode_labels (label # labels) encoded =
     (if label = [] then Err (InvalidLabel ''empty label in domain name'')
      else if length label > 63 then Err (InvalidLabel ''label exceeds 63 characters'')
      else encode_labels labels
             (encoded @ of_nat (length label) # map ascii_lower (as_bytes label)))"

definition encode_domain_name :: "string \<Rightarrow> bytes dns_result" where
  "encode_domain_name name =
     (let name = trim_end_matches CHR ''.'' name in
      if name = [] then Ok [0] else encode_labels (split_on CHR ''.'' name) [])"

text \<open>The 0x20 encoder: one mask bit per ASCII letter, the mask reused cyclically.\<close>

fun mix_label :: "bool list \<Rightarrow> nat \<Rightarrow> bytes \<Rightarrow> bytes \<Rightarrow> (bytes \<times> nat) dns_result" where
  "mix_label msk bit_idx [] encoded = Ok (encoded, bit_idx)"
| "mix_label msk bit_idx (b # bs) encoded =
     (if is_ascii_alphabetic b then
        (if length msk = 0 then Panic
         else let flip = msk ! (bit_idx mod length msk) in
           mix_label msk (bit_idx + 1) bs (encoded @ [if flip then b XOR 0x20 else b]))
      else mix_label msk bit_idx bs (encoded @ [b]))"

fun encode_labels_mixed :: "bool list \<Rightarrow> nat \<Rightarrow> string list \<Rightarrow> bytes \<Rightarrow> bytes dns_result" where
  "encode_labels_mixed msk bit_idx [] encoded = Ok (encoded @ [0])"
| "encode_labels_mixed msk bit_idx (label # labels) encoded =
     (if label = [] then Err (InvalidLabel ''empty label in domain name'')
      else if length label > 63 then Err (InvalidLabel ''label exceeds 63 characters'')
      else obind (mix_label msk bit_idx (as_bytes label) (encoded @ [of_nat (length label)]))
             (\<lambda>(encoded, bit_idx). encode_labels_mixed msk bit_idx labels encoded))"

definition encode_domain_name_mixed :: "string \<Rightarrow> bool list \<Rightarrow> bytes dns_result" where
  "encode_domain_name_mixed name msk =
     (let name = trim_end_matches CHR ''.'' name in
      if name = [] then Ok [0] else encode_labels_mixed msk 0 (split_on CHR ''.'' name) [])"

section \<open>Decoding\<close>

text \<open>The pointer \<open>((byte & 0x3f) as usize) << 8 | next as usize\<close>: the bits do not overlap.\<close>

definition ptr_target :: "u8 \<Rightarrow> u8 \<Rightarrow> nat" where
  "ptr_target byte nxt = unat (byte AND 0x3f) * 256 + unat nxt"

partial_function (option) decode_loop ::
  "bytes \<Rightarrow> nat \<Rightarrow> bytes \<Rightarrow> nat \<Rightarrow> bool \<Rightarrow> nat \<Rightarrow> (bytes \<times> nat) dns_result option" where
  "decode_loop data offset result pos jumped jump_pos =
     (if length data \<le> pos then Some (Err UnexpectedEof)
      else if data ! pos = 0 then
        Some (Ok (result @ [0], if jumped then jump_pos else pos + 1))
      else if data ! pos AND 0xc0 = 0xc0 then
        (if length data \<le> pos + 1 then Some (Err UnexpectedEof)
         else if offset \<le> ptr_target (data ! pos) (data ! (pos + 1)) then
           Some (Err (InvalidPointer (ptr_target (data ! pos) (data ! (pos + 1)))))
         else decode_loop data offset result (ptr_target (data ! pos) (data ! (pos + 1)))
                True (if jumped then jump_pos else pos + 2))
      else if 63 < unat (data ! pos) then Some (Err (InvalidLabel ''label exceeds 63 bytes''))
      else if length data < pos + 1 + unat (data ! pos) then Some (Err UnexpectedEof)
      else decode_loop data offset
             (result @ data ! pos # take (unat (data ! pos)) (drop (pos + 1) data))
             (pos + 1 + unat (data ! pos)) jumped jump_pos)"

declare decode_loop.simps [code]

definition decode_domain_name :: "bytes \<Rightarrow> nat \<Rightarrow> (bytes \<times> nat) dns_result" where
  "decode_domain_name data offset =
     (case decode_loop data offset [] offset False 0 of None \<Rightarrow> Diverge | Some r \<Rightarrow> r)"

section \<open>Encoded names\<close>

function label_parts :: "bytes \<Rightarrow> string list" where
  "label_parts [] = []"
| "label_parts (len # rest) =
     (if len = 0 then []
      else if length rest < unat len then []
      else (if utf8_valid (take (unat len) rest) then [text_of_bytes (take (unat len) rest)]
            else []) @ label_parts (drop (unat len) rest))"
  by pat_completeness auto
termination
  by (relation "measure length") auto

definition labels_to_string :: "bytes \<Rightarrow> string" where
  "labels_to_string labels =
     (let parts = label_parts labels in
      if parts = [] then ''.'' else join_with ''.'' parts)"

definition question_name_str :: "question \<Rightarrow> string" where
  "question_name_str q = labels_to_string (q_name q)"

fun eq_label_bytes :: "nat \<Rightarrow> bytes \<Rightarrow> bytes \<Rightarrow> (bytes \<times> bytes) option" where
  "eq_label_bytes 0 a b = Some (a, b)"
| "eq_label_bytes (Suc n) (x # a) (y # b) =
     (if eq_ignore_case x y then eq_label_bytes n a b else None)"
| "eq_label_bytes (Suc n) a b = None"

lemma eq_label_bytes_length:
  "eq_label_bytes n a b = Some (a', b') \<Longrightarrow>
     length a' + n = length a \<and> length b' + n = length b"
  by (induction n a b rule: eq_label_bytes.induct) (auto split: if_splits)

function domain_names_equal :: "bytes \<Rightarrow> bytes \<Rightarrow> bool" where
  "domain_names_equal [] [] = True"
| "domain_names_equal [] (lb # b) = False"
| "domain_names_equal (la # a) [] = False"
| "domain_names_equal (la # a) (lb # b) =
     (if la \<noteq> lb then False
      else if la = 0 then True
      else case eq_label_bytes (unat la) a b of
             None \<Rightarrow> False
           | Some (a', b') \<Rightarrow> domain_names_equal a' b')"
  by pat_completeness auto
termination
  by (relation "measure (\<lambda>(a, b). length a)") (auto dest: eq_label_bytes_length)

function count_labels :: "bytes \<Rightarrow> nat" where
  "count_labels [] = 0"
| "count_labels (len # rest) =
     (if len = 0 then 0 else Suc (count_labels (drop (unat len) rest)))"
  by pat_completeness auto
termination
  by (relation "measure length") auto

function prefix_loop :: "nat \<Rightarrow> nat \<Rightarrow> bytes \<Rightarrow> bytes \<Rightarrow> bytes dns_result" where
  "prefix_loop skip count [] result = Ok result"
| "prefix_loop skip count (len # rest) result =
     (if len = 0 then Ok (result @ [0])
      else if skip \<le> count then
        (if unat len \<le> length rest then
           prefix_loop skip (count + 1) (drop (unat len) rest)
             (result @ len # take (unat len) rest)
         else Panic)
      else prefix_loop skip (count + 1) (drop (unat len) rest) result)"
  by pat_completeness auto
termination
  by (relation "measure (\<lambda>(skip, count, rest, result). length rest)") auto

definition name_prefix :: "bytes \<Rightarrow> nat \<Rightarrow> bytes dns_result" where
  "name_prefix name n =
     (let total = count_labels name in
      if total \<le> n then Ok name
      else obind (prefix_loop (total - n) 0 name [])
             (\<lambda>result. Ok (if result = [] \<or> last result \<noteq> 0 then result @ [0] else result)))"

section \<open>Names as label sequences\<close>

text \<open>
  The abstract view of an encoded name: its labels, each of 1 to 63 bytes.  Everything the
  decoder returns is the encoding of such a sequence.
\<close>

definition valid_label :: "bytes \<Rightarrow> bool" where
  "valid_label l \<longleftrightarrow> 0 < length l \<and> length l \<le> 63"

definition valid_labels :: "bytes list \<Rightarrow> bool" where
  "valid_labels ls \<longleftrightarrow> (\<forall>l \<in> set ls. valid_label l)"

definition wire_labels :: "bytes list \<Rightarrow> bytes" where
  "wire_labels ls = concat (map (\<lambda>l. of_nat (length l) # l) ls)"

definition wire_name :: "bytes list \<Rightarrow> bytes" where
  "wire_name ls = wire_labels ls @ [0]"

definition valid_name :: "bytes \<Rightarrow> bool" where
  "valid_name n \<longleftrightarrow> (\<exists>ls. valid_labels ls \<and> n = wire_name ls)"

lemma wire_labels_Nil [simp]: "wire_labels [] = []"
  by (simp add: wire_labels_def)

lemma wire_labels_Cons [simp]: "wire_labels (l # ls) = of_nat (length l) # l @ wire_labels ls"
  by (simp add: wire_labels_def)

lemma wire_labels_append [simp]: "wire_labels (xs @ ys) = wire_labels xs @ wire_labels ys"
  by (simp add: wire_labels_def)

lemma wire_name_Nil [simp]: "wire_name [] = [0]"
  by (simp add: wire_name_def)

lemma wire_name_Cons [simp]: "wire_name (l # ls) = of_nat (length l) # l @ wire_name ls"
  by (simp add: wire_name_def)

lemma wire_name_nonempty [simp]: "wire_name ls \<noteq> []"
  by (simp add: wire_name_def)

lemma valid_labels_Nil [simp]: "valid_labels []"
  by (simp add: valid_labels_def)

lemma valid_labels_Cons [simp]: "valid_labels (l # ls) \<longleftrightarrow> valid_label l \<and> valid_labels ls"
  by (simp add: valid_labels_def)

lemma valid_labels_append [simp]: "valid_labels (xs @ ys) \<longleftrightarrow> valid_labels xs \<and> valid_labels ys"
  by (auto simp: valid_labels_def)

lemma valid_label_len [simp]:
  "valid_label l \<Longrightarrow> unat (of_nat (length l) :: u8) = length l"
  by (simp add: valid_label_def)

lemma valid_label_len_nonzero [simp]:
  "valid_label l \<Longrightarrow> (of_nat (length l) :: u8) \<noteq> 0"
  using valid_label_len [of l] by (metis length_0_conv less_numeral_extra(3) unsigned_0 valid_label_def)

lemma small_not_pointer:
  assumes "unat (b :: u8) \<le> 63" shows "b AND 0xc0 \<noteq> 0xc0"
proof
  assume "b AND 0xc0 = 0xc0"
  then have "0xc0 \<le> b" using word_and_le2 [of b "0xc0"] by simp
  then show False using assms by (simp add: word_le_nat_alt)
qed

lemma valid_name_wire [simp, intro]: "valid_labels ls \<Longrightarrow> valid_name (wire_name ls)"
  by (auto simp: valid_name_def)

subsection \<open>The encoder\<close>

lemma encode_labels_Ok_iff:
  "encode_labels ls acc = Ok out \<longleftrightarrow>
     valid_labels (map as_bytes ls) \<and>
     out = acc @ wire_name (map (\<lambda>l. map ascii_lower (as_bytes l)) ls)"
  by (induction ls arbitrary: acc) (auto simp: valid_label_def)

lemma encode_labels_returns: "returns (encode_labels ls acc)"
  by (induction ls arbitrary: acc) auto

definition name_labels :: "string \<Rightarrow> string list" where
  "name_labels s =
     (let s = trim_end_matches CHR ''.'' s in if s = [] then [] else split_on CHR ''.'' s)"

lemma encode_domain_name_Ok_iff:
  "encode_domain_name s = Ok n \<longleftrightarrow>
     valid_labels (map as_bytes (name_labels s)) \<and>
     n = wire_name (map (\<lambda>l. map ascii_lower (as_bytes l)) (name_labels s))"
  by (auto simp: encode_domain_name_def name_labels_def Let_def encode_labels_Ok_iff)

lemma valid_labels_lower [simp]:
  "valid_labels (map (map ascii_lower) ls) = valid_labels ls"
  by (simp add: valid_labels_def valid_label_def)

lemma valid_labels_map_same_length:
  "(\<And>x. length (f x) = length (g x)) \<Longrightarrow> valid_labels (map f xs) = valid_labels (map g xs)"
  by (simp add: valid_labels_def valid_label_def flip: length_greater_0_conv)

lemma encode_domain_name_valid: "encode_domain_name s = Ok n \<Longrightarrow> valid_name n"
  using valid_labels_map_same_length [of as_bytes "\<lambda>l. map ascii_lower (as_bytes l)"]
  by (auto simp: encode_domain_name_Ok_iff)

lemma encode_domain_name_returns: "returns (encode_domain_name s)"
  by (simp add: encode_domain_name_def Let_def encode_labels_returns)

subsection \<open>The decoder on an uncompressed name\<close>

lemma decode_loop_end:
  "decode_loop (pre @ 0 # post) off acc (length pre) jumped jp =
     Some (Ok (acc @ [0], if jumped then jp else length pre + 1))"
  by (simp add: decode_loop.simps)

lemma decode_loop_label:
  assumes "valid_label l"
  shows "decode_loop (pre @ of_nat (length l) # l @ post) off acc (length pre) jumped jp =
         decode_loop (pre @ of_nat (length l) # l @ post) off (acc @ of_nat (length l) # l)
           (length pre + 1 + length l) jumped jp"
  using assms small_not_pointer [of "of_nat (length l)"]
  by (subst decode_loop.simps) (simp add: nth_append_at valid_label_def)

lemma decode_loop_wire:
  assumes "valid_labels ls"
  shows "decode_loop (pre @ wire_name ls @ post) off acc (length pre) jumped jp =
         Some (Ok (acc @ wire_name ls, if jumped then jp else length pre + length (wire_name ls)))"
  using assms
proof (induction ls arbitrary: pre acc)
  case (Cons l ls)
  have "decode_loop ((pre @ of_nat (length l) # l) @ wire_name ls @ post) off
          (acc @ of_nat (length l) # l) (length (pre @ of_nat (length l) # l)) jumped jp =
        Some (Ok ((acc @ of_nat (length l) # l) @ wire_name ls,
          if jumped then jp else length (pre @ of_nat (length l) # l) + length (wire_name ls)))"
    using Cons.prems by (intro Cons.IH) simp
  with Cons.prems show ?case
    by (simp add: decode_loop_label)
qed (simp add: decode_loop_end)

lemma decode_wire_name:
  assumes "valid_labels ls"
  shows "decode_domain_name (pre @ wire_name ls @ post) (length pre) =
         Ok (wire_name ls, length pre + length (wire_name ls))"
  by (simp add: decode_domain_name_def decode_loop_wire [OF assms])

lemma decode_valid_name:
  assumes "valid_name n"
  shows "decode_domain_name (pre @ n @ post) (length pre) = Ok (n, length pre + length n)"
  using assms decode_wire_name by (auto simp: valid_name_def)

subsection \<open>What the decoder returns\<close>

definition label_run :: "bytes \<Rightarrow> bool" where
  "label_run acc \<longleftrightarrow> (\<exists>ls. valid_labels ls \<and> acc = wire_labels ls)"

lemma label_run_Nil [simp]: "label_run []"
  by (auto simp: label_run_def intro: exI [of _ "[]"])

lemma label_run_end: "label_run acc \<Longrightarrow> valid_name (acc @ [0])"
  by (auto simp: label_run_def simp flip: wire_name_def)

lemma label_run_step:
  assumes "label_run acc" "b \<noteq> 0" "unat (b :: u8) \<le> 63" "pos + 1 + unat b \<le> length data"
  shows "label_run (acc @ b # take (unat b) (drop (pos + 1) data))"
proof -
  let ?l = "take (unat b) (drop (pos + 1) data)"
  obtain ls where ls: "valid_labels ls" "acc = wire_labels ls"
    using assms(1) by (auto simp: label_run_def)
  have len: "length ?l = unat b" using assms(4) by simp
  have "0 < unat b" using assms(2) by (simp add: unat_gt_0)
  with assms len have "valid_label ?l" by (simp only: valid_label_def)
  with ls have "valid_labels (ls @ [?l])" by simp
  moreover have "acc @ b # ?l = wire_labels (ls @ [?l])" using ls len by simp
  ultimately show ?thesis unfolding label_run_def by blast
qed

fun decoded_ok :: "bytes \<Rightarrow> nat \<Rightarrow> (bytes \<times> nat) dns_result \<Rightarrow> bool" where
  "decoded_ok data off (Ok (n, nxt)) \<longleftrightarrow> valid_name n \<and> off < nxt \<and> nxt \<le> length data"
| "decoded_ok data off (Err e) \<longleftrightarrow> True"
| "decoded_ok data off Panic \<longleftrightarrow> False"
| "decoded_ok data off Diverge \<longleftrightarrow> False"

lemmas decode_loop_induct = decode_loop.raw_induct [rotated, consumes 1, case_names step]

lemma decode_loop_sound:
  "decode_loop data off acc pos jumped jp = Some r \<Longrightarrow>
     label_run acc \<longrightarrow> (if jumped then off < jp \<and> jp \<le> length data else off \<le> pos) \<longrightarrow>
     decoded_ok data off r"
proof (induction data off acc pos jumped jp r rule: decode_loop_induct)
  case (step decode data off acc pos jumped jp r)
  show ?case
  proof (intro impI)
    assume acc: "label_run acc"
      and pos: "if jumped then off < jp \<and> jp \<le> length data else off \<le> pos"
    note ih = step(1) [rule_format]
    show "decoded_ok data off r"
      using step(2) acc pos label_run_end [OF acc] label_run_step [OF acc, of "data ! pos" pos data]
      by (auto split: if_splits intro: ih)
  qed
qed

lemma decode_domain_name_sound:
  assumes "decode_domain_name data off = Ok (n, nxt)"
  shows "valid_name n" "off < nxt" "nxt \<le> length data"
proof -
  have "decode_loop data off [] off False 0 = Some (Ok (n, nxt))"
    using assms by (auto simp: decode_domain_name_def split: option.splits)
  from decode_loop_sound [OF this] show "valid_name n" "off < nxt" "nxt \<le> length data"
    by auto
qed

lemma decode_loop_first_ok:
  "decode_loop data off [] off False 0 = Some r \<Longrightarrow> decoded_ok data off r"
  using decode_loop_sound [of data off "[]" off False 0 r] by simp

lemma decode_domain_name_not_Panic [simp]: "decode_domain_name data off \<noteq> Panic"
  by (auto simp: decode_domain_name_def split: option.splits dest: decode_loop_first_ok)

subsection \<open>When the decoder returns\<close>

text \<open>
  The same loop with a bound on its iterations.  The positions it visits lie below \<open>length data\<close>
  and determine its future, so a run of more than \<open>length data\<close> iterations repeats a position and
  never ends: \<open>length data + 1\<close> iterations decide termination.
\<close>

fun decode_fuel ::
  "nat \<Rightarrow> bytes \<Rightarrow> nat \<Rightarrow> bytes \<Rightarrow> nat \<Rightarrow> bool \<Rightarrow> nat \<Rightarrow> (bytes \<times> nat) dns_result option" where
  "decode_fuel 0 data offset result pos jumped jump_pos = None"
| "decode_fuel (Suc k) data offset result pos jumped jump_pos =
     (if length data \<le> pos then Some (Err UnexpectedEof)
      else if data ! pos = 0 then
        Some (Ok (result @ [0], if jumped then jump_pos else pos + 1))
      else if data ! pos AND 0xc0 = 0xc0 then
        (if length data \<le> pos + 1 then Some (Err UnexpectedEof)
         else if offset \<le> ptr_target (data ! pos) (data ! (pos + 1)) then
           Some (Err (InvalidPointer (ptr_target (data ! pos) (data ! (pos + 1)))))
         else decode_fuel k data offset result (ptr_target (data ! pos) (data ! (pos + 1)))
                True (if jumped then jump_pos else pos + 2))
      else if 63 < unat (data ! pos) then Some (Err (InvalidLabel ''label exceeds 63 bytes''))
      else if length data < pos + 1 + unat (data ! pos) then Some (Err UnexpectedEof)
      else decode_fuel k data offset
             (result @ data ! pos # take (unat (data ! pos)) (drop (pos + 1) data))
             (pos + 1 + unat (data ! pos)) jumped jump_pos)"

text \<open>The position the loop continues at, \<open>None\<close> when it returns.\<close>

definition decode_next :: "bytes \<Rightarrow> nat \<Rightarrow> nat \<Rightarrow> nat option" where
  "decode_next data offset pos =
     (if length data \<le> pos \<or> data ! pos = 0 then None
      else if data ! pos AND 0xc0 = 0xc0 then
        (if length data \<le> pos + 1 \<or> offset \<le> ptr_target (data ! pos) (data ! (pos + 1)) then None
         else Some (ptr_target (data ! pos) (data ! (pos + 1))))
      else if 63 < unat (data ! pos) \<or> length data < pos + 1 + unat (data ! pos) then None
      else Some (pos + 1 + unat (data ! pos)))"

fun decode_orbit :: "bytes \<Rightarrow> nat \<Rightarrow> nat \<Rightarrow> nat \<Rightarrow> nat option" where
  "decode_orbit data offset 0 pos = Some pos"
| "decode_orbit data offset (Suc k) pos =
     Option.bind (decode_next data offset pos) (decode_orbit data offset k)"

lemma decode_fuel_loop:
  "decode_fuel k data off acc pos jumped jp = Some r \<Longrightarrow>
     decode_loop data off acc pos jumped jp = Some r"
proof (induction k arbitrary: acc pos jumped jp)
  case (Suc k)
  then show ?case by (subst decode_loop.simps) (auto split: if_splits)
qed simp

lemma decode_loop_fuel:
  "decode_loop data off acc pos jumped jp = Some r \<Longrightarrow>
     \<exists>k. decode_fuel k data off acc pos jumped jp = Some r"
proof (induction data off acc pos jumped jp r rule: decode_loop_induct)
  case (step decode data off acc pos jumped jp r)
  show ?case
    using step(2) by (auto split: if_splits dest!: step(1) intro: exI [of _ "Suc _"])
qed

lemma decode_fuel_None_iff:
  "decode_fuel k data off acc pos jumped jp = None \<longleftrightarrow> decode_orbit data off k pos \<noteq> None"
  by (induction k arbitrary: acc pos jumped jp) (auto simp: decode_next_def not_less)

lemma decode_next_live: "decode_next data off pos \<noteq> None \<Longrightarrow> pos < length data"
  by (auto simp: decode_next_def split: if_splits)

lemma decode_orbit_add:
  "decode_orbit data off (i + j) pos =
     Option.bind (decode_orbit data off i pos) (decode_orbit data off j)"
proof (induction i arbitrary: pos)
  case (Suc i)
  then show ?case by (cases "decode_next data off pos") auto
qed simp

lemma decode_orbit_prefix:
  "decode_orbit data off (i + j) pos \<noteq> None \<Longrightarrow> decode_orbit data off i pos \<noteq> None"
  by (cases "decode_orbit data off i pos") (auto simp: decode_orbit_add)

lemma decode_orbit_below:
  assumes "decode_orbit data off (Suc i) pos \<noteq> None"
  shows "\<exists>p < length data. decode_orbit data off i pos = Some p"
proof -
  obtain p where p: "decode_orbit data off i pos = Some p"
    using decode_orbit_prefix [of data off i 1 pos] assms by auto
  with assms have "decode_next data off p \<noteq> None"
    using decode_orbit_add [of data off i 1 pos] by (cases "decode_next data off p") auto
  with p show ?thesis using decode_next_live by blast
qed

lemma decode_orbit_repeat:
  assumes "decode_orbit data off (length data + 1) pos \<noteq> None"
  shows "\<exists>i j. i < j \<and> j \<le> length data \<and>
           decode_orbit data off i pos = decode_orbit data off j pos"
proof -
  let ?p = "\<lambda>i. the (decode_orbit data off i pos)"
  have some: "decode_orbit data off i pos = Some (?p i) \<and> ?p i < length data"
    if "i \<le> length data" for i
  proof -
    have "decode_orbit data off (Suc i) pos \<noteq> None"
      using decode_orbit_prefix [of data off "Suc i" "length data - i" pos] assms that by simp
    from decode_orbit_below [OF this] show ?thesis by auto
  qed
  have "\<not> inj_on ?p {..length data}"
  proof
    assume "inj_on ?p {..length data}"
    then have "card {..length data} \<le> card {..<length data}"
      using some by (intro card_inj_on_le) auto
    then show False by simp
  qed
  then obtain i j where "i \<le> length data" "j \<le> length data" "i \<noteq> j" "?p i = ?p j"
    by (auto simp: inj_on_def)
  then show ?thesis using some by (metis linorder_neqE_nat)
qed

lemma decode_orbit_cycle:
  assumes ij: "i < j" and same: "decode_orbit data off i pos = decode_orbit data off j pos"
    and live: "decode_orbit data off j pos \<noteq> None"
  shows "decode_orbit data off m pos \<noteq> None"
proof (induction m rule: less_induct)
  case (less m)
  show ?case
  proof (cases "m \<le> j")
    case True
    then show ?thesis using decode_orbit_prefix [of data off m "j - m" pos] live by simp
  next
    case False
    then obtain t where t: "m = j + t" by (metis le_add_diff_inverse nat_le_linear)
    have "decode_orbit data off m pos = decode_orbit data off (i + t) pos"
      by (simp add: t decode_orbit_add same)
    then show ?thesis using less.IH [of "i + t"] ij t by simp
  qed
qed

lemma decode_fuel_enough:
  assumes "decode_fuel (length data + 1) data off acc pos jumped jp = None"
  shows "decode_fuel k data off acc pos jumped jp = None"
proof -
  have live: "decode_orbit data off (length data + 1) pos \<noteq> None"
    using assms decode_fuel_None_iff by blast
  obtain i j where ij: "i < j" "j \<le> length data"
    "decode_orbit data off i pos = decode_orbit data off j pos"
    using decode_orbit_repeat [OF live] by blast
  have "decode_orbit data off j pos \<noteq> None"
    using decode_orbit_prefix [of data off j "length data + 1 - j" pos] ij live by simp
  with ij show ?thesis by (simp only: decode_fuel_None_iff) (rule decode_orbit_cycle)
qed

lemma decode_domain_name_decided:
  "decode_domain_name data off =
     (case decode_fuel (length data + 1) data off [] off False 0 of
        None \<Rightarrow> Diverge | Some r \<Rightarrow> r)"
proof (cases "decode_fuel (length data + 1) data off [] off False 0")
  case None
  have "decode_loop data off [] off False 0 = None"
    using decode_fuel_enough [OF None] decode_loop_fuel [of data off "[]" off False 0]
    by (metis not_None_eq)
  with None show ?thesis by (simp add: decode_domain_name_def)
next
  case (Some r)
  with decode_fuel_loop [OF Some] show ?thesis by (simp add: decode_domain_name_def)
qed

text \<open>
  A pointer below the start of the name that leads back to itself is accepted: the check is
  against the start of the name, not against the pointer's own position.
\<close>

lemma decode_orbit_fixed:
  "decode_next data off p = Some p \<Longrightarrow> decode_orbit data off k p = Some p"
  by (induction k) auto

lemma decode_self_pointer_diverges:
  assumes "off + 1 < length data" "data ! off AND 0xc0 = 0xc0"
    and "ptr_target (data ! off) (data ! (off + 1)) = p" "p < off"
    and "data ! p AND 0xc0 = 0xc0" "ptr_target (data ! p) (data ! (p + 1)) = p"
  shows "decode_domain_name data off = Diverge"
proof -
  have first: "decode_next data off off = Some p"
    using assms by (auto simp: decode_next_def)
  have "decode_next data off p = Some p"
    using assms by (auto simp: decode_next_def)
  then have "decode_orbit data off (length data + 1) off \<noteq> None"
    using first decode_orbit_fixed [of data off p] by simp
  then have "decode_fuel (length data + 1) data off [] off False 0 = None"
    using decode_fuel_None_iff by blast
  then show ?thesis by (simp only: decode_domain_name_decided option.case)
qed

subsection \<open>Comparison, counting, suffixes\<close>

lemma eq_label_bytes_append:
  "length l = n \<Longrightarrow> length l' = n \<Longrightarrow>
     eq_label_bytes n (l @ a) (l' @ b) =
       (if map ascii_lower l = map ascii_lower l' then Some (a, b) else None)"
  by (induction l l' arbitrary: n rule: list_induct2') (auto simp: eq_ignore_case_def)

lemma domain_names_equal_wire:
  assumes "valid_labels as" "valid_labels bs"
  shows "domain_names_equal (wire_name as) (wire_name bs) \<longleftrightarrow>
           map (map ascii_lower) as = map (map ascii_lower) bs"
  using assms
proof (induction as bs rule: list_induct2')
  case (4 x xs y ys)
  show ?case
  proof (cases "length x = length y")
    case True
    with 4 show ?thesis by (simp add: eq_label_bytes_append)
  next
    case False
    have "map ascii_lower x \<noteq> map ascii_lower y"
      using False map_eq_imp_length_eq by blast
    moreover have "(of_nat (length x) :: u8) \<noteq> of_nat (length y)"
      using 4 False by (metis valid_label_len valid_labels_Cons)
    ultimately show ?thesis by simp
  qed
qed (auto simp: valid_label_def)

lemma count_labels_wire [simp]: "valid_labels ls \<Longrightarrow> count_labels (wire_name ls) = length ls"
  by (induction ls) auto

lemma prefix_loop_wire:
  "valid_labels ls \<Longrightarrow>
     prefix_loop skip count (wire_name ls) acc = Ok (acc @ wire_name (drop (skip - count) ls))"
proof (induction ls arbitrary: count acc)
  case (Cons l ls)
  show ?case
  proof (cases "skip \<le> count")
    case True
    with Cons show ?thesis by simp
  next
    case False
    then have "skip - count = Suc (skip - Suc count)" by simp
    with Cons False show ?thesis by simp
  qed
qed simp

lemma last_wire_name [simp]: "last (wire_name ls) = 0"
  by (simp add: wire_name_def)

lemma name_prefix_wire:
  "valid_labels ls \<Longrightarrow> name_prefix (wire_name ls) n = Ok (wire_name (drop (length ls - n) ls))"
  by (cases "length ls \<le> n") (simp_all add: name_prefix_def prefix_loop_wire Let_def)

subsection \<open>Text and wire form\<close>

lemma label_parts_wire:
  "valid_labels ls \<Longrightarrow> \<forall>l \<in> set ls. utf8_valid l \<Longrightarrow>
     label_parts (wire_name ls) = map text_of_bytes ls"
  by (induction ls) auto

lemma labels_to_string_wire:
  "valid_labels ls \<Longrightarrow> \<forall>l \<in> set ls. utf8_valid l \<Longrightarrow>
     labels_to_string (wire_name ls) =
       (if ls = [] then ''.'' else join_with ''.'' (map text_of_bytes ls))"
  by (simp add: labels_to_string_def label_parts_wire Let_def)

lemma join_eq_Nil_iff: "\<forall>p \<in> set ps. p \<noteq> [] \<Longrightarrow> join_with sep ps = [] \<longleftrightarrow> ps = []"
  by (induction sep ps rule: join_with.induct) auto

lemma name_labels_join:
  "join_with ''.'' (name_labels s) = trim_end_matches CHR ''.'' s"
  by (auto simp: name_labels_def Let_def join_split_on)

lemma name_labels_Nil_iff: "name_labels s = [] \<longleftrightarrow> trim_end_matches CHR ''.'' s = []"
  by (simp add: name_labels_def Let_def)

lemma name_labels_of_join:
  assumes "\<forall>p \<in> set ps. p \<noteq> [] \<and> CHR ''.'' \<notin> set p"
  shows "name_labels (join_with ''.'' ps) = ps"
proof (cases "ps = []")
  case False
  then have "last ps \<in> set ps" by simp
  then have "last (join_with ''.'' ps) \<noteq> CHR ''.''" "join_with ''.'' ps \<noteq> []"
    using join_last [OF False, of "''.''"] assms last_in_set [of "last ps"] by metis+
  then show ?thesis using False assms
    by (simp add: name_labels_def trim_end_id split_on_join)
qed (simp add: name_labels_def trim_end_matches_def)

lemma labels_to_string_encode:
  assumes "utf8_valid (as_bytes s)" "encode_domain_name s = Ok n"
  shows "labels_to_string n =
           (let t = trim_end_matches CHR ''.'' s in if t = [] then ''.'' else str_lower t)"
proof -
  let ?low = "\<lambda>l. map ascii_lower (as_bytes l)"
  have n: "n = wire_name (map ?low (name_labels s))"
    and ok: "valid_labels (map as_bytes (name_labels s))"
    using assms(2) by (auto simp: encode_domain_name_Ok_iff)
  have "utf8_valid (as_bytes (join_with ''.'' (name_labels s)))"
    using assms(1) by (simp add: name_labels_join utf8_valid_trim_dot)
  then have "\<forall>l \<in> set (map ?low (name_labels s)). utf8_valid l"
    by (auto intro: utf8_valid_lower utf8_valid_join_dot)
  moreover have "valid_labels (map ?low (name_labels s))"
    using ok valid_labels_map_same_length [of as_bytes ?low] by simp
  ultimately have "labels_to_string n =
      (if name_labels s = [] then ''.'' else join_with ''.'' (map str_lower (name_labels s)))"
    by (simp add: n labels_to_string_wire str_lower_def [abs_def] comp_def)
  then show ?thesis
    by (simp add: Let_def name_labels_Nil_iff name_labels_join flip: str_lower_join)
qed

lemma encode_labels_to_string:
  assumes "valid_labels ls" "\<forall>l \<in> set ls. utf8_valid l \<and> 46 \<notin> set l \<and> map ascii_lower l = l"
  shows "encode_domain_name (labels_to_string (wire_name ls)) = Ok (wire_name ls)"
proof (cases "ls = []")
  case True
  then show ?thesis
    by (simp add: labels_to_string_def encode_domain_name_def trim_end_matches_def)
next
  case False
  have "\<forall>p \<in> set (map text_of_bytes ls). p \<noteq> [] \<and> CHR ''.'' \<notin> set p"
  proof (intro ballI conjI)
    fix p assume "p \<in> set (map text_of_bytes ls)"
    then obtain l where l: "l \<in> set ls" "p = text_of_bytes l" by auto
    show "p \<noteq> []" using l assms(1) by (auto simp: valid_labels_def valid_label_def text_of_bytes_def)
    show "CHR ''.'' \<notin> set p"
    proof
      assume "CHR ''.'' \<in> set p"
      then have "of_char CHR ''.'' \<in> set (as_bytes p)" unfolding as_bytes_def by force
      then show False using l assms(2) by auto
    qed
  qed
  then have "name_labels (labels_to_string (wire_name ls)) = map text_of_bytes ls"
    using assms False by (simp add: labels_to_string_wire name_labels_of_join)
  moreover have "map (\<lambda>l. map ascii_lower (as_bytes (text_of_bytes l))) ls = ls"
    using assms(2) by (simp add: map_idI)
  ultimately show ?thesis using assms(1)
    by (simp add: encode_domain_name_Ok_iff comp_def)
qed

subsection \<open>0x20 case randomisation\<close>

lemma word_of_nat_unat_self: "b = of_nat (unat (b :: u8))"
  by simp

lemma ascii_lower_flip:
  assumes "is_ascii_alphabetic b" shows "ascii_lower (b XOR 0x20) = ascii_lower b"
proof -
  have "unat b \<in> set ([65..<91] @ [97..<123])"
    using assms by (simp only: set_append set_upt)
      (auto simp: is_ascii_alphabetic_def word_le_nat_alt)
  then have "b \<in> set (map of_nat ([65..<91] @ [97..<123]))"
    using word_of_nat_unat_self [of b] by (metis image_eqI list.set_map)
  then show ?thesis
    by (auto simp: upt_rec_numeral ascii_lower_def)
qed

lemma mix_label_Ok:
  "msk \<noteq> [] \<Longrightarrow> \<exists>bs' k'. mix_label msk k bs acc = Ok (acc @ bs', k') \<and>
     map ascii_lower bs' = map ascii_lower bs"
proof (induction bs arbitrary: k acc)
  case (Cons b bs)
  show ?case
  proof (cases "is_ascii_alphabetic b")
    case True
    let ?b = "if msk ! (k mod length msk) then b XOR 0x20 else b"
    obtain bs' k' where "mix_label msk (k + 1) bs (acc @ [?b]) = Ok ((acc @ [?b]) @ bs', k')"
      "map ascii_lower bs' = map ascii_lower bs" using Cons by blast
    with True Cons.prems show ?thesis
      by (auto simp: ascii_lower_flip Let_def intro!: exI [of _ "?b # bs'"])
  next
    case False
    obtain bs' k' where "mix_label msk k bs (acc @ [b]) = Ok ((acc @ [b]) @ bs', k')"
      "map ascii_lower bs' = map ascii_lower bs" using Cons by blast
    with False show ?thesis by (auto intro!: exI [of _ "b # bs'"])
  qed
qed simp

lemma encode_labels_mixed_agrees:
  assumes "msk \<noteq> []"
  shows "(\<exists>ls'. encode_labels_mixed msk k ls acc = Ok (acc @ wire_name ls') \<and>
            valid_labels (map as_bytes ls) \<and>
            map (map ascii_lower) ls' = map (\<lambda>l. map ascii_lower (as_bytes l)) ls) \<or>
         (\<exists>e. encode_labels_mixed msk k ls acc = Err e \<and> (\<forall>acc. encode_labels ls acc = Err e))"
proof (induction ls arbitrary: k acc)
  case (Cons l ls)
  obtain bs' k' where mix: "mix_label msk k (as_bytes l) (acc @ [of_nat (length l)]) =
      Ok ((acc @ [of_nat (length l)]) @ bs', k')"
    and low: "map ascii_lower bs' = map ascii_lower (as_bytes l)"
    using mix_label_Ok [OF assms] by blast
  have len: "length bs' = length l" using arg_cong [OF low, of length] by simp
  show ?case
    using Cons.IH [of k' "acc @ of_nat (length l) # bs'"] mix low len
    by (auto simp: valid_label_def intro: exI [of _ "bs' # _"])
qed (auto intro: exI [of _ "[]"])

lemma encode_domain_name_mixed_agrees:
  assumes "msk \<noteq> []"
  shows "(case encode_domain_name s of
            Ok n \<Rightarrow> \<exists>n'. encode_domain_name_mixed s msk = Ok n' \<and> domain_names_equal n' n
          | Err e \<Rightarrow> encode_domain_name_mixed s msk = Err e
          | _ \<Rightarrow> False)"
proof (cases "trim_end_matches CHR ''.'' s = []")
  case True
  then show ?thesis by (simp add: encode_domain_name_def encode_domain_name_mixed_def)
next
  case False
  let ?ls = "split_on CHR ''.'' (trim_end_matches CHR ''.'' s)"
  let ?low = "\<lambda>l. map ascii_lower (as_bytes l)"
  have enc: "encode_domain_name s = encode_labels ?ls []"
    "encode_domain_name_mixed s msk = encode_labels_mixed msk 0 ?ls []"
    using False by (simp_all add: encode_domain_name_def encode_domain_name_mixed_def)
  show ?thesis
    using encode_labels_mixed_agrees [OF assms, of 0 ?ls "[]"]
  proof (elim disjE exE conjE)
    fix ls' assume mixed: "encode_labels_mixed msk 0 ?ls [] = Ok ([] @ wire_name ls')"
      and ok: "valid_labels (map as_bytes ?ls)" and low: "map (map ascii_lower) ls' = map ?low ?ls"
    have "encode_labels ?ls [] = Ok (wire_name (map ?low ?ls))"
      using ok by (simp add: encode_labels_Ok_iff)
    moreover have "valid_labels (map ?low ?ls)"
      using ok valid_labels_map_same_length [of as_bytes ?low] by simp
    moreover from this low have "valid_labels ls'" by (metis valid_labels_lower)
    moreover have "map (map ascii_lower) (map ?low ?ls) = map ?low ?ls" by simp
    ultimately have "domain_names_equal (wire_name ls') (wire_name (map ?low ?ls))"
      using low by (simp only: domain_names_equal_wire)
    with mixed \<open>encode_labels ?ls [] = _\<close> show ?thesis by (simp add: enc)
  qed (simp add: enc)
qed

section \<open>Properties\<close>

text \<open>
  C29. Whatever text the encoder accepts, the decoder reads the encoded name back from any
  position of any message and continues right behind it.
\<close>

theorem decode_encoded_name:
  assumes "encode_domain_name s = Ok n"
  shows "decode_domain_name (pre @ n @ post) (length pre) = Ok (n, length pre + length n)"
  using assms by (intro decode_valid_name encode_domain_name_valid)

lemma encode_www: "encode_domain_name ''WWW.io.'' = Ok [3, 119, 119, 119, 2, 105, 111, 0]"
  by code_simp

theorem decode_encoded_name_witness:
  "decode_domain_name [7, 7, 3, 119, 119, 119, 2, 105, 111, 0, 9] 2 =
     Ok ([3, 119, 119, 119, 2, 105, 111, 0], 10)"
  using decode_encoded_name [OF encode_www, of "[7, 7]" "[9]"] by (simp add: eval_nat_numeral)

text \<open>
  Every name the decoder returns, compressed or not, is a sequence of labels of 1 to 63
  bytes ended by the root label, and the position it returns lies behind the start of the name
  and inside the message.
\<close>

theorem decoded_name_valid:
  assumes "decode_domain_name data off = Ok (n, nxt)"
  shows "valid_name n \<and> off < nxt \<and> nxt \<le> length data"
  using decode_domain_name_sound [OF assms] by blast

lemma decode_compressed_example:
  "decode_domain_name [3, 119, 119, 119, 0, 1, 97, 0xc0, 0] 5 = Ok ([1, 97, 3, 119, 119, 119, 0], 9)"
  by (simp add: decode_domain_name_decided ptr_target_def)

theorem decoded_name_valid_witness:
  "valid_name [1, 97, 3, 119, 119, 119, 0] \<and> (5 :: nat) < 9 \<and> 9 \<le> length [3, 119, 119, 119, 0, 1, 97, 0xc0, 0 :: u8]"
  using decoded_name_valid [OF decode_compressed_example] .

text \<open>
  C15. The decoder either finishes within one iteration more than the message has bytes, with the
  result of the bounded loop, or it never returns: that many iterations decide termination.
\<close>

theorem decode_name_decided:
  "decode_domain_name data off =
     (case decode_fuel (length data + 1) data off [] off False 0 of None \<Rightarrow> Diverge | Some r \<Rightarrow> r)"
  by (rule decode_domain_name_decided)

text \<open>
  A name that starts with a pointer to an earlier pointer which points to itself makes the
  decoder loop forever: the pointer is only compared with the start of the name.
\<close>

theorem decode_pointer_cycle:
  assumes "off + 1 < length data" "data ! off AND 0xc0 = 0xc0"
    and "ptr_target (data ! off) (data ! (off + 1)) = p" "p < off"
    and "data ! p AND 0xc0 = 0xc0" "ptr_target (data ! p) (data ! (p + 1)) = p"
  shows "decode_domain_name data off = Diverge"
  using assms by (rule decode_self_pointer_diverges)

theorem decode_pointer_cycle_witness:
  "decode_domain_name [0, 0, 0, 1, 0xc0, 4, 0, 0, 0, 0, 0, 0, 0xc0, 4, 0, 1, 0, 1] 12 = Diverge"
  by (rule decode_pointer_cycle [of _ _ 4]) (simp_all add: ptr_target_def)

text \<open>
  Two well-formed encoded names compare equal exactly when their label sequences agree up to
  ASCII case.
\<close>

theorem names_equal_iff_labels_equal:
  assumes "valid_labels as" "valid_labels bs"
  shows "domain_names_equal (wire_name as) (wire_name bs) \<longleftrightarrow>
           map (map ascii_lower) as = map (map ascii_lower) bs"
  using assms by (rule domain_names_equal_wire)

theorem names_equal_iff_labels_equal_witness:
  "domain_names_equal (wire_name [[65, 98], [67]]) (wire_name [[97, 66], [99]])"
  using names_equal_iff_labels_equal [of "[[65, 98], [67]]" "[[97, 66], [99]]"]
  by (simp add: valid_label_def ascii_lower_def)

text \<open>
  On a well-formed name, \<open>name_prefix\<close> returns the name of the last
  \<open>n\<close> labels and never panics.
\<close>

theorem name_prefix_keeps_last_labels:
  assumes "valid_labels ls"
  shows "name_prefix (wire_name ls) n = Ok (wire_name (drop (length ls - n) ls))"
  using assms by (rule name_prefix_wire)

theorem name_prefix_keeps_last_labels_witness:
  "name_prefix (wire_name [[119], [120], [121]]) 2 = Ok (wire_name [[120], [121]])"
  using name_prefix_keeps_last_labels [of "[[119], [120], [121]]" 2]
  by (simp add: valid_label_def)

text \<open>
  Printing an encoded name gives the lower-cased text without its trailing dots, for every
  UTF-8 text the encoder accepts.
\<close>

theorem text_of_encoded_name:
  assumes "utf8_valid (as_bytes s)" "encode_domain_name s = Ok n"
  shows "labels_to_string n =
           (let t = trim_end_matches CHR ''.'' s in if t = [] then ''.'' else str_lower t)"
  using assms by (rule labels_to_string_encode)

lemma utf8_www: "utf8_valid (as_bytes ''WWW.io.'')"
  by code_simp

theorem text_of_encoded_name_witness:
  "labels_to_string [3, 119, 119, 119, 2, 105, 111, 0] = ''www.io''"
proof -
  have "trim_end_matches CHR ''.'' ''WWW.io.'' = ''WWW.io''" "str_lower ''WWW.io'' = ''www.io''"
    by code_simp+
  then show ?thesis using text_of_encoded_name [OF utf8_www encode_www] by simp
qed

text \<open>
  Encoding the printed form of a well-formed lower-case name whose labels are UTF-8 and
  contain no dot gives the name back.
\<close>

theorem encoded_text_of_name:
  assumes "valid_labels ls" "\<forall>l \<in> set ls. utf8_valid l \<and> 46 \<notin> set l \<and> map ascii_lower l = l"
  shows "encode_domain_name (labels_to_string (wire_name ls)) = Ok (wire_name ls)"
  using assms by (rule encode_labels_to_string)

theorem encoded_text_of_name_witness:
  "encode_domain_name (labels_to_string (wire_name [[119, 120], [121]])) = Ok (wire_name [[119, 120], [121]])"
proof (rule encoded_text_of_name)
  show "valid_labels [[119, 120], [121]]" by (simp add: valid_label_def)
  show "\<forall>l \<in> set [[119, 120], [121]]. utf8_valid l \<and> 46 \<notin> set l \<and> map ascii_lower l = l"
    by code_simp
qed

text \<open>
  With a non-empty mask the 0x20 encoder accepts the texts the plain encoder accepts, fails
  with the same error on the others, and its result compares equal to the plain encoding.
\<close>

theorem mixed_case_name_agrees:
  assumes "msk \<noteq> []"
  shows "(case encode_domain_name s of
            Ok n \<Rightarrow> \<exists>n'. encode_domain_name_mixed s msk = Ok n' \<and> domain_names_equal n' n
          | Err e \<Rightarrow> encode_domain_name_mixed s msk = Err e
          | _ \<Rightarrow> False)"
  using assms by (rule encode_domain_name_mixed_agrees)

theorem mixed_case_name_agrees_witness:
  "\<exists>n'. encode_domain_name_mixed ''WWW.io.'' [True, False] = Ok n' \<and>
     domain_names_equal n' [3, 119, 119, 119, 2, 105, 111, 0]"
  using mixed_case_name_agrees [of "[True, False]" "''WWW.io.''"] by (simp add: encode_www)

end
