(* ===== verification/Wire_Header.thy ===== *)
theory Wire_Header
  imports Wire_Name
begin

text \<open>
  The fixed-size codecs of \<open>src/src/dns/types.rs\<close>: the twelve-byte header and the question section
  entry, and the interface \<open>wire_codec\<close> that the message codec of \<open>Wire_Message\<close> relies on.

  A serialiser of the sources takes \<open>&mut [u8]\<close> and returns the number of bytes written; here it
  returns the changed buffer with that number.  A caller drops the buffer when the serialiser
  returns an error, so an error carries no buffer.
\<close>

section \<open>Header\<close>

definition header_from_bytes :: "bytes \<Rightarrow> header dns_result" where
  "header_from_bytes data =
     (if length data < 12 then Err (BufferTooSmall 12 (length data))
      else
        obind (get_u16 data 0) (\<lambda>id.
        obind (get_u16 data 2) (\<lambda>flags.
        obind (get_u16 data 4) (\<lambda>qdcount.
        obind (get_u16 data 6) (\<lambda>ancount.
        obind (get_u16 data 8) (\<lambda>nscount.
        obind (get_u16 data 10) (\<lambda>arcount.
        Ok \<lparr>h_id = id,
            h_qr = (drop_bit 15 flags AND 1 = 1),
            h_opcode = ucast (drop_bit 11 flags AND 0x0f),
            h_aa = (drop_bit 10 flags AND 1 = 1),
            h_tc = (drop_bit 9 flags AND 1 = 1),
            h_rd = (drop_bit 8 flags AND 1 = 1),
            h_ra = (drop_bit 7 flags AND 1 = 1),
            h_z = ucast (drop_bit 6 flags AND 0x03),
            h_ad = (drop_bit 5 flags AND 1 = 1),
            h_cd = (drop_bit 4 flags AND 1 = 1),
            h_rcode = ucast (flags AND 0x0f),
            h_qdcount = qdcount,
            h_ancount = ancount,
            h_nscount = nscount,
            h_arcount = arcount\<rparr>)))))))"

lemma header_from_bytes_eq:
  "header_from_bytes data =
     (if length data < 12 then Err (BufferTooSmall 12 (length data))
      else let flags = be16 (data ! 2) (data ! 3) in
        Ok \<lparr>h_id = be16 (data ! 0) (data ! 1),
            h_qr = (drop_bit 15 flags AND 1 = 1),
            h_opcode = ucast (drop_bit 11 flags AND 0x0f),
            h_aa = (drop_bit 10 flags AND 1 = 1),
            h_tc = (drop_bit 9 flags AND 1 = 1),
            h_rd = (drop_bit 8 flags AND 1 = 1),
            h_ra = (drop_bit 7 flags AND 1 = 1),
            h_z = ucast (drop_bit 6 flags AND 0x03),
            h_ad = (drop_bit 5 flags AND 1 = 1),
            h_cd = (drop_bit 4 flags AND 1 = 1),
            h_rcode = ucast (flags AND 0x0f),
            h_qdcount = be16 (data ! 4) (data ! 5),
            h_ancount = be16 (data ! 6) (data ! 7),
            h_nscount = be16 (data ! 8) (data ! 9),
            h_arcount = be16 (data ! 10) (data ! 11)\<rparr>)"
  by (simp add: header_from_bytes_def get_u16_eq Let_def)

definition header_flags :: "header \<Rightarrow> u16" where
  "header_flags h =
     push_bit 15 (of_bool (h_qr h)) OR push_bit 11 (ucast (h_opcode h)) OR
     push_bit 10 (of_bool (h_aa h)) OR push_bit 9 (of_bool (h_tc h)) OR
     push_bit 8 (of_bool (h_rd h)) OR push_bit 7 (of_bool (h_ra h)) OR
     push_bit 6 (ucast (h_z h)) OR push_bit 5 (of_bool (h_ad h)) OR
     push_bit 4 (of_bool (h_cd h)) OR ucast (h_rcode h)"

definition header_to_bytes :: "header \<Rightarrow> bytes \<Rightarrow> (bytes \<times> nat) dns_result" where
  "header_to_bytes h buf =
     (if length buf < 12 then Err (BufferTooSmall 12 (length buf))
      else obind (copy_slice buf 0 2 (bytes_of_u16 (h_id h))) (\<lambda>buf.
           obind (copy_slice buf 2 4 (bytes_of_u16 (header_flags h))) (\<lambda>buf.
           obind (copy_slice buf 4 6 (bytes_of_u16 (h_qdcount h))) (\<lambda>buf.
           obind (copy_slice buf 6 8 (bytes_of_u16 (h_ancount h))) (\<lambda>buf.
           obind (copy_slice buf 8 10 (bytes_of_u16 (h_nscount h))) (\<lambda>buf.
           obind (copy_slice buf 10 12 (bytes_of_u16 (h_arcount h))) (\<lambda>buf.
           Ok (buf, 12))))))))"

section \<open>Question\<close>

definition question_new :: "string \<Rightarrow> u16 \<Rightarrow> u16 \<Rightarrow> question dns_result" where
  "question_new name qtype qclass =
     obind (encode_domain_name name) (\<lambda>encoded.
       Ok \<lparr>q_name = encoded, q_type = qtype, q_class = qclass\<rparr>)"

definition question_from_bytes :: "bytes \<Rightarrow> nat \<Rightarrow> (question \<times> nat) dns_result" where
  "question_from_bytes data offset =
     obind (decode_domain_name data offset) (\<lambda>(qname, off).
       if length data < off + 4 then Err UnexpectedEof
       else
         obind (get_u16 data off) (\<lambda>qtype.
         obind (get_u16 data (off + 2)) (\<lambda>qclass.
         Ok (\<lparr>q_name = qname, q_type = qtype, q_class = qclass\<rparr>, off + 4))))"

lemma question_from_bytes_eq:
  "question_from_bytes data offset =
     obind (decode_domain_name data offset) (\<lambda>(qname, off).
       if length data < off + 4 then Err UnexpectedEof
       else Ok (\<lparr>q_name = qname,
                 q_type = be16 (data ! off) (data ! (off + 1)),
                 q_class = be16 (data ! (off + 2)) (data ! (off + 3))\<rparr>, off + 4))"
  unfolding question_from_bytes_def
  by (rule arg_cong [where f = "obind _"]) (auto simp: fun_eq_iff get_u16_eq Suc_diff_le eval_nat_numeral)

definition question_to_bytes :: "question \<Rightarrow> bytes \<Rightarrow> (bytes \<times> nat) dns_result" where
  "question_to_bytes q buf =
     (let total = length (q_name q) + 4 in
      if length buf < total then Err (BufferTooSmall total (length buf))
      else let off = length (q_name q) in
           obind (copy_slice buf 0 off (q_name q)) (\<lambda>buf.
           obind (copy_slice buf off (off + 2) (bytes_of_u16 (q_type q))) (\<lambda>buf.
           obind (copy_slice buf (off + 2) (off + 4) (bytes_of_u16 (q_class q))) (\<lambda>buf.
           Ok (buf, total)))))"

section \<open>Header round trips\<close>

text \<open>The bytes a header stands for, and the headers the format can carry.\<close>

definition header_wire :: "header \<Rightarrow> bytes" where
  "header_wire h =
     bytes_of_u16 (h_id h) @ bytes_of_u16 (header_flags h) @ bytes_of_u16 (h_qdcount h) @
     bytes_of_u16 (h_ancount h) @ bytes_of_u16 (h_nscount h) @ bytes_of_u16 (h_arcount h)"

definition wf_header :: "header \<Rightarrow> bool" where
  "wf_header h \<longleftrightarrow> h_opcode h < 16 \<and> h_rcode h < 16 \<and> h_z h < 4 \<and> bit (h_z h) 1 = h_ra h"

lemma length_header_wire [simp]: "length (header_wire h) = 12"
  by (simp add: header_wire_def)

lemma copy_slice_front:
  "length ys = j \<Longrightarrow> j \<le> length buf \<Longrightarrow> copy_slice buf 0 j ys = Ok (ys @ drop j buf)"
  using copy_slice_append [of "[]" 0 ys j buf] by auto

lemma header_to_bytes_eq:
  "header_to_bytes h buf =
     (if length buf < 12 then Err (BufferTooSmall 12 (length buf))
      else Ok (header_wire h @ drop 12 buf, 12))"
  by (auto simp: header_to_bytes_def header_wire_def copy_slice_def overwrite_def
      bytes_of_u16_def drop_Suc_Cons numeral_eq_Suc)

lemma and_15_take_bit: "(w :: 'a::len word) AND 0x0f = take_bit 4 w"
  by (simp add: take_bit_eq_mask mask_eq_exp_minus_1)

lemma and_3_take_bit: "(w :: 'a::len word) AND 0x03 = take_bit 2 w"
  by (simp add: take_bit_eq_mask mask_eq_exp_minus_1)

lemma and_1_eq_1_iff: "(w :: 'a::len word) AND 1 = 1 \<longleftrightarrow> bit w 0"
  by (simp add: and_one_eq bit_0 mod_2_eq_odd)

lemma u8_less_bits:
  assumes "unat (w :: u8) < 2 ^ k" "k \<le> n" shows "\<not> bit w n"
proof -
  have "take_bit k (unat w) = unat w" using assms by (simp add: take_bit_nat_eq_self)
  then have "take_bit k w = w" by (metis unsigned_take_bit_eq word_unat_eq_iff)
  with assms(2) show ?thesis by (metis bit_take_bit_iff not_le)
qed

lemma less_8_cases: "n < 8 \<Longrightarrow> n \<in> {0, 1, 2, 3, 4, 5, 6, 7 :: nat}"
  by auto

lemma less_16_cases:
  "n < 16 \<Longrightarrow> n \<in> {0, 1, 2, 3, 4, 5, 6, 7, 8, 9, 10, 11, 12, 13, 14, 15 :: nat}"
proof -
  assume "n < 16"
  then have "n < 8 \<or> (\<exists>m < 8. n = m + 8)" by (metis add_less_cancel_right le_add_diff_inverse2 not_less numeral_Bit0)
  then show ?thesis
    by (elim disjE exE conjE) (drule less_8_cases, auto)+
qed

lemmas flag_bit_simps = bit_or_iff bit_push_bit_iff bit_ucast_iff bit_take_bit_iff bit_drop_bit_eq
  bit_1_iff

lemma wf_header_bits:
  assumes "wf_header h"
  shows "4 \<le> n \<Longrightarrow> \<not> bit (h_opcode h) n" "4 \<le> n \<Longrightarrow> \<not> bit (h_rcode h) n"
    "2 \<le> n \<Longrightarrow> \<not> bit (h_z h) n" "bit (h_z h) (Suc 0) = h_ra h"
  using assms u8_less_bits [of "h_opcode h" 4 n] u8_less_bits [of "h_rcode h" 4 n]
    u8_less_bits [of "h_z h" 2 n]
  by (auto simp: wf_header_def word_less_nat_alt)

lemma header_fields_of_flags:
  assumes "wf_header h"
  shows "ucast (take_bit 4 (drop_bit 11 (header_flags h))) = h_opcode h"
    "ucast (take_bit 2 (drop_bit 6 (header_flags h))) = h_z h"
    "ucast (take_bit 4 (header_flags h)) = h_rcode h"
  using assms
  by (auto intro!: bit_word_eqI dest!: less_8_cases
      simp: header_flags_def flag_bit_simps wf_header_bits)

lemma header_bools_of_flags:
  assumes "wf_header h"
  shows "bit (header_flags h) 15 = h_qr h" "bit (header_flags h) 10 = h_aa h"
    "bit (header_flags h) 9 = h_tc h" "bit (header_flags h) 8 = h_rd h"
    "bit (header_flags h) 7 = h_ra h" "bit (header_flags h) 5 = h_ad h"
    "bit (header_flags h) 4 = h_cd h"
  by (auto simp: header_flags_def flag_bit_simps wf_header_bits [OF assms])

lemma header_from_wire:
  assumes "wf_header h"
  shows "header_from_bytes (header_wire h @ rest) = Ok h"
  using header_fields_of_flags [OF assms] header_bools_of_flags [OF assms]
  by (simp add: header_from_bytes_eq header_wire_def bytes_of_u16_def and_15_take_bit
      and_3_take_bit and_1_eq_1_iff bit_drop_bit_eq)

definition flags_header :: "u16 \<Rightarrow> header \<Rightarrow> bool" where
  "flags_header flags h \<longleftrightarrow>
     h_qr h = bit flags 15 \<and> h_opcode h = ucast (take_bit 4 (drop_bit 11 flags)) \<and>
     h_aa h = bit flags 10 \<and> h_tc h = bit flags 9 \<and> h_rd h = bit flags 8 \<and>
     h_ra h = bit flags 7 \<and> h_z h = ucast (take_bit 2 (drop_bit 6 flags)) \<and>
     h_ad h = bit flags 5 \<and> h_cd h = bit flags 4 \<and> h_rcode h = ucast (take_bit 4 flags)"

lemma flags_of_parsed: 
  assumes "flags_header flags h" shows "header_flags h = flags"
proof (rule bit_word_eqI)
  fix n assume "n < LENGTH(16)"
  then have "n \<in> {0, 1, 2, 3, 4, 5, 6, 7, 8, 9, 10, 11, 12, 13, 14, 15}"
    by (intro less_16_cases) simp
  then show "bit (header_flags h) n = bit flags n" using assms
    unfolding insert_iff empty_iff
    by (elim disjE FalseE; simp add: header_flags_def flags_header_def flag_bit_simps; blast)
qed

lemma ucast_take_bit_less:
  "k \<le> 8 \<Longrightarrow> unat (ucast (take_bit k (w :: u16)) :: u8) < 2 ^ k"
  by (simp add: unsigned_ucast_eq unsigned_take_bit_eq take_bit_take_bit min_def
      take_bit_nat_less_exp)

lemma wf_header_parsed: 
  assumes "flags_header flags h" shows "wf_header h"
  using assms ucast_take_bit_less [of 4 "drop_bit 11 flags"] ucast_take_bit_less [of 2 "drop_bit 6 flags"]
    ucast_take_bit_less [of 4 "flags"]
  by (simp add: wf_header_def flags_header_def word_less_nat_alt flag_bit_simps)

lemma header_from_bytes_flags:
  assumes "header_from_bytes data = Ok h"
  shows "12 \<le> length data" "flags_header (be16 (data ! 2) (data ! 3)) h"
    "h_id h = be16 (data ! 0) (data ! 1)" "h_qdcount h = be16 (data ! 4) (data ! 5)"
    "h_ancount h = be16 (data ! 6) (data ! 7)" "h_nscount h = be16 (data ! 8) (data ! 9)"
    "h_arcount h = be16 (data ! 10) (data ! 11)"
  using assms
  by (auto simp: header_from_bytes_eq flags_header_def Let_def and_15_take_bit
      and_3_take_bit and_1_eq_1_iff bit_drop_bit_eq split: if_splits)

lemma take_12: "12 \<le> length data \<Longrightarrow> take 12 data =
   [data ! 0, data ! 1, data ! 2, data ! 3, data ! 4, data ! 5, data ! 6, data ! 7, data ! 8,
    data ! 9, data ! 10, data ! 11]"
  by (rule nth_equalityI) (auto simp: less_Suc_eq numeral_eq_Suc)

lemma header_wire_parsed:
  assumes "header_from_bytes data = Ok h"
  shows "header_wire h = take 12 data"
  using header_from_bytes_flags [OF assms] flags_of_parsed
  by (simp add: header_wire_def take_12)

lemma header_from_bytes_wf: "header_from_bytes data = Ok h \<Longrightarrow> wf_header h"
  using header_from_bytes_flags(2) wf_header_parsed by blast

lemma ra_bit_sticky:
  assumes "header_from_bytes data = Ok h"
  shows "header_flags (h\<lparr>h_ra := False\<rparr>) = header_flags h"
proof -
  note z = wf_header_bits(4) [OF header_from_bytes_wf [OF assms]]
  have "push_bit 7 (of_bool (h_ra h)) OR push_bit 6 (ucast (h_z h)) =
      (push_bit 6 (ucast (h_z h)) :: u16)"
    using z by (intro bit_word_eqI) (auto simp: flag_bit_simps)
  then show ?thesis
    by (simp add: header_flags_def or.assoc flip: or.assoc [of "push_bit 7 _"])
qed

section \<open>Record codecs\<close>

text \<open>The counted loops of \<open>Message::from_bytes\<close> and the write loops of \<open>Message::to_bytes\<close>.\<close>

fun parse_section ::
  "(bytes \<Rightarrow> nat \<Rightarrow> ('a \<times> nat) dns_result) \<Rightarrow> bytes \<Rightarrow> nat \<Rightarrow> nat \<Rightarrow> 'a list \<Rightarrow>
     ('a list \<times> nat) dns_result" where
  "parse_section parse data 0 offset items = Ok (items, offset)"
| "parse_section parse data (Suc n) offset items =
     obind (parse data offset) (\<lambda>(item, off). parse_section parse data n off (items @ [item]))"

fun put_section ::
  "('a \<Rightarrow> bytes \<Rightarrow> (bytes \<times> nat) dns_result) \<Rightarrow> 'a list \<Rightarrow> bytes \<Rightarrow> nat \<Rightarrow>
     (bytes \<times> nat) dns_result" where
  "put_section put [] buf offset = Ok (buf, offset)"
| "put_section put (x # xs) buf offset =
     obind (write_at (put x) buf offset) (\<lambda>(buf, offset). put_section put xs buf offset)"

definition enc_list :: "('a \<Rightarrow> bytes) \<Rightarrow> 'a list \<Rightarrow> bytes" where
  "enc_list enc xs = concat (map enc xs)"

lemma enc_list_Nil [simp]: "enc_list enc [] = []"
  by (simp add: enc_list_def)

lemma enc_list_Cons [simp]: "enc_list enc (x # xs) = enc x @ enc_list enc xs"
  by (simp add: enc_list_def)

text \<open>
  What the message codec relies on.  A \<open>wire_writer\<close> writes exactly the encoding \<open>enc x\<close> at the
  front of the buffer or reports the size it needs.  A \<open>wire_codec\<close> also reads that encoding back
  wherever it stands in a message: uncompressed records are position independent.
\<close>

locale wire_writer =
  fixes put :: "'a \<Rightarrow> bytes \<Rightarrow> (bytes \<times> nat) dns_result"
    and enc :: "'a \<Rightarrow> bytes"
    and wf :: "'a \<Rightarrow> bool"
  assumes put_spec: "wf x \<Longrightarrow> put x buf =
      (if length buf < length (enc x) then Err (BufferTooSmall (length (enc x)) (length buf))
       else Ok (enc x @ drop (length (enc x)) buf, length (enc x)))"
begin

lemma write_at_fits:
  assumes "wf x" "offset + length (enc x) \<le> length buf"
  shows "write_at (put x) buf offset =
    Ok (take offset buf @ enc x @ drop (offset + length (enc x)) buf, offset + length (enc x))"
  using assms by (simp add: write_at_def put_spec add.commute)

lemma put_section_fits:
  assumes "\<forall>x \<in> set xs. wf x" "offset + length (enc_list enc xs) \<le> length buf"
  shows "put_section put xs buf offset =
     Ok (take offset buf @ enc_list enc xs @ drop (offset + length (enc_list enc xs)) buf,
         offset + length (enc_list enc xs))"
  using assms
proof (induction xs arbitrary: buf offset)
  case (Cons x xs)
  then have "write_at (put x) buf offset =
    Ok (take offset buf @ enc x @ drop (offset + length (enc x)) buf, offset + length (enc x))"
    by (intro write_at_fits) simp_all
  with Cons show ?case by (simp add: ac_simps)
qed simp

lemma put_section_overflow:
  assumes "\<forall>x \<in> set xs. wf x" "offset \<le> length buf"
    and "length buf < offset + length (enc_list enc xs)"
  shows "\<exists>need have. put_section put xs buf offset = Err (BufferTooSmall need have) \<and> have < need"
  using assms
proof (induction xs arbitrary: buf offset)
  case (Cons x xs)
  show ?case
  proof (cases "offset + length (enc x) \<le> length buf")
    case True
    with Cons show ?thesis by (simp add: write_at_fits ac_simps)
  next
    case False
    with Cons.prems show ?thesis by (auto simp: write_at_def put_spec)
  qed
qed simp

end

locale wire_codec = wire_writer put enc wf
  for put :: "'a \<Rightarrow> bytes \<Rightarrow> (bytes \<times> nat) dns_result" and enc wf +
  fixes parse :: "bytes \<Rightarrow> nat \<Rightarrow> ('a \<times> nat) dns_result"
  assumes parse_spec: "wf x \<Longrightarrow>
      parse (pre @ enc x @ post) (length pre) = Ok (x, length pre + length (enc x))"
begin

lemma parse_put:
  assumes "wf x" "put x buf = Ok (buf', n)"
  shows "parse (pre @ buf') (length pre) = Ok (x, length pre + n)"
  using assms parse_spec [OF assms(1)] by (auto simp: put_spec split: if_splits)

lemma parse_section_enc:
  assumes "\<forall>x \<in> set xs. wf x"
  shows "parse_section parse (pre @ enc_list enc xs @ post) (length xs) (length pre) items =
         Ok (items @ xs, length pre + length (enc_list enc xs))"
  using assms
proof (induction xs arbitrary: pre items)
  case (Cons x xs)
  have "parse_section parse ((pre @ enc x) @ enc_list enc xs @ post) (length xs)
      (length (pre @ enc x)) (items @ [x]) =
      Ok ((items @ [x]) @ xs, length (pre @ enc x) + length (enc_list enc xs))"
    using Cons.prems by (intro Cons.IH) simp
  moreover have "parse (pre @ enc x @ enc_list enc xs @ post) (length pre) =
      Ok (x, length pre + length (enc x))"
    using Cons.prems by (intro parse_spec) simp
  ultimately show ?case by simp
qed simp

end

text \<open>A counted section yields that many items, each as sound as its parser makes it.\<close>

lemma parse_section_length:
  "parse_section parse data n off items = Ok (xs, nxt) \<Longrightarrow> length xs = length items + n"
  by (induction n arbitrary: off items) (auto simp: outcome_simps)

lemma parse_section_all:
  assumes step: "\<And>off x nxt. parse data off = Ok (x, nxt) \<Longrightarrow> P x"
  shows "parse_section parse data n off items = Ok (xs, nxt) \<Longrightarrow> \<forall>x \<in> set items. P x \<Longrightarrow>
     \<forall>x \<in> set xs. P x"
proof (induction n arbitrary: off items)
  case (Suc n)
  then obtain x e where x: "parse data off = Ok (x, e)"
    and rest: "parse_section parse data n e (items @ [x]) = Ok (xs, nxt)"
    by (auto simp: outcome_simps)
  show ?case using Suc.prems(2) step [OF x] by (intro Suc.IH [OF rest]) simp
qed simp

definition question_wire :: "question \<Rightarrow> bytes" where
  "question_wire q = q_name q @ bytes_of_u16 (q_type q) @ bytes_of_u16 (q_class q)"

definition wf_question :: "question \<Rightarrow> bool" where
  "wf_question q \<longleftrightarrow> valid_name (q_name q)"

lemma question_to_bytes_eq:
  "question_to_bytes q buf =
     (if length buf < length (question_wire q)
      then Err (BufferTooSmall (length (question_wire q)) (length buf))
      else Ok (question_wire q @ drop (length (question_wire q)) buf, length (question_wire q)))"
  by (auto simp: question_to_bytes_def question_wire_def Let_def copy_slice_def overwrite_def
      eval_nat_numeral)

lemma question_from_wire:
  assumes "wf_question q"
  shows "question_from_bytes (pre @ question_wire q @ post) (length pre) =
         Ok (q, length pre + length (question_wire q))"
proof -
  have "decode_domain_name (pre @ q_name q @
      bytes_of_u16 (q_type q) @ bytes_of_u16 (q_class q) @ post) (length pre) =
      Ok (q_name q, length pre + length (q_name q))"
    using assms unfolding wf_question_def by (rule decode_valid_name)
  then show ?thesis
    by (simp add: question_from_bytes_eq question_wire_def bytes_of_u16_def nth_append)
qed

interpretation qwriter: wire_writer question_to_bytes question_wire "\<lambda>q. True"
  by unfold_locales (simp add: question_to_bytes_eq)

interpretation qcodec: wire_codec question_to_bytes question_wire wf_question question_from_bytes
  by unfold_locales (auto simp: question_to_bytes_eq question_from_wire)

lemma question_from_bytes_sound:
  "question_from_bytes data off = Ok (q, nxt) \<Longrightarrow>
     wf_question q \<and> off < nxt \<and> nxt \<le> length data"
  by (auto simp: question_from_bytes_eq wf_question_def outcome_simps
      split: if_splits dest: decode_domain_name_sound)

section \<open>Properties\<close>

text \<open>
  Serialising a parsed header writes back exactly the twelve bytes it was parsed from.
\<close>

theorem header_bytes_preserved:
  assumes "header_from_bytes data = Ok h" "12 \<le> length buf"
  shows "header_to_bytes h buf = Ok (take 12 data @ drop 12 buf, 12)"
  using assms by (simp add: header_to_bytes_eq header_wire_parsed)

theorem header_bytes_preserved_witness:
  "\<exists>h. header_from_bytes [1, 2, 0x81, 0xb0, 0, 1, 0, 2, 0, 3, 0, 4, 9] = Ok h \<and>
     header_to_bytes h (replicate 13 7) = Ok ([1, 2, 0x81, 0xb0, 0, 1, 0, 2, 0, 3, 0, 4, 7], 12)"
proof -
  obtain h where h: "header_from_bytes [1, 2, 0x81, 0xb0, 0, 1, 0, 2, 0, 3, 0, 4, 9] = Ok h"
    by (simp add: header_from_bytes_eq Let_def)
  show ?thesis using h header_bytes_preserved [OF h, of "replicate 13 7"]
    by (simp add: eval_nat_numeral)
qed

text \<open>
  Parsing a serialised header gives the header back when its fields fit the format: four-bit
  opcode and response code, and a two-bit reserved field whose high bit agrees with the RA flag.
\<close>

theorem header_fields_preserved:
  assumes "wf_header h" "header_to_bytes h buf = Ok (buf', n)"
  shows "header_from_bytes buf' = Ok h"
  using assms header_from_wire by (auto simp: header_to_bytes_eq split: if_splits)

theorem header_fields_preserved_witness:
  "header_from_bytes (header_wire (new_query 7 True)) = Ok (new_query 7 True)"
proof (rule header_fields_preserved)
  show "wf_header (new_query 7 True)" by (simp add: wf_header_def new_query_def)
  show "header_to_bytes (new_query 7 True) (replicate 12 0) = Ok (header_wire (new_query 7 True), 12)"
    by (simp add: header_to_bytes_eq)
qed

text \<open>
  The reserved field of a parsed header keeps a copy of the RA bit, so clearing
  \<open>ra\<close> in it does not change the flags that are serialised.
\<close>

theorem ra_flag_not_clearable:
  assumes "header_from_bytes data = Ok h"
  shows "header_flags (h\<lparr>h_ra := False\<rparr>) = header_flags h"
  using assms by (rule ra_bit_sticky)

theorem ra_flag_not_clearable_witness:
  "\<exists>h. header_from_bytes [1, 2, 0x81, 0x80, 0, 0, 0, 0, 0, 0, 0, 0] = Ok h \<and> h_ra h \<and>
     header_flags (h\<lparr>h_ra := False\<rparr>) = header_flags h"
proof -
  obtain h where h: "header_from_bytes [1, 2, 0x81, 0x80, 0, 0, 0, 0, 0, 0, 0, 0] = Ok h" "h_ra h"
    by (simp add: header_from_bytes_eq Let_def be16_def)
  show ?thesis using h ra_flag_not_clearable [OF h(1)] by blast
qed

end
