(* ===== verification/Wire_Record.thy ===== *)
theory Wire_Record
  imports Wire_Header
begin

text \<open>
  Resource records of \<open>src/src/dns/types.rs\<close>: the RDATA parsers, the reconstruction of uncompressed
  RDATA, and \<open>ResourceRecord::from_bytes\<close> and \<open>to_bytes\<close>.

  The RDATA parsers return \<open>Option<RData>\<close> and call the name decoder, so their outcome is
  \<open>Ok (Some p)\<close>, \<open>Ok None\<close>, a panic (a slice out of range) or divergence (the decoder's).
\<close>

section \<open>RDATA parsers\<close>

definition parse_a_rdata :: "bytes \<Rightarrow> rdata option dns_result" where
  "parse_a_rdata rdata =
     (if length rdata = 4 then
        obind (idx rdata 0) (\<lambda>a. obind (idx rdata 1) (\<lambda>b. obind (idx rdata 2) (\<lambda>c. obind (idx rdata 3) (\<lambda>d.
          Ok (Some (RD_A (Ipv4 a b c d)))))))
      else Ok None)"

definition parse_aaaa_rdata :: "bytes \<Rightarrow> rdata option dns_result" where
  "parse_aaaa_rdata rdata =
     (if length rdata = 16 then
        obind (copy_slice (replicate 16 0) 0 16 rdata) (\<lambda>octets. Ok (Some (RD_AAAA (Ipv6 octets))))
      else Ok None)"

definition decode_domain_name_at :: "bytes \<Rightarrow> nat \<Rightarrow> (bytes \<times> nat) dns_result" where
  "decode_domain_name_at msg offset = decode_domain_name msg offset"

text \<open>\<open>match decode_domain_name_at(..) { Ok((name, end)) => .., Err(_) => None }\<close>\<close>

fun on_decoded ::
  "(bytes \<times> nat) dns_result \<Rightarrow> (bytes \<Rightarrow> nat \<Rightarrow> rdata option dns_result) \<Rightarrow> rdata option dns_result" where
  "on_decoded (Ok (name, off)) f = f name off"
| "on_decoded (Err e) f = Ok None"
| "on_decoded Panic f = Panic"
| "on_decoded Diverge f = Diverge"

definition parse_name_rdata ::
  "bytes \<Rightarrow> bytes \<Rightarrow> nat \<Rightarrow> (bytes \<Rightarrow> rdata) \<Rightarrow> rdata option dns_result" where
  "parse_name_rdata rdata msg rdata_offset ctor =
     (if rdata = [] then Ok None
      else on_decoded (decode_domain_name_at msg rdata_offset) (\<lambda>name _. Ok (Some (ctor name))))"

definition parse_mx_rdata :: "bytes \<Rightarrow> bytes \<Rightarrow> nat \<Rightarrow> rdata option dns_result" where
  "parse_mx_rdata rdata msg rdata_offset =
     (if length rdata < 3 then Ok None
      else
        obind (get_u16 rdata 0) (\<lambda>preference.
        on_decoded (decode_domain_name_at msg (rdata_offset + 2)) (\<lambda>exchange _.
          Ok (Some (RD_MX preference exchange)))))"

definition parse_soa_rdata :: "bytes \<Rightarrow> bytes \<Rightarrow> nat \<Rightarrow> rdata option dns_result" where
  "parse_soa_rdata rdata msg rdata_offset =
     on_decoded (decode_domain_name_at msg rdata_offset) (\<lambda>mname off.
     on_decoded (decode_domain_name_at msg off) (\<lambda>rname off.
       obind (usize_sub off rdata_offset) (\<lambda>data_start.
       if length rdata < data_start + 20 then Ok None
       else
         obind (get_u32 rdata data_start) (\<lambda>serial.
         obind (get_u32 rdata (data_start + 4)) (\<lambda>refresh.
         obind (get_u32 rdata (data_start + 8)) (\<lambda>retry.
         obind (get_u32 rdata (data_start + 12)) (\<lambda>expire.
         obind (get_u32 rdata (data_start + 16)) (\<lambda>minimum.
         Ok (Some (RD_SOA mname rname serial refresh retry expire minimum))))))))))"

function txt_parts :: "bytes \<Rightarrow> string list option dns_result" where
  "txt_parts [] = Ok (Some [])"
| "txt_parts (len # rest) =
     (if length rest < unat len then Ok None
      else
        obind (slice rest 0 (unat len)) (\<lambda>part.
        obind (txt_parts (drop (unat len) rest)) (\<lambda>parts.
        Ok (map_option (\<lambda>parts. (if utf8_valid part then [text_of_bytes part] else []) @ parts) parts))))"
  by pat_completeness auto
termination
  by (relation "measure length") auto

definition parse_txt_rdata :: "bytes \<Rightarrow> rdata option dns_result" where
  "parse_txt_rdata rdata = obind (txt_parts rdata) (\<lambda>parts. Ok (map_option RD_TXT parts))"

definition parse_srv_rdata :: "bytes \<Rightarrow> bytes \<Rightarrow> nat \<Rightarrow> rdata option dns_result" where
  "parse_srv_rdata rdata msg rdata_offset =
     (if length rdata < 7 then Ok None
      else
        obind (get_u16 rdata 0) (\<lambda>priority.
        obind (get_u16 rdata 2) (\<lambda>weight.
        obind (get_u16 rdata 4) (\<lambda>port.
        on_decoded (decode_domain_name_at msg (rdata_offset + 6)) (\<lambda>target _.
          Ok (Some (RD_SRV priority weight port target)))))))"

definition parse_rrsig_rdata :: "bytes \<Rightarrow> bytes \<Rightarrow> nat \<Rightarrow> rdata option dns_result" where
  "parse_rrsig_rdata rdata msg rdata_offset =
     (if length rdata < 18 then Ok None
      else
        obind (get_u16 rdata 0) (\<lambda>type_covered.
        obind (idx rdata 2) (\<lambda>algorithm.
        obind (idx rdata 3) (\<lambda>labels.
        obind (get_u32 rdata 4) (\<lambda>original_ttl.
        obind (get_u32 rdata 8) (\<lambda>signature_expiration.
        obind (get_u32 rdata 12) (\<lambda>signature_inception.
        obind (get_u16 rdata 16) (\<lambda>key_tag.
        on_decoded (decode_domain_name_at msg (rdata_offset + 18)) (\<lambda>signer_name end_offset.
          obind (usize_sub end_offset rdata_offset) (\<lambda>sig_start.
          if length rdata < sig_start then Ok None
          else
            obind (slice_from rdata sig_start) (\<lambda>signature.
            Ok (Some (RD_RRSIG type_covered algorithm labels original_ttl signature_expiration
              signature_inception key_tag signer_name signature)))))))))))))"

definition parse_dnskey_rdata :: "bytes \<Rightarrow> rdata option dns_result" where
  "parse_dnskey_rdata rdata =
     (if length rdata < 4 then Ok None
      else
        obind (get_u16 rdata 0) (\<lambda>flags.
        obind (idx rdata 2) (\<lambda>protocol.
        obind (idx rdata 3) (\<lambda>algorithm.
        obind (slice_from rdata 4) (\<lambda>public_key.
        Ok (Some (RD_DNSKEY flags protocol algorithm public_key)))))))"

definition parse_nsec_rdata :: "bytes \<Rightarrow> bytes \<Rightarrow> nat \<Rightarrow> rdata option dns_result" where
  "parse_nsec_rdata rdata msg rdata_offset =
     on_decoded (decode_domain_name_at msg rdata_offset) (\<lambda>next_domain end_offset.
       obind (usize_sub end_offset rdata_offset) (\<lambda>bitmaps_start.
       obind (slice_from rdata bitmaps_start) (\<lambda>type_bit_maps.
       Ok (Some (RD_NSEC next_domain type_bit_maps)))))"

definition parse_ds_rdata :: "bytes \<Rightarrow> rdata option dns_result" where
  "parse_ds_rdata rdata =
     (if length rdata < 4 then Ok None
      else
        obind (get_u16 rdata 0) (\<lambda>key_tag.
        obind (idx rdata 2) (\<lambda>algorithm.
        obind (idx rdata 3) (\<lambda>digest_type.
        obind (slice_from rdata 4) (\<lambda>digest.
        Ok (Some (RD_DS key_tag algorithm digest_type digest)))))))"

definition parse_rdata :: "u16 \<Rightarrow> bytes \<Rightarrow> bytes \<Rightarrow> nat \<Rightarrow> rdata option dns_result" where
  "parse_rdata rtype rdata msg rdata_offset =
     (if rtype = 1 then parse_a_rdata rdata
      else if rtype = 28 then parse_aaaa_rdata rdata
      else if rtype = 5 then parse_name_rdata rdata msg rdata_offset RD_CNAME
      else if rtype = 2 then parse_name_rdata rdata msg rdata_offset RD_NS
      else if rtype = 12 then parse_name_rdata rdata msg rdata_offset RD_PTR
      else if rtype = 15 then parse_mx_rdata rdata msg rdata_offset
      else if rtype = 6 then parse_soa_rdata rdata msg rdata_offset
      else if rtype = 16 then parse_txt_rdata rdata
      else if rtype = 33 then parse_srv_rdata rdata msg rdata_offset
      else if rtype = 46 then parse_rrsig_rdata rdata msg rdata_offset
      else if rtype = 48 then parse_dnskey_rdata rdata
      else if rtype = 43 then parse_ds_rdata rdata
      else if rtype = 47 then parse_nsec_rdata rdata msg rdata_offset
      else if length rdata \<le> 65535 then Ok (Some (RD_Unknown rdata))
      else Ok None)"

section \<open>Uncompressed RDATA\<close>

fun decompressed_rdata :: "u16 \<Rightarrow> rdata \<Rightarrow> bytes" where
  "decompressed_rdata t (RD_A ip) = octets4 ip"
| "decompressed_rdata t (RD_AAAA ip) = octets6 ip"
| "decompressed_rdata t (RD_CNAME name) = name"
| "decompressed_rdata t (RD_NS name) = name"
| "decompressed_rdata t (RD_PTR name) = name"
| "decompressed_rdata t (RD_MX preference exchange) = bytes_of_u16 preference @ exchange"
| "decompressed_rdata t (RD_SOA mname rname serial refresh retry expire minimum) =
     mname @ rname @ bytes_of_u32 serial @ bytes_of_u32 refresh @ bytes_of_u32 retry @
     bytes_of_u32 expire @ bytes_of_u32 minimum"
| "decompressed_rdata t (RD_TXT strings) =
     concat (map (\<lambda>s. of_nat (length s) # as_bytes s) strings)"
| "decompressed_rdata t (RD_SRV priority weight port target) =
     bytes_of_u16 priority @ bytes_of_u16 weight @ bytes_of_u16 port @ target"
| "decompressed_rdata t (RD_RRSIG type_covered algorithm labels original_ttl expiration inception
       key_tag signer_name signature) =
     bytes_of_u16 type_covered @ [algorithm] @ [labels] @ bytes_of_u32 original_ttl @
     bytes_of_u32 expiration @ bytes_of_u32 inception @ bytes_of_u16 key_tag @
     signer_name @ signature"
| "decompressed_rdata t (RD_DNSKEY flags protocol algorithm public_key) =
     bytes_of_u16 flags @ [protocol] @ [algorithm] @ public_key"
| "decompressed_rdata t (RD_NSEC next_domain type_bit_maps) = next_domain @ type_bit_maps"
| "decompressed_rdata t (RD_DS key_tag algorithm digest_type digest) =
     bytes_of_u16 key_tag @ [algorithm] @ [digest_type] @ digest"
| "decompressed_rdata t (RD_NSEC3 hash_algorithm flags iterations salt next_hashed_owner
       type_bit_maps) =
     [hash_algorithm] @ [flags] @ bytes_of_u16 iterations @ [of_nat (length salt)] @ salt @
     next_hashed_owner @ type_bit_maps"
| "decompressed_rdata t (RD_Unknown original) = original"

section \<open>Records\<close>

definition rr_from_bytes :: "bytes \<Rightarrow> nat \<Rightarrow> (resource_record \<times> nat) dns_result" where
  "rr_from_bytes data offset =
     obind (decode_domain_name data offset) (\<lambda>(name, off).
       if length data < off + 10 then Err UnexpectedEof
       else
         obind (get_u16 data off) (\<lambda>rtype.
         obind (get_u16 data (off + 2)) (\<lambda>rclass.
         obind (get_u32 data (off + 4)) (\<lambda>ttl.
         obind (get_u16 data (off + 8)) (\<lambda>rdlength.
         let rdlen = unat rdlength;
             data_start = off + 10 in
         if length data < data_start + rdlen then Err UnexpectedEof
         else
           obind (slice data data_start (data_start + rdlen)) (\<lambda>raw_rdata.
           obind (parse_rdata rtype raw_rdata data data_start) (\<lambda>parsed.
             let (rdata, rdlength) =
               (case parsed of
                  Some p \<Rightarrow> (decompressed_rdata rtype p, of_nat (length (decompressed_rdata rtype p)))
                | None \<Rightarrow> (raw_rdata, rdlength)) in
             Ok (\<lparr>rr_name = name, rr_type = rtype, rr_class = rclass, rr_ttl = ttl,
                  rr_rdlength = rdlength, rr_rdata = rdata, rr_parsed = parsed\<rparr>,
                 data_start + rdlen))))))))"

definition rr_to_bytes :: "resource_record \<Rightarrow> bytes \<Rightarrow> (bytes \<times> nat) dns_result" where
  "rr_to_bytes r buf =
     (let total = length (rr_name r) + 10 + unat (rr_rdlength r) in
      if length buf < total then Err (BufferTooSmall total (length buf))
      else let off = length (rr_name r) in
        obind (copy_slice buf 0 off (rr_name r)) (\<lambda>buf.
        obind (copy_slice buf off (off + 2) (bytes_of_u16 (rr_type r))) (\<lambda>buf.
        obind (copy_slice buf (off + 2) (off + 4) (bytes_of_u16 (rr_class r))) (\<lambda>buf.
        obind (copy_slice buf (off + 4) (off + 8) (bytes_of_u32 (rr_ttl r))) (\<lambda>buf.
        obind (copy_slice buf (off + 8) (off + 10) (bytes_of_u16 (rr_rdlength r))) (\<lambda>buf.
        let off = off + 10 in
        obind (copy_slice buf off (off + unat (rr_rdlength r)) (rr_rdata r)) (\<lambda>buf.
        Ok (buf, off + unat (rr_rdlength r)))))))))"

definition rr_name_str :: "resource_record \<Rightarrow> string" where
  "rr_name_str r = labels_to_string (rr_name r)"

section \<open>Reads in range\<close>

text \<open>
  Behind their guards the reads of the parsers are in range, so that each parser has a form without
  them.  An offset is never smaller than where the name began, so the differences do not underflow.
\<close>

definition be32_at :: "bytes \<Rightarrow> nat \<Rightarrow> u32" where
  "be32_at rdata i = be32 (rdata ! i) (rdata ! (i + 1)) (rdata ! (i + 2)) (rdata ! (i + 3))"

definition be16_at :: "bytes \<Rightarrow> nat \<Rightarrow> u16" where
  "be16_at rdata i = be16 (rdata ! i) (rdata ! (i + 1))"

lemma in_range: "i + 1 < length bs \<Longrightarrow> get_u16 bs i = Ok (be16_at bs i)" "i + 3 < length bs \<Longrightarrow> get_u32 bs i = Ok (be32_at bs i)"
  by (simp_all add: be16_at_def be32_at_def checked_reads)

lemma on_decoded_cong:
  "(\<And>n e. m = Ok (n, e) \<Longrightarrow> f n e = g n e) \<Longrightarrow> on_decoded m f = on_decoded m g"
  by (cases "(m, f)" rule: on_decoded.cases) auto

lemma decode_at_after: "decode_domain_name_at msg off = Ok (n, e) \<Longrightarrow> off < e"
  unfolding decode_domain_name_at_def by (rule decode_domain_name_sound(2))

lemma parse_a_eq: "parse_a_rdata d =
    (if length d = 4 then Ok (Some (RD_A (Ipv4 (d ! 0) (d ! 1) (d ! 2) (d ! 3)))) else Ok None)"
  by (simp add: parse_a_rdata_def checked_reads)

lemma parse_aaaa_eq: "parse_aaaa_rdata d = (if length d = 16 then Ok (Some (RD_AAAA (Ipv6 d))) else Ok None)"
  by (simp add: parse_aaaa_rdata_def copy_slice_def overwrite_def)

lemma parse_mx_eq: "parse_mx_rdata d msg off =
    (if length d < 3 then Ok None
     else on_decoded (decode_domain_name_at msg (off + 2)) (\<lambda>n _. Ok (Some (RD_MX (be16_at d 0) n))))"
  by (simp add: parse_mx_rdata_def in_range)

lemma parse_soa_eq: "parse_soa_rdata d msg off =
    on_decoded (decode_domain_name_at msg off) (\<lambda>m e. on_decoded (decode_domain_name_at msg e) (\<lambda>n e'.
      let k = e' - off in
      if length d < k + 20 then Ok None
      else Ok (Some (RD_SOA m n (be32_at d k) (be32_at d (k + 4)) (be32_at d (k + 8)) (be32_at d (k + 12)) (be32_at d (k + 16))))))"
  unfolding parse_soa_rdata_def Let_def
  by (intro on_decoded_cong) (auto simp: usize_sub_eq in_range dest!: decode_at_after)

lemma parse_srv_eq: "parse_srv_rdata d msg off =
    (if length d < 7 then Ok None
     else on_decoded (decode_domain_name_at msg (off + 6)) (\<lambda>n _.
       Ok (Some (RD_SRV (be16_at d 0) (be16_at d 2) (be16_at d 4) n))))"
  by (simp add: parse_srv_rdata_def in_range)

lemma parse_rrsig_eq: "parse_rrsig_rdata d msg off =
    (if length d < 18 then Ok None
     else on_decoded (decode_domain_name_at msg (off + 18)) (\<lambda>n e.
       if length d < e - off then Ok None
       else Ok (Some (RD_RRSIG (be16_at d 0) (d ! 2) (d ! 3) (be32_at d 4) (be32_at d 8) (be32_at d 12) (be16_at d 16) n
              (drop (e - off) d)))))"
proof (cases "length d < 18")
  case False
  then have "get_u16 d 0 = Ok (be16_at d 0)" "idx d 2 = Ok (d ! 2)" "idx d 3 = Ok (d ! 3)" "get_u32 d 4 = Ok (be32_at d 4)"
    "get_u32 d 8 = Ok (be32_at d 8)" "get_u32 d 12 = Ok (be32_at d 12)" "get_u16 d 16 = Ok (be16_at d 16)"
    by (simp_all add: in_range idx_eq)
  note fields = this
  from False show ?thesis unfolding parse_rrsig_rdata_def fields obind.simps
    by (auto intro!: on_decoded_cong simp: usize_sub_eq slice_from_eq dest!: decode_at_after)
qed (simp add: parse_rrsig_rdata_def)

lemma parse_key_eq:
  "parse_dnskey_rdata d =
     (if length d < 4 then Ok None else Ok (Some (RD_DNSKEY (be16_at d 0) (d ! 2) (d ! 3) (drop 4 d))))"
  "parse_ds_rdata d = (if length d < 4 then Ok None else Ok (Some (RD_DS (be16_at d 0) (d ! 2) (d ! 3) (drop 4 d))))"
  by (simp_all add: parse_dnskey_rdata_def parse_ds_rdata_def in_range idx_eq slice_from_eq)

lemma parse_nsec_eq: "parse_nsec_rdata d msg off =
    on_decoded (decode_domain_name_at msg off) (\<lambda>n e.
      if length d < e - off then Panic else Ok (Some (RD_NSEC n (drop (e - off) d))))"
  unfolding parse_nsec_rdata_def
  by (intro on_decoded_cong) (auto simp: usize_sub_eq slice_from_eq dest!: decode_at_after)

lemma txt_parts_total: "txt_parts bs \<noteq> Panic"
  by (induction bs rule: txt_parts.induct) (auto simp: slice_def outcome_simps)

lemma rr_from_bytes_eq: "rr_from_bytes data offset =
     obind (decode_domain_name data offset) (\<lambda>(name, off).
       if length data < off + 10 then Err UnexpectedEof
       else let rdlen = unat (be16_at data (off + 8)); data_start = off + 10; raw_rdata = take rdlen (drop data_start data) in
         if length data < data_start + rdlen then Err UnexpectedEof
         else
           obind (parse_rdata (be16_at data off) raw_rdata data data_start) (\<lambda>parsed.
             let (rdata, rdlength) =
               (case parsed of
                  Some p \<Rightarrow> (decompressed_rdata (be16_at data off) p,
                    of_nat (length (decompressed_rdata (be16_at data off) p)))
                | None \<Rightarrow> (raw_rdata, be16_at data (off + 8))) in
             Ok (\<lparr>rr_name = name, rr_type = be16_at data off, rr_class = be16_at data (off + 2),
                  rr_ttl = be32_at data (off + 4), rr_rdlength = rdlength, rr_rdata = rdata, rr_parsed = parsed\<rparr>,
                 data_start + rdlen)))"
  unfolding rr_from_bytes_def
  by (rule arg_cong [where f = "obind _"]) (auto simp: fun_eq_iff in_range slice_def Let_def)

section \<open>RDATA round trips\<close>

text \<open>The parsed values that can occur for a record type.\<close>

fun wf_rdata :: "u16 \<Rightarrow> rdata \<Rightarrow> bool" where
  "wf_rdata t (RD_A ip) \<longleftrightarrow> t = 1"
| "wf_rdata t (RD_AAAA ip) \<longleftrightarrow> t = 28 \<and> length (octets6 ip) = 16"
| "wf_rdata t (RD_CNAME n) \<longleftrightarrow> t = 5 \<and> valid_name n"
| "wf_rdata t (RD_NS n) \<longleftrightarrow> t = 2 \<and> valid_name n"
| "wf_rdata t (RD_PTR n) \<longleftrightarrow> t = 12 \<and> valid_name n"
| "wf_rdata t (RD_MX pr n) \<longleftrightarrow> t = 15 \<and> valid_name n"
| "wf_rdata t (RD_SOA m r a b c d e) \<longleftrightarrow> t = 6 \<and> valid_name m \<and> valid_name r"
| "wf_rdata t (RD_TXT ss) \<longleftrightarrow>
     t = 16 \<and> (\<forall>s \<in> set ss. length s < 256 \<and> utf8_valid (as_bytes s))"
| "wf_rdata t (RD_SRV a b c n) \<longleftrightarrow> t = 33 \<and> valid_name n"
| "wf_rdata t (RD_RRSIG a b c d e f g n s) \<longleftrightarrow> t = 46 \<and> valid_name n"
| "wf_rdata t (RD_DNSKEY a b c d) \<longleftrightarrow> t = 48"
| "wf_rdata t (RD_NSEC n b) \<longleftrightarrow> t = 47 \<and> valid_name n"
| "wf_rdata t (RD_DS a b c d) \<longleftrightarrow> t = 43"
| "wf_rdata t (RD_NSEC3 a b c d e f) \<longleftrightarrow> False"
| "wf_rdata t (RD_Unknown d) \<longleftrightarrow>
     t \<notin> {1, 28, 5, 2, 12, 15, 6, 16, 33, 46, 48, 43, 47} \<and> length d < 65536"

lemma be16_at_bytes [simp]:
  "be16_at (bytes_of_u16 w @ r) 0 = w"
  by (simp add: be16_at_def bytes_of_u16_def)

lemma be32_at_bytes [simp]:
  "be32_at (bytes_of_u32 w @ r) 0 = w"
  by (simp add: be32_at_def bytes_of_u32_def numeral_2_eq_2 numeral_3_eq_3)

lemma be16_at_bytes_only [simp]: "be16_at (bytes_of_u16 w) 0 = w"
  using be16_at_bytes [of w "[]"] by simp

lemma be32_at_bytes_only [simp]: "be32_at (bytes_of_u32 w) 0 = w"
  using be32_at_bytes [of w "[]"] by simp

lemma be16_at_skip: "length pre \<le> i \<Longrightarrow> be16_at (pre @ r) i = be16_at r (i - length pre)"
  by (simp add: be16_at_def nth_append Suc_diff_le)

lemma be32_at_skip: "length pre \<le> i \<Longrightarrow> be32_at (pre @ r) i = be32_at r (i - length pre)"
  by (simp add: be32_at_def nth_append Suc_diff_le eval_nat_numeral)

lemma be16_at_Cons: "0 < i \<Longrightarrow> be16_at (b # r) i = be16_at r (i - 1)"
  using be16_at_skip [of "[b]" i r] by simp

lemma be32_at_Cons: "0 < i \<Longrightarrow> be32_at (b # r) i = be32_at r (i - 1)"
  using be32_at_skip [of "[b]" i r] by simp

lemma decode_at_skip:
  assumes "valid_name n" "off = length pre"
  shows "decode_domain_name_at (pre @ n @ post) off = Ok (n, off + length n)"
  using decode_valid_name [OF assms(1)] assms(2) by (simp add: decode_domain_name_at_def)

lemma valid_name_nonempty: "valid_name n \<Longrightarrow> 0 < length n"
  by (auto simp: valid_name_def)

lemma txt_parts_roundtrip:
  "\<forall>s \<in> set ss. length s < 256 \<and> utf8_valid (as_bytes s) \<Longrightarrow>
     txt_parts (concat (map (\<lambda>s. of_nat (length s) # as_bytes s) ss)) = Ok (Some ss)"
  by (induction ss) (auto simp: slice_def)

lemma txt_parts_wf:
  "txt_parts bs = Ok (Some ss) \<Longrightarrow> \<forall>s \<in> set ss. length s < 256 \<and> utf8_valid (as_bytes s)"
proof (induction bs arbitrary: ss rule: txt_parts.induct)
  case (2 len rest)
  have "min (length rest) (unat len) < 256" using unat_u8_less [of len] by linarith
  with 2 show ?case by (auto simp: outcome_simps split: if_splits)
qed simp

lemmas rdata_parsers = parse_a_eq parse_aaaa_eq parse_name_rdata_def parse_mx_eq parse_soa_eq parse_txt_rdata_def
  parse_srv_eq parse_rrsig_eq parse_key_eq parse_nsec_eq

lemma parse_mx_decompressed:
  assumes "valid_name n"
  shows "parse_mx_rdata (bytes_of_u16 p @ n) (pre @ (bytes_of_u16 p @ n) @ post) (length pre) =
    Ok (Some (RD_MX p n))"
  using decode_at_skip [OF assms, of "length pre + 2" "pre @ bytes_of_u16 p" post]
    valid_name_nonempty [OF assms]
  by (simp add: parse_mx_eq be16_at_def bytes_of_u16_def)

lemma parse_srv_decompressed:
  assumes "valid_name n"
    and d_def: "d = bytes_of_u16 p @ bytes_of_u16 w @ bytes_of_u16 q @ n"
  shows "parse_srv_rdata d (pre @ d @ post) (length pre) = Ok (Some (RD_SRV p w q n))"
  using decode_at_skip [OF assms(1), of "length pre + 6"
      "pre @ bytes_of_u16 p @ bytes_of_u16 w @ bytes_of_u16 q" post]
    valid_name_nonempty [OF assms(1)]
  by (simp add: parse_srv_eq d_def be16_at_skip)

lemma parse_soa_decompressed:
  assumes "valid_name m" "valid_name n"
    and d_def: "d = m @ n @ bytes_of_u32 a @ bytes_of_u32 b @ bytes_of_u32 c @ bytes_of_u32 e @ bytes_of_u32 f"
  shows "parse_soa_rdata d (pre @ d @ post) (length pre) = Ok (Some (RD_SOA m n a b c e f))"
proof -
  have "decode_domain_name_at (pre @ d @ post) (length pre) = Ok (m, length pre + length m)"
    using decode_at_skip [OF assms(1), of "length pre" pre] by (simp add: d_def)
  moreover have "decode_domain_name_at (pre @ d @ post) (length pre + length m) =
      Ok (n, length pre + length m + length n)"
    using decode_at_skip [OF assms(2), of "length pre + length m" "pre @ m"] by (simp add: d_def)
  ultimately show ?thesis
    by (simp add: parse_soa_eq Let_def) (simp add: d_def be32_at_skip)
qed

lemma parse_rrsig_decompressed:
  assumes "valid_name n"
    and h_def: "h = bytes_of_u16 a @ [b] @ [c] @ bytes_of_u32 d @ bytes_of_u32 e @ bytes_of_u32 f @ bytes_of_u16 g"
  shows "parse_rrsig_rdata (h @ n @ s) (pre @ (h @ n @ s) @ post) (length pre) =
    Ok (Some (RD_RRSIG a b c d e f g n s))"
proof -
  have len: "length h = 18" by (simp add: h_def)
  have "decode_domain_name_at (pre @ (h @ n @ s) @ post) (length pre + 18) =
      Ok (n, length pre + 18 + length n)"
    using decode_at_skip [OF assms(1), of "length pre + 18" "pre @ h"] len by simp
  moreover have "be16_at (h @ n @ s) 0 = a" "(h @ n @ s) ! 2 = b" "(h @ n @ s) ! 3 = c"
    "be32_at (h @ n @ s) 4 = d" "be32_at (h @ n @ s) 8 = e" "be32_at (h @ n @ s) 12 = f"
    "be16_at (h @ n @ s) 16 = g"
    by (simp_all add: h_def be16_at_skip be32_at_skip nth_append be16_at_Cons be32_at_Cons)
  ultimately show ?thesis using len by (simp add: parse_rrsig_eq)
qed

lemma parse_rdata_decompressed:
  assumes "wf_rdata t p" "d = decompressed_rdata t p"
  shows "parse_rdata t d (pre @ d @ post) (length pre) = Ok (Some p)"
proof (cases p)
  case (RD_A ip)
  then show ?thesis using assms by (cases ip) (simp add: parse_rdata_def parse_a_eq)
next
  case (RD_AAAA ip)
  then show ?thesis using assms by (cases ip) (simp add: parse_rdata_def parse_aaaa_eq)
next
  case (RD_TXT ss)
  then show ?thesis using assms
    by (simp add: parse_rdata_def parse_txt_rdata_def txt_parts_roundtrip)
next
  case (RD_NSEC n b)
  then show ?thesis using assms decode_at_skip [of n "length pre" pre "b @ post"]
    by (simp add: parse_rdata_def parse_nsec_eq)
next
  case (RD_MX a n)
  then show ?thesis using assms parse_mx_decompressed [of n a pre post]
    by (simp add: parse_rdata_def)
next
  case (RD_SRV a b c n)
  then show ?thesis using assms parse_srv_decompressed [of n d a b c pre post]
    by (simp add: parse_rdata_def)
next
  case (RD_SOA m n a b c e f)
  then show ?thesis using assms parse_soa_decompressed [of m n d a b c e f pre post]
    by (simp add: parse_rdata_def)
next
  case (RD_RRSIG a b c e f g h n s)
  then show ?thesis using assms parse_rrsig_decompressed [of n _ a b c e f g h s pre post]
    by (simp add: parse_rdata_def)
qed (use assms in \<open>auto simp: parse_rdata_def parse_name_rdata_def parse_key_eq decode_at_skip nth_append dest: valid_name_nonempty\<close>)

lemma on_decoded_Ok_iff [outcome_simps]:
  "on_decoded m f = Ok r \<longleftrightarrow> (\<exists>n off. m = Ok (n, off) \<and> f n off = Ok r) \<or> (\<exists>e. m = Err e \<and> r = None)"
  by (cases "(m, f)" rule: on_decoded.cases) auto

lemma decode_at_valid: "decode_domain_name_at data off = Ok (n, nxt) \<Longrightarrow> valid_name n"
  unfolding decode_domain_name_at_def by (rule decode_domain_name_sound)

lemma parse_rdata_wf:
  assumes "parse_rdata t d msg off = Ok (Some p)" "length d < 65536"
  shows "wf_rdata t p"
  using assms
  by (auto simp: parse_rdata_def rdata_parsers Let_def outcome_simps
      split: if_splits dest: decode_at_valid txt_parts_wf)

section \<open>Record round trips\<close>

definition rr_wire :: "resource_record \<Rightarrow> bytes" where
  "rr_wire r = rr_name r @ bytes_of_u16 (rr_type r) @ bytes_of_u16 (rr_class r) @
     bytes_of_u32 (rr_ttl r) @ bytes_of_u16 (rr_rdlength r) @ rr_rdata r"

text \<open>
  The records the parser produces, as long as the uncompressed RDATA still fits its length field:
  the stored RDATA is the one reconstructed from the parsed value.
\<close>

definition wf_rr :: "resource_record \<Rightarrow> bool" where
  "wf_rr r \<longleftrightarrow> valid_name (rr_name r) \<and> length (rr_rdata r) < 65536 \<and>
     rr_rdlength r = of_nat (length (rr_rdata r)) \<and>
     (case rr_parsed r of
        None \<Rightarrow> False
      | Some p \<Rightarrow> wf_rdata (rr_type r) p \<and> rr_rdata r = decompressed_rdata (rr_type r) p)"

text \<open>The length field agrees with the stored RDATA: what serialising needs.\<close>

definition rr_sized :: "resource_record \<Rightarrow> bool" where
  "rr_sized r \<longleftrightarrow> length (rr_rdata r) = unat (rr_rdlength r)"

lemma wf_rr_sized: "wf_rr r \<Longrightarrow> rr_sized r"
  by (simp add: wf_rr_def rr_sized_def)

lemma rr_to_bytes_sized:
  assumes "rr_sized r"
  shows "rr_to_bytes r buf =
     (if length buf < length (rr_wire r) then Err (BufferTooSmall (length (rr_wire r)) (length buf))
      else Ok (rr_wire r @ drop (length (rr_wire r)) buf, length (rr_wire r)))"
  using assms
  by (auto simp: rr_to_bytes_def rr_wire_def rr_sized_def Let_def copy_slice_def overwrite_def
      eval_nat_numeral add.commute [of "unat _"])

lemma rr_to_bytes_unsized:
  assumes "\<not> rr_sized r" "length (rr_name r) + 10 + unat (rr_rdlength r) \<le> length buf"
  shows "rr_to_bytes r buf = Panic"
  using assms
  by (auto simp: rr_to_bytes_def rr_sized_def Let_def copy_slice_def overwrite_def
      eval_nat_numeral)

lemma rr_from_wire:
  assumes "wf_rr r"
  shows "rr_from_bytes (pre @ rr_wire r @ post) (length pre) = Ok (r, length pre + length (rr_wire r))"
proof -
  obtain p where p: "rr_parsed r = Some p" "wf_rdata (rr_type r) p"
    "rr_rdata r = decompressed_rdata (rr_type r) p"
    using assms by (auto simp: wf_rr_def split: option.splits)
  let ?n = "rr_name r" and ?d = "rr_rdata r"
  let ?h = "bytes_of_u16 (rr_type r) @ bytes_of_u16 (rr_class r) @ bytes_of_u32 (rr_ttl r) @
     bytes_of_u16 (rr_rdlength r)"
  let ?data = "pre @ ?n @ ?h @ ?d @ post"
  have len: "unat (rr_rdlength r) = length ?d" using assms by (simp add: wf_rr_def)
  have dec: "decode_domain_name ?data (length pre) = Ok (?n, length pre + length ?n)"
    using assms unfolding wf_rr_def by (intro decode_valid_name) simp
  have fields: "be16_at ?data (length pre + length ?n) = rr_type r"
    "be16_at ?data (length pre + length ?n + 2) = rr_class r"
    "be32_at ?data (length pre + length ?n + 4) = rr_ttl r"
    "be16_at ?data (length pre + length ?n + 8) = rr_rdlength r"
    by (simp_all add: be16_at_skip be32_at_skip)
  have raw: "take (length ?d) (drop (length pre + length ?n + 10) ?data) = ?d" by simp
  have "parse_rdata (rr_type r) ?d ((pre @ ?n @ ?h) @ ?d @ post) (length (pre @ ?n @ ?h)) =
      Ok (Some p)"
    using p by (intro parse_rdata_decompressed) simp_all
  then have parse: "parse_rdata (rr_type r) ?d ?data (length pre + length ?n + 10) = Ok (Some p)"
    by (simp add: add.assoc)
  have "rr_from_bytes ?data (length pre) = Ok (r, length pre + length ?n + 10 + length ?d)"
    unfolding rr_from_bytes_eq dec obind.simps prod.case fields Let_def len raw parse
    using p assms by (simp add: wf_rr_def)
  then show ?thesis by (simp add: rr_wire_def ac_simps)
qed

interpretation rrwriter: wire_writer rr_to_bytes rr_wire rr_sized
  by unfold_locales (rule rr_to_bytes_sized)

interpretation rrcodec: wire_codec rr_to_bytes rr_wire wf_rr rr_from_bytes
  by unfold_locales (auto simp: rr_to_bytes_sized rr_from_wire wf_rr_sized)

text \<open>What \<open>from_bytes\<close> guarantees about any record it returns.\<close>

definition rr_parsed_ok :: "resource_record \<Rightarrow> bool" where
  "rr_parsed_ok r \<longleftrightarrow> valid_name (rr_name r) \<and>
     (case rr_parsed r of
        None \<Rightarrow> rr_sized r
      | Some p \<Rightarrow> wf_rdata (rr_type r) p \<and> rr_rdata r = decompressed_rdata (rr_type r) p \<and>
          rr_rdlength r = of_nat (length (rr_rdata r)))"

lemma rr_from_bytes_sound:
  assumes "rr_from_bytes data off = Ok (r, nxt)"
  shows "rr_parsed_ok r" "off < nxt" "nxt \<le> length data"
proof -
  obtain n e where d: "decode_domain_name data off = Ok (n, e)"
    using assms by (auto simp: rr_from_bytes_eq outcome_simps)
  note s = decode_domain_name_sound [OF d]
  let ?raw = "take (unat (be16_at data (e + 8))) (drop (e + 10) data)"
  have small: "length ?raw < 65536" using unat_u16_less [of "be16_at data (e + 8)"] by (simp add: min_less_iff_disj)
  obtain p where p: "parse_rdata (be16_at data e) ?raw data (e + 10) = Ok p"
    and fits: "e + 10 + unat (be16_at data (e + 8)) \<le> length data"
    using assms d by (auto simp: rr_from_bytes_eq outcome_simps Let_def split: if_splits)
  show "rr_parsed_ok r"
    using assms d p s(1) fits parse_rdata_wf [OF _ small]
    by (auto simp: rr_from_bytes_eq Let_def rr_parsed_ok_def rr_sized_def split: if_splits option.splits)
  show "off < nxt" "nxt \<le> length data"
    using assms d p s fits by (auto simp: rr_from_bytes_eq Let_def split: if_splits option.splits)
qed

lemma rr_parsed_ok_wf:
  "rr_parsed_ok r \<Longrightarrow> rr_parsed r \<noteq> None \<Longrightarrow> length (rr_rdata r) < 65536 \<Longrightarrow> wf_rr r"
  by (auto simp: rr_parsed_ok_def wf_rr_def split: option.splits)

text \<open>
  An NSEC record whose name runs past its own RDATA: the slice of the type bitmap is out of range.
\<close>

lemma parse_nsec_panics:
  assumes "decode_domain_name msg off = Ok (n, e)" "off + length d < e"
  shows "parse_rdata 47 d msg off = Panic"
  using assms by (simp add: parse_rdata_def parse_nsec_eq decode_domain_name_at_def Let_def)

text \<open>Every other parser stays in range.\<close>

lemma on_decoded_Panic_iff [outcome_simps]:
  "on_decoded m f = Panic \<longleftrightarrow> m = Panic \<or> (\<exists>n off. m = Ok (n, off) \<and> f n off = Panic)"
  by (cases "(m, f)" rule: on_decoded.cases) auto

lemma parse_rdata_Panic_iff:
  "parse_rdata t d msg off = Panic \<longleftrightarrow>
     t = 47 \<and> (\<exists>n e. decode_domain_name msg off = Ok (n, e) \<and> off + length d < e)"
proof
  assume "parse_rdata t d msg off = Panic"
  then have "t = 47 \<and> parse_nsec_rdata d msg off = Panic"
    by (auto simp: parse_rdata_def rdata_parsers decode_domain_name_at_def Let_def outcome_simps txt_parts_total
        split: if_splits)
  then show "t = 47 \<and> (\<exists>n e. decode_domain_name msg off = Ok (n, e) \<and> off + length d < e)"
    by (auto simp: parse_nsec_eq decode_domain_name_at_def Let_def outcome_simps
        split: if_splits)
qed (auto intro: parse_nsec_panics)

section \<open>Properties\<close>

text \<open>
  C28. A record parsed from a compressed message whose RDATA was understood and still fits its
  length field is written without compression and reads back unchanged at any position of any
  message.
\<close>

theorem parsed_record_roundtrip:
  assumes "rr_from_bytes data off = Ok (r, nxt)" "rr_parsed r \<noteq> None" "length (rr_rdata r) < 65536"
    and "rr_to_bytes r buf = Ok (buf', n)"
  shows "rr_from_bytes (pre @ buf') (length pre) = Ok (r, length pre + n)"
  using rrcodec.parse_put rr_parsed_ok_wf rr_from_bytes_sound(1) assms by blast

lemma compressed_cname_example:
  "rr_from_bytes [1, 97, 0, 0xc0, 0, 0, 5, 0, 1, 0, 0, 0, 9, 0, 2, 0xc0, 0] 3 =
     Ok (\<lparr>rr_name = [1, 97, 0], rr_type = 5, rr_class = 1, rr_ttl = 9, rr_rdlength = 3,
          rr_rdata = [1, 97, 0], rr_parsed = Some (RD_CNAME [1, 97, 0])\<rparr>, 17)"
  by (simp add: rr_from_bytes_eq decode_domain_name_decided ptr_target_def be16_at_def be32_at_def
      be16_def be32_def parse_rdata_def parse_name_rdata_def decode_domain_name_at_def)

theorem parsed_record_roundtrip_witness:
  "rr_from_bytes ([8] @ rr_wire \<lparr>rr_name = [1, 97, 0], rr_type = 5, rr_class = 1, rr_ttl = 9,
       rr_rdlength = 3, rr_rdata = [1, 97, 0], rr_parsed = Some (RD_CNAME [1, 97, 0])\<rparr>) 1 =
     Ok (\<lparr>rr_name = [1, 97, 0], rr_type = 5, rr_class = 1, rr_ttl = 9, rr_rdlength = 3,
          rr_rdata = [1, 97, 0], rr_parsed = Some (RD_CNAME [1, 97, 0])\<rparr>, 17)"
  using parsed_record_roundtrip [OF compressed_cname_example, of "replicate 16 0" _ _ "[8]"]
  by (simp add: rr_to_bytes_sized rr_sized_def rr_wire_def bytes_of_u16_def bytes_of_u32_def)

text \<open>
  C40. Parsing RDATA panics exactly for an NSEC record whose next-domain name ends behind the
  RDATA.
\<close>

theorem rdata_parser_panics_iff:
  "parse_rdata t d msg off = Panic \<longleftrightarrow>
     t = 47 \<and> (\<exists>n e. decode_domain_name msg off = Ok (n, e) \<and> off + length d < e)"
  by (rule parse_rdata_Panic_iff)

end
