(* ===== verification/Wire_Message.thy ===== *)
theory Wire_Message
  imports Wire_Record
begin

text \<open>
  Messages: \<open>Message::from_bytes\<close> and \<open>to_bytes\<close> of \<open>src/src/dns/types.rs\<close> and the helpers of
  \<open>src/src/dns/wire.rs\<close>, with the round trips between a message and its bytes.
\<close>

section \<open>Operations\<close>

definition message_from_bytes :: "bytes \<Rightarrow> message dns_result" where
  "message_from_bytes data =
     obind (header_from_bytes data) (\<lambda>header.
     obind (parse_section question_from_bytes data (unat (h_qdcount header)) 12 [])
       (\<lambda>(questions, offset).
     obind (parse_section rr_from_bytes data (unat (h_ancount header)) offset [])
       (\<lambda>(answers, offset).
     obind (parse_section rr_from_bytes data (unat (h_nscount header)) offset [])
       (\<lambda>(authorities, offset).
     obind (parse_section rr_from_bytes data (unat (h_arcount header)) offset [])
       (\<lambda>(additionals, offset).
     Ok \<lparr>m_header = header, m_questions = questions, m_answers = answers,
         m_authorities = authorities, m_additionals = additionals\<rparr>)))))"

text \<open>The header \<open>to_bytes\<close> writes: the message's own, with the counts of its sections.\<close>

definition counted_header :: "message \<Rightarrow> header" where
  "counted_header m =
     (m_header m)\<lparr>h_qdcount := of_nat (length (m_questions m)),
                  h_ancount := of_nat (length (m_answers m)),
                  h_nscount := of_nat (length (m_authorities m)),
                  h_arcount := of_nat (length (m_additionals m))\<rparr>"

definition message_to_bytes :: "message \<Rightarrow> bytes \<Rightarrow> (bytes \<times> nat) dns_result" where
  "message_to_bytes m buf =
     obind (header_to_bytes (counted_header m) buf) (\<lambda>(buf, offset).
     obind (put_section question_to_bytes (m_questions m) buf offset) (\<lambda>(buf, offset).
     obind (put_section rr_to_bytes (m_answers m) buf offset) (\<lambda>(buf, offset).
     obind (put_section rr_to_bytes (m_authorities m) buf offset) (\<lambda>(buf, offset).
     put_section rr_to_bytes (m_additionals m) buf offset))))"

definition MAX_DNS_MESSAGE_SIZE :: nat where
  "MAX_DNS_MESSAGE_SIZE = 8192"

definition encode_message :: "message \<Rightarrow> bytes dns_result" where
  "encode_message msg =
     obind (message_to_bytes msg (replicate MAX_DNS_MESSAGE_SIZE 0)) (\<lambda>(buf, len).
       Ok (take len buf))"

definition decode_message :: "bytes \<Rightarrow> message dns_result" where
  "decode_message data = message_from_bytes data"

section \<open>Serialising\<close>

definition message_records :: "message \<Rightarrow> resource_record list" where
  "message_records m = m_answers m @ m_authorities m @ m_additionals m"

definition message_wire :: "message \<Rightarrow> bytes" where
  "message_wire m = header_wire (counted_header m) @ enc_list question_wire (m_questions m) @
     enc_list rr_wire (m_answers m) @ enc_list rr_wire (m_authorities m) @
     enc_list rr_wire (m_additionals m)"

definition sized_message :: "message \<Rightarrow> bool" where
  "sized_message m \<longleftrightarrow> (\<forall>r \<in> set (message_records m). rr_sized r)"

definition wf_message :: "message \<Rightarrow> bool" where
  "wf_message m \<longleftrightarrow> wf_header (m_header m) \<and> (\<forall>q \<in> set (m_questions m). wf_question q) \<and>
     (\<forall>r \<in> set (message_records m). wf_rr r) \<and>
     length (m_questions m) < 65536 \<and> length (m_answers m) < 65536 \<and>
     length (m_authorities m) < 65536 \<and> length (m_additionals m) < 65536"

lemma message_to_bytes_fits:
  assumes "sized_message m" "length (message_wire m) \<le> length buf"
  shows "message_to_bytes m buf =
     Ok (message_wire m @ drop (length (message_wire m)) buf, length (message_wire m))"
proof -
  have sized: "\<forall>r \<in> set (m_answers m). rr_sized r" "\<forall>r \<in> set (m_authorities m). rr_sized r"
    "\<forall>r \<in> set (m_additionals m). rr_sized r"
    using assms(1) by (auto simp: sized_message_def message_records_def)
  show ?thesis
    using assms(2) sized
    by (simp add: message_to_bytes_def message_wire_def header_to_bytes_eq
        qwriter.put_section_fits rrwriter.put_section_fits ac_simps)
qed

fun too_small :: "'a dns_result \<Rightarrow> bool" where
  "too_small (Err (BufferTooSmall need avail)) \<longleftrightarrow> avail < need"
| "too_small m \<longleftrightarrow> False"

lemma too_small_obind: "too_small m \<Longrightarrow> too_small (obind m f)"
  by (cases m rule: too_small.cases) auto

lemma put_questions_overflow:
  "off \<le> length buf \<Longrightarrow> length buf < off + length (enc_list question_wire qs) \<Longrightarrow>
     too_small (put_section question_to_bytes qs buf off)"
  using qwriter.put_section_overflow [of qs off buf] by auto

lemma put_rrs_overflow:
  "\<forall>r \<in> set rs. rr_sized r \<Longrightarrow> off \<le> length buf \<Longrightarrow>
     length buf < off + length (enc_list rr_wire rs) \<Longrightarrow>
     too_small (put_section rr_to_bytes rs buf off)"
  using rrwriter.put_section_overflow [of rs off buf] by auto

text \<open>One section: it does not fit, or the rest goes on behind it and does not fit.\<close>

lemma put_questions_then:
  assumes "off \<le> length buf"
    and "\<And>b. length b = length buf \<Longrightarrow> off + length (enc_list question_wire qs) \<le> length b \<Longrightarrow>
       too_small (f b (off + length (enc_list question_wire qs)))"
  shows "too_small (obind (put_section question_to_bytes qs buf off) (\<lambda>(b, n). f b n))"
proof (cases "off + length (enc_list question_wire qs) \<le> length buf")
  case True
  with assms(2) show ?thesis by (simp add: qwriter.put_section_fits)
next
  case False
  with assms(1) show ?thesis by (intro too_small_obind put_questions_overflow) simp_all
qed

lemma put_rrs_then:
  assumes "\<forall>r \<in> set rs. rr_sized r" "off \<le> length buf"
    and "\<And>b. length b = length buf \<Longrightarrow> off + length (enc_list rr_wire rs) \<le> length b \<Longrightarrow>
       too_small (f b (off + length (enc_list rr_wire rs)))"
  shows "too_small (obind (put_section rr_to_bytes rs buf off) (\<lambda>(b, n). f b n))"
proof (cases "off + length (enc_list rr_wire rs) \<le> length buf")
  case True
  with assms(1,3) show ?thesis by (simp add: rrwriter.put_section_fits)
next
  case False
  with assms(1,2) show ?thesis by (intro too_small_obind put_rrs_overflow) simp_all
qed

lemma message_to_bytes_overflow:
  assumes "sized_message m" "length buf < length (message_wire m)"
  shows "too_small (message_to_bytes m buf)"
proof (cases "length buf < 12")
  case True
  then show ?thesis by (simp add: message_to_bytes_def header_to_bytes_eq)
next
  case False
  have sized: "\<forall>r \<in> set (m_answers m). rr_sized r" "\<forall>r \<in> set (m_authorities m). rr_sized r"
    "\<forall>r \<in> set (m_additionals m). rr_sized r"
    using assms(1) by (auto simp: sized_message_def message_records_def)
  show ?thesis
    using assms(2) False sized unfolding message_to_bytes_def header_to_bytes_eq message_wire_def
    by (auto intro!: put_questions_then put_rrs_then put_rrs_overflow)
qed

lemma encode_message_fits:
  assumes "sized_message m" "length (message_wire m) \<le> MAX_DNS_MESSAGE_SIZE"
  shows "encode_message m = Ok (message_wire m)"
  using message_to_bytes_fits [OF assms(1), of "replicate MAX_DNS_MESSAGE_SIZE 0"] assms(2)
  by (simp add: encode_message_def)

lemma encode_message_overflow:
  assumes "sized_message m" "MAX_DNS_MESSAGE_SIZE < length (message_wire m)"
  shows "too_small (encode_message m)"
  using message_to_bytes_overflow [OF assms(1), of "replicate MAX_DNS_MESSAGE_SIZE 0"] assms(2)
  by (simp add: encode_message_def too_small_obind)

lemma wf_message_sized: "wf_message m \<Longrightarrow> sized_message m"
  by (auto simp: wf_message_def sized_message_def wf_rr_sized)

section \<open>Parsing back\<close>

lemma decode_message_wire:
  assumes "wf_message m"
  shows "decode_message (message_wire m @ rest) = Ok (m\<lparr>m_header := counted_header m\<rparr>)"
proof -
  let ?h = "header_wire (counted_header m)"
  let ?q = "enc_list question_wire (m_questions m)" and ?a = "enc_list rr_wire (m_answers m)"
    and ?u = "enc_list rr_wire (m_authorities m)" and ?d = "enc_list rr_wire (m_additionals m)"
  let ?data = "?h @ ?q @ ?a @ ?u @ ?d @ rest"
  have wf: "\<forall>q \<in> set (m_questions m). wf_question q" "\<forall>r \<in> set (m_answers m). wf_rr r"
    "\<forall>r \<in> set (m_authorities m). wf_rr r" "\<forall>r \<in> set (m_additionals m). wf_rr r"
    using assms by (auto simp: wf_message_def message_records_def)
  have "wf_header (counted_header m)"
    using assms by (simp add: wf_message_def wf_header_def counted_header_def)
  then have h: "header_from_bytes ?data = Ok (counted_header m)"
    by (rule header_from_wire)
  have counts: "unat (h_qdcount (counted_header m)) = length (m_questions m)"
    "unat (h_ancount (counted_header m)) = length (m_answers m)"
    "unat (h_nscount (counted_header m)) = length (m_authorities m)"
    "unat (h_arcount (counted_header m)) = length (m_additionals m)"
    using assms by (simp_all add: counted_header_def wf_message_def)
  have sections:
    "parse_section question_from_bytes ?data (length (m_questions m)) 12 [] =
       Ok (m_questions m, 12 + length ?q)"
    "parse_section rr_from_bytes ?data (length (m_answers m)) (12 + length ?q) [] =
       Ok (m_answers m, 12 + length ?q + length ?a)"
    "parse_section rr_from_bytes ?data (length (m_authorities m)) (12 + length ?q + length ?a) [] =
       Ok (m_authorities m, 12 + length ?q + length ?a + length ?u)"
    "parse_section rr_from_bytes ?data (length (m_additionals m))
         (12 + length ?q + length ?a + length ?u) [] =
       Ok (m_additionals m, 12 + length ?q + length ?a + length ?u + length ?d)"
    using qcodec.parse_section_enc [OF wf(1), of ?h "?a @ ?u @ ?d @ rest" "[]"]
      rrcodec.parse_section_enc [OF wf(2), of "?h @ ?q" "?u @ ?d @ rest" "[]"]
      rrcodec.parse_section_enc [OF wf(3), of "?h @ ?q @ ?a" "?d @ rest" "[]"]
      rrcodec.parse_section_enc [OF wf(4), of "?h @ ?q @ ?a @ ?u" rest "[]"]
    by (simp_all add: add.assoc)
  have "message_from_bytes ?data = Ok (m\<lparr>m_header := counted_header m\<rparr>)"
    by (simp add: message_from_bytes_def h counts sections)
  then show ?thesis by (simp add: decode_message_def message_wire_def)
qed

definition parsed_message_ok :: "message \<Rightarrow> bool" where
  "parsed_message_ok m \<longleftrightarrow> wf_header (m_header m) \<and> counted_header m = m_header m \<and>
     (\<forall>q \<in> set (m_questions m). wf_question q) \<and>
     (\<forall>r \<in> set (message_records m). rr_parsed_ok r)"

lemma decode_message_Ok:
  assumes "decode_message data = Ok m"
  shows "\<exists>e1 e2 e3 e4. header_from_bytes data = Ok (m_header m) \<and>
     parse_section question_from_bytes data (unat (h_qdcount (m_header m))) 12 [] =
       Ok (m_questions m, e1) \<and>
     parse_section rr_from_bytes data (unat (h_ancount (m_header m))) e1 [] = Ok (m_answers m, e2) \<and>
     parse_section rr_from_bytes data (unat (h_nscount (m_header m))) e2 [] =
       Ok (m_authorities m, e3) \<and>
     parse_section rr_from_bytes data (unat (h_arcount (m_header m))) e3 [] =
       Ok (m_additionals m, e4)"
  using assms unfolding decode_message_def message_from_bytes_def obind_eq_Ok
  by (clarsimp simp: obind_eq_Ok)

lemma decode_message_sound:
  assumes "decode_message data = Ok m"
  shows "parsed_message_ok m"
proof -
  obtain h e1 e2 e3 e4 where h: "header_from_bytes data = Ok h" "m_header m = h"
    and secs: "parse_section question_from_bytes data (unat (h_qdcount h)) 12 [] =
        Ok (m_questions m, e1)"
      "parse_section rr_from_bytes data (unat (h_ancount h)) e1 [] = Ok (m_answers m, e2)"
      "parse_section rr_from_bytes data (unat (h_nscount h)) e2 [] = Ok (m_authorities m, e3)"
      "parse_section rr_from_bytes data (unat (h_arcount h)) e3 [] = Ok (m_additionals m, e4)"
    using decode_message_Ok [OF assms] by blast
  have "\<forall>q \<in> set (m_questions m). wf_question q"
    by (rule parse_section_all [OF _ secs(1)]) (auto dest: question_from_bytes_sound)
  moreover have "\<forall>r \<in> set (m_answers m). rr_parsed_ok r"
    by (rule parse_section_all [OF _ secs(2)]) (auto dest: rr_from_bytes_sound(1))
  moreover have "\<forall>r \<in> set (m_authorities m). rr_parsed_ok r"
    by (rule parse_section_all [OF _ secs(3)]) (auto dest: rr_from_bytes_sound(1))
  moreover have "\<forall>r \<in> set (m_additionals m). rr_parsed_ok r"
    by (rule parse_section_all [OF _ secs(4)]) (auto dest: rr_from_bytes_sound(1))
  moreover have "counted_header m = m_header m"
    using secs [THEN parse_section_length] h by (simp add: counted_header_def)
  ultimately show ?thesis
    using header_from_bytes_wf [OF h(1)] h(2)
    by (auto simp: parsed_message_ok_def message_records_def)
qed

text \<open>
  A parsed message whose records all have parsed RDATA that fits its length field can be
  serialised, and reads back as itself.
\<close>

definition storable_message :: "message \<Rightarrow> bool" where
  "storable_message m \<longleftrightarrow>
     (\<forall>r \<in> set (message_records m). rr_parsed r \<noteq> None \<and> length (rr_rdata r) < 65536)"

lemma decode_message_lengths:
  assumes "decode_message data = Ok m"
  shows "length (m_questions m) < 65536" "length (m_answers m) < 65536"
    "length (m_authorities m) < 65536" "length (m_additionals m) < 65536"
  using decode_message_Ok [OF assms] by (auto dest!: parse_section_length)

lemma decode_message_wf:
  assumes "decode_message data = Ok m" "storable_message m"
  shows "wf_message m"
  using decode_message_sound [OF assms(1)] decode_message_lengths [OF assms(1)] assms(2)
  by (auto simp: wf_message_def parsed_message_ok_def storable_message_def intro: rr_parsed_ok_wf)

section \<open>Properties\<close>

text \<open>
  C30. Encoding a message whose records agree with their length fields succeeds with its wire
  form exactly when that has at most 8192 bytes, and otherwise reports a buffer that is too
  small; it never panics.
\<close>

theorem encode_message_decides_by_size:
  assumes "sized_message m"
  shows "if length (message_wire m) \<le> MAX_DNS_MESSAGE_SIZE
         then encode_message m = Ok (message_wire m) else too_small (encode_message m)"
  using assms encode_message_fits encode_message_overflow by simp

definition query_example :: message where
  "query_example =
     \<lparr>m_header = new_query 7 True,
      m_questions = [\<lparr>q_name = [1, 97, 0], q_type = 1, q_class = 1\<rparr>], m_answers = [],
      m_authorities = [], m_additionals = [to_resource_record (opt_new True)]\<rparr>"

theorem encode_message_decides_by_size_witness:
  "encode_message query_example = Ok (message_wire query_example)"
  using encode_message_decides_by_size [of query_example]
  by (simp add: query_example_def sized_message_def message_records_def to_resource_record_def
      rr_sized_def message_wire_def MAX_DNS_MESSAGE_SIZE_def question_wire_def rr_wire_def)

lemma encode_message_Ok:
  assumes "sized_message m" "encode_message m = Ok bs" shows "bs = message_wire m"
  using encode_message_fits [OF assms(1)] encode_message_overflow [OF assms(1)] assms(2)
  by (cases "length (message_wire m) \<le> MAX_DNS_MESSAGE_SIZE") auto

text \<open>
  C1. Decoding an encoded well-formed message gives the message back with its section counts
  filled in.
\<close>

theorem message_roundtrip:
  assumes "wf_message m" "encode_message m = Ok bs"
  shows "decode_message bs = Ok (m\<lparr>m_header := counted_header m\<rparr>)"
  using encode_message_Ok [OF wf_message_sized [OF assms(1)] assms(2)]
    decode_message_wire [OF assms(1), of "[]"] by simp

definition response_example :: message where
  "response_example =
     \<lparr>m_header = new_query 7 True,
      m_questions = [\<lparr>q_name = [1, 97, 0], q_type = 1, q_class = 1\<rparr>],
      m_answers = [\<lparr>rr_name = [1, 97, 0], rr_type = 1, rr_class = 1, rr_ttl = 300,
        rr_rdlength = 4, rr_rdata = [10, 0, 0, 1], rr_parsed = Some (RD_A (Ipv4 10 0 0 1))\<rparr>],
      m_authorities = [], m_additionals = []\<rparr>"

lemma valid_name_a: "valid_name [1, 97, 0]"
  using valid_name_wire [of "[[97]]"] by (simp add: valid_label_def)

lemma wf_response_example: "wf_message response_example"
  by (simp add: response_example_def wf_message_def wf_header_def new_query_def message_records_def
      wf_question_def wf_rr_def valid_name_a)

lemma length_response_example: "length (message_wire response_example) \<le> MAX_DNS_MESSAGE_SIZE"
  by (simp add: response_example_def message_wire_def question_wire_def rr_wire_def
      MAX_DNS_MESSAGE_SIZE_def)

lemma encode_response_example:
  "encode_message response_example = Ok (message_wire response_example)"
  by (rule encode_message_fits [OF wf_message_sized [OF wf_response_example] length_response_example])

theorem message_roundtrip_witness:
  "decode_message (message_wire response_example) =
     Ok (response_example\<lparr>m_header := counted_header response_example\<rparr>)"
  using message_roundtrip [OF wf_response_example encode_response_example] .

text \<open>
  C13. A decoded message whose records were all understood and fit their length fields survives
  encoding and decoding unchanged.
\<close>

theorem reencoded_message_unchanged:
  assumes "decode_message data = Ok m" "storable_message m" "encode_message m = Ok bs"
  shows "decode_message bs = Ok m"
  using encode_message_Ok [OF wf_message_sized [OF decode_message_wf [OF assms(1,2)]] assms(3)]
    decode_message_wire [OF decode_message_wf [OF assms(1,2)], of "[]"]
    decode_message_sound [OF assms(1)]
  by (simp add: parsed_message_ok_def)

theorem reencoded_message_unchanged_witness:
  "decode_message (message_wire response_example) =
     Ok (response_example\<lparr>m_header := counted_header response_example\<rparr>)"
proof (rule reencoded_message_unchanged)
  let ?m = "response_example\<lparr>m_header := counted_header response_example\<rparr>"
  show "decode_message (message_wire response_example @ [0]) = Ok ?m"
    by (rule decode_message_wire [OF wf_response_example])
  show "storable_message ?m"
    by (simp add: storable_message_def response_example_def message_records_def)
  have "message_wire ?m = message_wire response_example"
    by (simp add: message_wire_def counted_header_def)
  moreover have "sized_message ?m"
    using wf_message_sized [OF wf_response_example] by (simp add: sized_message_def message_records_def)
  ultimately show "encode_message ?m = Ok (message_wire response_example)"
    using encode_message_fits [of ?m] length_response_example by simp
qed

text \<open>
  C14. Every message the decoder returns has a header within the format, section counts that
  agree with its sections, well-formed names, and records whose stored RDATA agrees with the
  parsed value.
\<close>

theorem decoded_message_wellformed:
  assumes "decode_message data = Ok m"
  shows "parsed_message_ok m"
  using assms by (rule decode_message_sound)

theorem decoded_message_wellformed_witness:
  "parsed_message_ok (response_example\<lparr>m_header := counted_header response_example\<rparr>)"
  using decoded_message_wellformed [OF decode_message_wire [OF wf_response_example, of "[0]"]] .

end
