(* ===== verification/Lru_Interface.thy ===== *)
theory Lru_Interface
  imports Prelude
begin

text \<open>
  The third-party crate \<open>lru\<close>, on which \<open>src/src/resolver/cache.rs\<close> builds.  Its code is not part of
  the repository, so its operations are a parameter of the cache model: a record \<open>lru_ops\<close> over an
  abstract cache type \<open>'c\<close>.  What the cache relies on is the crate's documented behaviour, stated as
  the locale \<open>lru_crate\<close>: \<open>iter\<close> lists the entries from the most to the least recently used one,
  \<open>get\<close> and \<open>get_mut\<close> move an entry to the front, \<open>put\<close> does the same and drops the last entry of a
  full cache, \<open>pop_entry\<close> removes an entry.

  \<open>lru_write c k v\<close> is the assignment \<open>*r = v\<close> through the reference \<open>r\<close> that \<open>get_mut\<close> returned
  for \<open>k\<close>: it changes the value in place.
\<close>

record ('k, 'v, 'c) lru_ops =
  lru_new :: "nat \<Rightarrow> 'c"
  lru_get :: "'c \<Rightarrow> 'k \<Rightarrow> 'v option \<times> 'c"
  lru_write :: "'c \<Rightarrow> 'k \<Rightarrow> 'v \<Rightarrow> 'c"
  lru_put :: "'c \<Rightarrow> 'k \<Rightarrow> 'v \<Rightarrow> 'c"
  lru_pop :: "'c \<Rightarrow> 'k \<Rightarrow> 'c"
  lru_iter :: "'c \<Rightarrow> ('k \<times> 'v) list"
  lru_clear :: "'c \<Rightarrow> 'c"
  lru_len :: "'c \<Rightarrow> nat"

section \<open>Recency lists\<close>

text \<open>The documented effect of each operation on the list of entries, most recently used first.\<close>

definition mru_without :: "'k \<Rightarrow> ('k \<times> 'v) list \<Rightarrow> ('k \<times> 'v) list" where
  "mru_without k xs = filter (\<lambda>p. fst p \<noteq> k) xs"

definition mru_touch :: "'k \<Rightarrow> ('k \<times> 'v) list \<Rightarrow> ('k \<times> 'v) list" where
  "mru_touch k xs =
     (case map_of xs k of None \<Rightarrow> xs | Some v \<Rightarrow> (k, v) # mru_without k xs)"

definition mru_write :: "'k \<Rightarrow> 'v \<Rightarrow> ('k \<times> 'v) list \<Rightarrow> ('k \<times> 'v) list" where
  "mru_write k v xs = map (\<lambda>p. if fst p = k then (k, v) else p) xs"

definition mru_put :: "nat \<Rightarrow> 'k \<Rightarrow> 'v \<Rightarrow> ('k \<times> 'v) list \<Rightarrow> ('k \<times> 'v) list" where
  "mru_put n k v xs = take n ((k, v) # mru_without k xs)"

lemma map_of_filter_key: "map_of (filter (\<lambda>p. fst p \<noteq> k) xs) = (map_of xs)(k := None)"
  by (induction xs) (auto simp: fun_eq_iff)

lemma map_of_without [simp]: "map_of (mru_without k xs) = (map_of xs)(k := None)"
  by (simp add: mru_without_def map_of_filter_key)

lemma map_of_touch [simp]: "map_of (mru_touch k xs) = map_of xs"
  by (auto simp: mru_touch_def fun_eq_iff split: option.splits)

lemma map_of_write_at:
  "map_of (mru_write k v xs) l =
     (if l = k then map_option (\<lambda>u. v) (map_of xs k) else map_of xs l)"
  by (induction xs) (auto simp: mru_write_def)

lemma map_of_write:
  "map_of xs k = Some u \<Longrightarrow> map_of (mru_write k v xs) = (map_of xs)(k \<mapsto> v)"
  by (simp add: fun_eq_iff map_of_write_at)

lemma length_write [simp]: "length (mru_write k v xs) = length xs"
  by (simp add: mru_write_def)

lemma write_write [simp]: "mru_write k v (mru_write k u xs) = mru_write k v xs"
  by (induction xs) (auto simp: mru_write_def)

lemma without_write [simp]: "mru_without k (mru_write k v xs) = mru_without k xs"
  by (induction xs) (auto simp: mru_write_def mru_without_def)

lemma set_without: "set (mru_without k xs) = {p \<in> set xs. fst p \<noteq> k}"
  by (auto simp: mru_without_def)

lemma distinct_without: "distinct (map fst xs) \<Longrightarrow> distinct (map fst (mru_without k xs))"
  by (simp add: mru_without_def distinct_map_filter)

lemma key_not_in_without: "k \<notin> fst ` set (mru_without k xs)"
  by (auto simp: mru_without_def)

lemma distinct_touch: "distinct (map fst xs) \<Longrightarrow> distinct (map fst (mru_touch k xs))"
  using distinct_without [of xs k] key_not_in_without [of k xs]
  by (auto simp: mru_touch_def split: option.splits)

lemma distinct_put: "distinct (map fst xs) \<Longrightarrow> distinct (map fst (mru_put n k v xs))"
  using distinct_without [of xs k] key_not_in_without [of k xs]
  by (auto simp: mru_put_def take_map [symmetric] intro: distinct_take)

lemma keys_write: "map fst (mru_write k v xs) = map fst xs"
  by (simp add: mru_write_def comp_def if_distrib [of fst] cong: if_cong)

lemma length_without_present:
  "distinct (map fst xs) \<Longrightarrow> map_of xs k = Some v \<Longrightarrow> Suc (length (mru_without k xs)) = length xs"
proof (induction xs)
  case (Cons p xs)
  show ?case
  proof (cases "fst p = k")
    case True
    then have "filter (\<lambda>p. fst p \<noteq> k) xs = xs"
      using Cons.prems(1) by (intro filter_True) (auto simp: image_iff)
    with True show ?thesis by (simp add: mru_without_def)
  next
    case False
    with Cons show ?thesis by (cases p) (simp add: mru_without_def)
  qed
qed simp

lemma length_touch: "distinct (map fst xs) \<Longrightarrow> length (mru_touch k xs) = length xs"
  using length_without_present [of xs k] by (auto simp: mru_touch_def split: option.splits)

lemma length_without_le: "length (mru_without k xs) \<le> length xs"
  by (simp add: mru_without_def)

lemma set_put_subset: "set (mru_put n k v xs) \<subseteq> insert (k, v) (set xs)"
  using set_take_subset [of n "(k, v) # mru_without k xs"]
  by (auto simp: mru_put_def set_without)

lemma set_touch: "set (mru_touch k xs) \<subseteq> set xs"
  by (auto simp: mru_touch_def set_without split: option.splits dest: map_of_SomeD)

text \<open>What a client sees through \<open>get\<close>.\<close>

definition lru_look :: "('k, 'v, 'c) lru_ops \<Rightarrow> 'c \<Rightarrow> 'k \<Rightarrow> 'v option" where
  "lru_look L c = map_of (lru_iter L c)"

section \<open>The interface\<close>

locale lru_crate =
  fixes L :: "('k, 'v, 'c) lru_ops"
    and cap :: "'c \<Rightarrow> nat"
    and ok :: "'c \<Rightarrow> bool"
  assumes iter_distinct: "ok c \<Longrightarrow> distinct (map fst (lru_iter L c))"
    and iter_bound: "ok c \<Longrightarrow> length (lru_iter L c) \<le> cap c"
    and cap_pos: "ok c \<Longrightarrow> 0 < cap c"
    and len_iter: "ok c \<Longrightarrow> lru_len L c = length (lru_iter L c)"
    and new_ok: "0 < n \<Longrightarrow> ok (lru_new L n)"
    and new_iter: "0 < n \<Longrightarrow> lru_iter L (lru_new L n) = []"
    and new_cap: "0 < n \<Longrightarrow> cap (lru_new L n) = n"
    and get_ok: "ok c \<Longrightarrow> ok (snd (lru_get L c k))"
    and get_value: "ok c \<Longrightarrow> fst (lru_get L c k) = map_of (lru_iter L c) k"
    and get_iter: "ok c \<Longrightarrow> lru_iter L (snd (lru_get L c k)) = mru_touch k (lru_iter L c)"
    and get_cap: "ok c \<Longrightarrow> cap (snd (lru_get L c k)) = cap c"
    and write_ok: "ok c \<Longrightarrow> ok (lru_write L c k v)"
    and write_iter: "ok c \<Longrightarrow> lru_iter L (lru_write L c k v) = mru_write k v (lru_iter L c)"
    and write_cap: "ok c \<Longrightarrow> cap (lru_write L c k v) = cap c"
    and put_ok: "ok c \<Longrightarrow> ok (lru_put L c k v)"
    and put_iter: "ok c \<Longrightarrow> lru_iter L (lru_put L c k v) = mru_put (cap c) k v (lru_iter L c)"
    and put_cap: "ok c \<Longrightarrow> cap (lru_put L c k v) = cap c"
    and pop_ok: "ok c \<Longrightarrow> ok (lru_pop L c k)"
    and pop_iter: "ok c \<Longrightarrow> lru_iter L (lru_pop L c k) = mru_without k (lru_iter L c)"
    and pop_cap: "ok c \<Longrightarrow> cap (lru_pop L c k) = cap c"
    and clear_ok: "ok c \<Longrightarrow> ok (lru_clear L c)"
    and clear_iter: "ok c \<Longrightarrow> lru_iter L (lru_clear L c) = []"
    and clear_cap: "ok c \<Longrightarrow> cap (lru_clear L c) = cap c"
begin

lemmas ok_rules = get_ok write_ok put_ok pop_ok clear_ok
lemmas cap_rules = get_cap write_cap put_cap pop_cap clear_cap

lemma look_new: "0 < n \<Longrightarrow> lru_look L (lru_new L n) k = None"
  by (simp add: lru_look_def new_iter)

lemma look_get: "ok c \<Longrightarrow> lru_look L (snd (lru_get L c k)) = lru_look L c"
  by (simp add: lru_look_def get_iter)

lemma get_eq: "ok c \<Longrightarrow> lru_get L c k = (lru_look L c k, snd (lru_get L c k))"
  using get_value [of c k] by (simp add: lru_look_def prod_eq_iff)

lemma look_write: "ok c \<Longrightarrow> lru_look L c k = Some u \<Longrightarrow> lru_look L (lru_write L c k v) = (lru_look L c)(k \<mapsto> v)"
  by (simp add: lru_look_def write_iter map_of_write)

lemma look_pop: "ok c \<Longrightarrow> lru_look L (lru_pop L c k) = (lru_look L c)(k := None)"
  by (simp add: lru_look_def pop_iter)

lemma look_clear: "ok c \<Longrightarrow> lru_look L (lru_clear L c) k = None"
  by (simp add: lru_look_def clear_iter)

lemma look_put_same: "ok c \<Longrightarrow> lru_look L (lru_put L c k v) k = Some v"
  using cap_pos [of c] by (cases "cap c") (auto simp: lru_look_def put_iter mru_put_def)

lemma look_put_other:
  assumes "ok c" "lru_look L (lru_put L c k v) l = Some u" "l \<noteq> k"
  shows "lru_look L c l = Some u"
proof -
  have "(l, u) \<in> set (lru_iter L c)"
    using assms set_put_subset [of "cap c" k v "lru_iter L c"]
    by (auto simp: lru_look_def put_iter dest!: map_of_SomeD)
  then show ?thesis using assms(1) by (simp add: lru_look_def iter_distinct)
qed

lemma look_put_room:
  assumes "ok c" "lru_len L c < cap c \<or> lru_look L c k \<noteq> None"
  shows "lru_look L (lru_put L c k v) = (lru_look L c)(k \<mapsto> v)"
proof -
  have "Suc (length (mru_without k (lru_iter L c))) \<le> cap c"
    using assms iter_bound [OF assms(1)] iter_distinct [OF assms(1)] length_without_le [of k "lru_iter L c"]
      length_without_present [of "lru_iter L c" k]
    by (auto simp: lru_look_def len_iter)
  then show ?thesis
    using assms(1) by (simp add: lru_look_def put_iter mru_put_def fun_eq_iff)
qed

lemma look_iter: "ok c \<Longrightarrow> lru_look L c k = Some v \<longleftrightarrow> (k, v) \<in> set (lru_iter L c)"
  by (simp add: lru_look_def iter_distinct)

lemma len_le_cap: "ok c \<Longrightarrow> lru_len L c \<le> cap c"
  by (simp add: len_iter iter_bound)

end

section \<open>A recency list as a cache\<close>

text \<open>
  A capacity with the list of entries itself satisfies the interface: its laws can hold, and
  concrete caches can be evaluated with it.
\<close>

definition list_lru :: "('k, 'v, nat \<times> ('k \<times> 'v) list) lru_ops" where
  "list_lru =
     \<lparr>lru_new = (\<lambda>n. (n, [])),
      lru_get = (\<lambda>(n, xs) k. (map_of xs k, (n, mru_touch k xs))),
      lru_write = (\<lambda>(n, xs) k v. (n, mru_write k v xs)),
      lru_put = (\<lambda>(n, xs) k v. (n, mru_put n k v xs)),
      lru_pop = (\<lambda>(n, xs) k. (n, mru_without k xs)),
      lru_iter = snd, lru_clear = (\<lambda>(n, xs). (n, [])), lru_len = (\<lambda>(n, xs). length xs)\<rparr>"

definition list_lru_ok :: "nat \<times> ('k \<times> 'v) list \<Rightarrow> bool" where
  "list_lru_ok c \<longleftrightarrow> 0 < fst c \<and> length (snd c) \<le> fst c \<and> distinct (map fst (snd c))"

lemma length_put_le: "length (mru_put n k v xs) \<le> n"
  by (simp add: mru_put_def)

interpretation listlru: lru_crate list_lru fst list_lru_ok
  by unfold_locales
    (auto simp: list_lru_def list_lru_ok_def distinct_touch distinct_put distinct_without
      keys_write length_touch length_put_le intro: order_trans [OF length_without_le])

end
