(* ===== verification/Dns_Cache.thy ===== *)
theory Dns_Cache
  imports Dns_Data Lru_Interface
begin

text \<open>
  The response cache of \<open>src/src/resolver/cache.rs\<close>: records by (name, type, class) with TTL
  expiry, the stale store of RFC 8767, and the hit counters.

  Time is a natural number of nanoseconds.  Each operation takes the readings of
  \<open>Instant::now()\<close> it makes: one instant \<open>now\<close>, or a \<open>clock\<close> whose \<open>i\<close>-th value is the \<open>i\<close>-th
  reading, where the code reads the clock once per entry.  Subtraction of instants saturates, as
  \<open>duration_since\<close> and \<open>saturating_duration_since\<close> do.  The LRU stores are those of the crate
  \<open>lru\<close>, the parameter \<open>L\<close>.
\<close>

section \<open>Data\<close>

type_synonym cache_key = "bytes \<times> u16 \<times> u16"

record cache_entry =
  ce_record :: resource_record
  ce_expires_at :: nat

record 'c dns_cache =
  c_entries :: 'c
  c_stale_entries :: 'c
  c_max_entries :: nat
  c_hits :: u64
  c_misses :: u64

type_synonym 'c cache_store = "(cache_key, cache_entry list, 'c) lru_ops"

definition NANOS :: nat where "NANOS = 1000000000"
definition MAX_CACHE_ENTRIES :: nat where "MAX_CACHE_ENTRIES = 100000"
definition STALE_MAX_AGE :: nat where "STALE_MAX_AGE = 6 * 3600 * NANOS"
definition STALE_MAX_ENTRIES :: nat where "STALE_MAX_ENTRIES = 50000"
definition MAX_RECORDS_PER_KEY :: nat where "MAX_RECORDS_PER_KEY = 16"

definition is_expired :: "nat \<Rightarrow> cache_entry \<Rightarrow> bool" where
  "is_expired now e \<longleftrightarrow> ce_expires_at e \<le> now"

definition ttl_remaining :: "nat \<Rightarrow> cache_entry \<Rightarrow> u32" where
  "ttl_remaining now e = of_nat ((ce_expires_at e - now) div NANOS)"

section \<open>Operations\<close>

definition cache_new :: "'c cache_store \<Rightarrow> 'c dns_cache" where
  "cache_new L =
     \<lparr>c_entries = lru_new L MAX_CACHE_ENTRIES, c_stale_entries = lru_new L STALE_MAX_ENTRIES,
      c_max_entries = MAX_CACHE_ENTRIES, c_hits = 0, c_misses = 0\<rparr>"

definition with_max_entries :: "'c cache_store \<Rightarrow> nat \<Rightarrow> 'c dns_cache" where
  "with_max_entries L n =
     \<lparr>c_entries = lru_new L (max n 1),
      c_stale_entries = lru_new L (min (max (n div 5) 1000) STALE_MAX_ENTRIES),
      c_max_entries = n, c_hits = 0, c_misses = 0\<rparr>"

definition cache_insert ::
  "'c cache_store \<Rightarrow> nat \<Rightarrow> bytes \<Rightarrow> u16 \<Rightarrow> u16 \<Rightarrow> u32 \<Rightarrow> bytes \<Rightarrow> u16 \<Rightarrow> 'c dns_cache \<Rightarrow> 'c dns_cache" where
  "cache_insert L now name rtype rclass ttl rdata rdlength c =
     (if ttl = 0 then c
      else
        let ttl = min ttl 86400;
            expires_at = now + unat ttl * NANOS;
            record = \<lparr>rr_name = name, rr_type = rtype, rr_class = rclass, rr_ttl = ttl,
                      rr_rdlength = rdlength, rr_rdata = rdata, rr_parsed = None\<rparr>;
            key = (name, rtype, rclass);
            entry = \<lparr>ce_record = record, ce_expires_at = expires_at\<rparr>
        in case lru_get L (c_entries c) key of
             (Some vec, es) \<Rightarrow>
               if list_ex (\<lambda>e. rr_rdata (ce_record e) = rdata) vec then c\<lparr>c_entries := es\<rparr>
               else let vec = (if MAX_RECORDS_PER_KEY \<le> length vec then tl vec else vec) in
                 c\<lparr>c_entries := lru_write L es key (vec @ [entry])\<rparr>
           | (None, es) \<Rightarrow> c\<lparr>c_entries := lru_put L es key [entry]\<rparr>)"

text \<open>The \<open>drain(..)\<close> loop of \<open>lookup\<close>: fresh and expired entries, one clock reading each.\<close>

fun drain_entries ::
  "(nat \<Rightarrow> nat) \<Rightarrow> nat \<Rightarrow> cache_entry list \<Rightarrow> cache_entry list \<times> cache_entry list" where
  "drain_entries clock i [] = ([], [])"
| "drain_entries clock i (e # es) =
     (let (fresh, stale) = drain_entries clock (i + 1) es in
      if is_expired (clock i) e then (fresh, e # stale) else (e # fresh, stale))"

text \<open>The \<open>map\<close> over the fresh entries, with the running minimum of the TTLs.\<close>

fun fresh_records ::
  "(nat \<Rightarrow> nat) \<Rightarrow> nat \<Rightarrow> u32 \<Rightarrow> cache_entry list \<Rightarrow> resource_record list \<times> u32" where
  "fresh_records clock i min_ttl [] = ([], min_ttl)"
| "fresh_records clock i min_ttl (e # es) =
     (let ttl_rem = ttl_remaining (clock i) e;
          (recs, min_ttl) = fresh_records clock (i + 1) (min min_ttl ttl_rem) es
      in ((ce_record e)\<lparr>rr_ttl := ttl_rem\<rparr> # recs, min_ttl))"

definition cache_lookup ::
  "'c cache_store \<Rightarrow> (nat \<Rightarrow> nat) \<Rightarrow> bytes \<Rightarrow> u16 \<Rightarrow> u16 \<Rightarrow> 'c dns_cache \<Rightarrow>
     (resource_record list \<times> u32) option \<times> 'c dns_cache" where
  "cache_lookup L clock name rtype rclass c =
     (let key = (name, rtype, rclass) in
      case lru_get L (c_entries c) key of
        (Some vec, es) \<Rightarrow>
          let (fresh, stale) = drain_entries clock 0 vec;
              es = lru_write L es key [];
              c = (if stale = [] then c
                   else c\<lparr>c_stale_entries := lru_put L (c_stale_entries c) key stale\<rparr>)
          in if fresh = [] then
               (None, c\<lparr>c_entries := lru_pop L es key, c_misses := c_misses c + 1\<rparr>)
             else
               (Some (fresh_records clock (length vec) 0xffffffff fresh),
                c\<lparr>c_entries := lru_write L es key fresh, c_hits := c_hits c + 1\<rparr>)
      | (None, es) \<Rightarrow> (None, c\<lparr>c_entries := es, c_misses := c_misses c + 1\<rparr>))"

definition lookup_stale ::
  "'c cache_store \<Rightarrow> nat \<Rightarrow> bytes \<Rightarrow> u16 \<Rightarrow> u16 \<Rightarrow> 'c dns_cache \<Rightarrow>
     resource_record list option \<times> 'c dns_cache" where
  "lookup_stale L now name rtype rclass c =
     (let key = (name, rtype, rclass) in
      case lru_get L (c_stale_entries c) key of
        (Some vec, st) \<Rightarrow>
          let usable = filter (\<lambda>e. now - ce_expires_at e < STALE_MAX_AGE) vec in
          if usable = [] then (None, c\<lparr>c_stale_entries := lru_pop L st key\<rparr>)
          else (Some (map (\<lambda>e. (ce_record e)\<lparr>rr_ttl := 0\<rparr>) usable), c\<lparr>c_stale_entries := st\<rparr>)
      | (None, st) \<Rightarrow> (None, c\<lparr>c_stale_entries := st\<rparr>))"

fun insert_records ::
  "'c cache_store \<Rightarrow> (nat \<Rightarrow> nat) \<Rightarrow> nat \<Rightarrow> resource_record list \<Rightarrow> 'c dns_cache \<Rightarrow> 'c dns_cache" where
  "insert_records L clock i [] c = c"
| "insert_records L clock i (rec # recs) c =
     insert_records L clock (i + 1) recs
       (cache_insert L (clock i) (rr_name rec) (rr_type rec) (rr_class rec) (rr_ttl rec)
          (rr_rdata rec) (rr_rdlength rec) c)"

definition purge_expired :: "'c cache_store \<Rightarrow> nat \<Rightarrow> 'c dns_cache \<Rightarrow> 'c dns_cache" where
  "purge_expired L now c =
     (let too_old = map fst (filter (\<lambda>(k, vec).
            list_all (\<lambda>e. STALE_MAX_AGE \<le> now - ce_expires_at e) vec)
            (lru_iter L (c_stale_entries c)))
      in c\<lparr>c_stale_entries := fold (\<lambda>key st. lru_pop L st key) too_old (c_stale_entries c)\<rparr>)"

definition cache_clear :: "'c cache_store \<Rightarrow> 'c dns_cache \<Rightarrow> 'c dns_cache" where
  "cache_clear L c =
     c\<lparr>c_entries := lru_clear L (c_entries c), c_stale_entries := lru_clear L (c_stale_entries c),
       c_hits := 0, c_misses := 0\<rparr>"

definition cache_len :: "'c cache_store \<Rightarrow> 'c dns_cache \<Rightarrow> nat" where
  "cache_len L c = lru_len L (c_entries c)"

definition cache_is_empty :: "'c cache_store \<Rightarrow> 'c dns_cache \<Rightarrow> bool" where
  "cache_is_empty L c \<longleftrightarrow> lru_len L (c_entries c) = 0 \<and> lru_len L (c_stale_entries c) = 0"

definition stale_len :: "'c cache_store \<Rightarrow> 'c dns_cache \<Rightarrow> nat" where
  "stale_len L c = lru_len L (c_stale_entries c)"

section \<open>The invariant\<close>

text \<open>
  A key maps to at least one and at most sixteen entries with pairwise different RDATA, each of
  them a record of that key, unparsed, with a TTL between one second and a day, that expires
  within a day of the instant \<open>t\<close>.
\<close>

definition entry_ok :: "nat \<Rightarrow> cache_key \<Rightarrow> cache_entry \<Rightarrow> bool" where
  "entry_ok t k e \<longleftrightarrow>
     (rr_name (ce_record e), rr_type (ce_record e), rr_class (ce_record e)) = k \<and>
     rr_parsed (ce_record e) = None \<and> 0 < rr_ttl (ce_record e) \<and> rr_ttl (ce_record e) \<le> 86400 \<and>
     ce_expires_at e \<le> t + 86400 * NANOS"

definition vec_ok :: "nat \<Rightarrow> cache_key \<Rightarrow> cache_entry list \<Rightarrow> bool" where
  "vec_ok t k vec \<longleftrightarrow> vec \<noteq> [] \<and> length vec \<le> MAX_RECORDS_PER_KEY \<and>
     distinct (map (\<lambda>e. rr_rdata (ce_record e)) vec) \<and> (\<forall>e \<in> set vec. entry_ok t k e)"

definition store_ok :: "'c cache_store \<Rightarrow> ('c \<Rightarrow> bool) \<Rightarrow> nat \<Rightarrow> 'c \<Rightarrow> bool" where
  "store_ok L ok t s \<longleftrightarrow> ok s \<and> (\<forall>(k, vec) \<in> set (lru_iter L s). vec_ok t k vec)"

definition cache_inv :: "'c cache_store \<Rightarrow> ('c \<Rightarrow> bool) \<Rightarrow> nat \<Rightarrow> 'c dns_cache \<Rightarrow> bool" where
  "cache_inv L ok t c \<longleftrightarrow> store_ok L ok t (c_entries c) \<and> store_ok L ok t (c_stale_entries c)"

lemma store_ok_mono: "store_ok L ok t s \<Longrightarrow> t \<le> t' \<Longrightarrow> store_ok L ok t' s"
  by (fastforce simp: store_ok_def vec_ok_def entry_ok_def)

lemma cache_inv_mono: "cache_inv L ok t c \<Longrightarrow> t \<le> t' \<Longrightarrow> cache_inv L ok t' c"
  by (auto simp: cache_inv_def intro: store_ok_mono)

lemma drain_entries_fresh_subseq: "subseq (fst (drain_entries clock i vec)) vec"
  by (induction vec arbitrary: i) (auto simp: case_prod_unfold Let_def)

lemma drain_entries_stale_subseq: "subseq (snd (drain_entries clock i vec)) vec"
  by (induction vec arbitrary: i) (auto simp: case_prod_unfold Let_def)

lemma vec_ok_subseq:
  assumes "vec_ok t k vec" "subseq vec' vec" "vec' \<noteq> []"
  shows "vec_ok t k vec'"
proof -
  obtain I where "vec' = nths vec I" using assms(2) by (auto simp: subseq_conv_nths)
  then have "distinct (map (\<lambda>e. rr_rdata (ce_record e)) vec')"
    using assms(1) by (simp add: vec_ok_def flip: nths_map)
  moreover have "set vec' \<subseteq> set vec" "length vec' \<le> length vec"
    using assms(2) by (auto dest: list_emb_length elim: list_emb_set)
  ultimately show ?thesis using assms(1,3) by (auto simp: vec_ok_def)
qed

lemma distinct_map_tl: "distinct (map f xs) \<Longrightarrow> distinct (map f (tl xs))"
  by (cases xs) auto

locale cache_lru = lru_crate L cap ok
  for L :: "(cache_key, cache_entry list, 'c) lru_ops" and cap :: "'c \<Rightarrow> nat" and ok :: "'c \<Rightarrow> bool"
begin

lemma store_ok_look: "store_ok L ok t s \<Longrightarrow> lru_look L s k = Some vec \<Longrightarrow> vec_ok t k vec"
  by (auto simp: store_ok_def look_iter)

lemma store_ok_get: "store_ok L ok t s \<Longrightarrow> store_ok L ok t (snd (lru_get L s k))"
  using set_touch [of k "lru_iter L s"] by (auto simp: store_ok_def get_ok get_iter)

lemma store_ok_write: "store_ok L ok t s \<Longrightarrow> vec_ok t k vec \<Longrightarrow> store_ok L ok t (lru_write L s k vec)"
  by (auto simp: store_ok_def write_ok write_iter mru_write_def)

lemma store_ok_put: "store_ok L ok t s \<Longrightarrow> vec_ok t k vec \<Longrightarrow> store_ok L ok t (lru_put L s k vec)"
  using set_put_subset [of "cap s" k vec "lru_iter L s"]
  by (auto simp: store_ok_def put_ok put_iter)

lemma store_ok_pop: "store_ok L ok t s \<Longrightarrow> store_ok L ok t (lru_pop L s k)"
  by (auto simp: store_ok_def pop_ok pop_iter set_without)

lemma store_ok_new: "0 < n \<Longrightarrow> store_ok L ok t (lru_new L n)"
  by (simp add: store_ok_def new_ok new_iter)

lemma store_ok_clear: "store_ok L ok t s \<Longrightarrow> store_ok L ok t (lru_clear L s)"
  by (simp add: store_ok_def clear_ok clear_iter)

end

definition new_entry :: "nat \<Rightarrow> bytes \<Rightarrow> u16 \<Rightarrow> u16 \<Rightarrow> u32 \<Rightarrow> bytes \<Rightarrow> u16 \<Rightarrow> cache_entry" where
  "new_entry now name rtype rclass ttl rdata rdlength =
     \<lparr>ce_record = \<lparr>rr_name = name, rr_type = rtype, rr_class = rclass, rr_ttl = min ttl 86400,
        rr_rdlength = rdlength, rr_rdata = rdata, rr_parsed = None\<rparr>,
      ce_expires_at = now + unat (min ttl 86400) * NANOS\<rparr>"

lemma entry_ok_new:
  assumes "ttl \<noteq> 0" "now \<le> t"
  shows "entry_ok t (name, rtype, rclass) (new_entry now name rtype rclass ttl rdata rdlength)"
proof -
  have "min ttl 86400 \<le> 86400" by simp
  then have "unat (min ttl 86400) \<le> 86400" by (simp only: word_le_nat_alt) simp
  then have "now + unat (min ttl 86400) * NANOS \<le> t + 86400 * NANOS"
    using assms(2) by (intro add_mono mult_le_mono1)
  then show ?thesis using assms
    by (auto simp: entry_ok_def new_entry_def min_def word_gt_0)
qed

lemma vec_ok_single: "entry_ok t k e \<Longrightarrow> vec_ok t k [e]"
  by (simp add: vec_ok_def MAX_RECORDS_PER_KEY_def)

lemma vec_ok_push:
  assumes "vec_ok t k vec" "entry_ok t k e" "\<not> list_ex (\<lambda>x. rr_rdata (ce_record x) = rr_rdata (ce_record e)) vec"
  shows "vec_ok t k ((if MAX_RECORDS_PER_KEY \<le> length vec then tl vec else vec) @ [e])"
proof -
  have "rr_rdata (ce_record e) \<notin> rr_rdata ` ce_record ` set vec"
    using assms(3) by (auto simp: list_ex_iff image_image)
  moreover have "set (tl vec) \<subseteq> set vec" by (cases vec) auto
  ultimately show ?thesis using assms(1,2)
    by (auto simp: vec_ok_def MAX_RECORDS_PER_KEY_def distinct_map_tl image_image image_iff)
qed

context cache_lru
begin

lemma insert_eq:
  fixes name rdata :: bytes and rtype rclass rdlength :: u16 and ttl :: u32 and now :: nat
    and c :: "'c dns_cache"
  assumes "ok (c_entries c)" "ttl \<noteq> 0"
  defines "k \<equiv> (name, rtype, rclass)"
    and "e \<equiv> new_entry now name rtype rclass ttl rdata rdlength"
    and "es \<equiv> snd (lru_get L (c_entries c) (name, rtype, rclass))"
  shows "cache_insert L now name rtype rclass ttl rdata rdlength c =
    c\<lparr>c_entries :=
      (case lru_look L (c_entries c) k of
         None \<Rightarrow> lru_put L es k [e]
       | Some vec \<Rightarrow>
           if list_ex (\<lambda>x. rr_rdata (ce_record x) = rdata) vec then es
           else lru_write L es k ((if MAX_RECORDS_PER_KEY \<le> length vec then tl vec else vec) @ [e]))\<rparr>"
proof (cases "lru_get L (c_entries c) (name, rtype, rclass)")
  case (Pair r s)
  then have "lru_look L (c_entries c) (name, rtype, rclass) = r"
    using get_eq [OF assms(1), of "(name, rtype, rclass)"] by simp
  with Pair show ?thesis using assms(2)
    by (cases r) (simp_all add: cache_insert_def Let_def new_entry_def k_def e_def es_def)
qed

lemma insert_inv:
  assumes "cache_inv L ok t c" "now \<le> t"
  shows "cache_inv L ok t (cache_insert L now name rtype rclass ttl rdata rdlength c)"
proof (cases "ttl = 0")
  case True
  with assms show ?thesis by (simp add: cache_insert_def)
next
  case False
  let ?k = "(name, rtype, rclass)" and ?e = "new_entry now name rtype rclass ttl rdata rdlength"
  have st: "store_ok L ok t (c_entries c)" and okc: "ok (c_entries c)"
    using assms by (auto simp: cache_inv_def store_ok_def)
  have e: "entry_ok t ?k ?e" using False assms(2) by (rule entry_ok_new)
  have rd: "rr_rdata (ce_record ?e) = rdata" by (simp add: new_entry_def)
  have "store_ok L ok t (c_entries (cache_insert L now name rtype rclass ttl rdata rdlength c))"
    using st e vec_ok_push [OF store_ok_look [OF st] e] rd
    by (auto simp: insert_eq [OF okc False] split: option.splits
        intro!: store_ok_get store_ok_put store_ok_write vec_ok_single)
  moreover have "c_stale_entries (cache_insert L now name rtype rclass ttl rdata rdlength c) = c_stale_entries c"
    by (simp add: insert_eq [OF okc False])
  ultimately show ?thesis using assms by (simp add: cache_inv_def)
qed

lemma insert_records_inv:
  "cache_inv L ok t c \<Longrightarrow> \<forall>j. clock j \<le> t \<Longrightarrow> cache_inv L ok t (insert_records L clock i recs c)"
  by (induction recs arbitrary: i c) (auto intro: insert_inv)

lemma lookup_eq:
  fixes name :: bytes and rtype rclass :: u16 and c :: "'c dns_cache"
  assumes "ok (c_entries c)"
  defines "k \<equiv> (name, rtype, rclass)"
    and "es \<equiv> snd (lru_get L (c_entries c) (name, rtype, rclass))"
  shows "cache_lookup L clock name rtype rclass c =
    (case lru_look L (c_entries c) k of
       None \<Rightarrow> (None, c\<lparr>c_entries := es, c_misses := c_misses c + 1\<rparr>)
     | Some vec \<Rightarrow>
         let fresh = fst (drain_entries clock 0 vec); stale = snd (drain_entries clock 0 vec);
             es = lru_write L es k [];
             c = (if stale = [] then c
                  else c\<lparr>c_stale_entries := lru_put L (c_stale_entries c) k stale\<rparr>)
         in if fresh = [] then (None, c\<lparr>c_entries := lru_pop L es k, c_misses := c_misses c + 1\<rparr>)
            else (Some (fresh_records clock (length vec) 0xffffffff fresh),
                  c\<lparr>c_entries := lru_write L es k fresh, c_hits := c_hits c + 1\<rparr>))"
proof (cases "lru_get L (c_entries c) (name, rtype, rclass)")
  case (Pair r s)
  then have "lru_look L (c_entries c) (name, rtype, rclass) = r"
    using get_eq [OF assms(1), of "(name, rtype, rclass)"] by simp
  with Pair show ?thesis
    by (cases r) (simp_all add: cache_lookup_def Let_def k_def es_def case_prod_unfold)
qed

lemma store_ok_iter_cong:
  "store_ok L ok t s \<Longrightarrow> ok s' \<Longrightarrow> lru_iter L s' = lru_iter L s \<Longrightarrow> store_ok L ok t s'"
  by (simp add: store_ok_def)

lemma lookup_inv:
  assumes "cache_inv L ok t c"
  shows "cache_inv L ok t (snd (cache_lookup L clock name rtype rclass c))"
proof -
  let ?k = "(name, rtype, rclass)" and ?es = "snd (lru_get L (c_entries c) (name, rtype, rclass))"
  have st: "store_ok L ok t (c_entries c)" "store_ok L ok t (c_stale_entries c)" and okc: "ok (c_entries c)"
    using assms by (auto simp: cache_inv_def store_ok_def)
  have es: "store_ok L ok t ?es" "ok ?es" using store_ok_get [OF st(1)] by (auto simp: store_ok_def)
  show ?thesis
  proof (cases "lru_look L (c_entries c) ?k")
    case None
    with es st show ?thesis by (simp add: lookup_eq [OF okc] cache_inv_def)
  next
    case (Some vec)
    let ?d = "drain_entries clock 0 vec"
    have vec: "vec_ok t ?k vec" using store_ok_look [OF st(1) Some] .
    have stale: "snd ?d \<noteq> [] \<Longrightarrow> store_ok L ok t (lru_put L (c_stale_entries c) ?k (snd ?d))"
      using vec_ok_subseq [OF vec drain_entries_stale_subseq] by (intro store_ok_put st)
    have pop: "store_ok L ok t (lru_pop L (lru_write L ?es ?k []) ?k)"
      using es by (intro store_ok_iter_cong [OF store_ok_pop [OF es(1), of ?k]])
        (simp_all add: pop_ok write_ok pop_iter write_iter)
    have fresh: "fst ?d \<noteq> [] \<Longrightarrow>
        store_ok L ok t (lru_write L (lru_write L ?es ?k []) ?k (fst ?d))"
      using es vec_ok_subseq [OF vec drain_entries_fresh_subseq]
      by (intro store_ok_iter_cong [OF store_ok_write [OF es(1), of ?k "fst ?d"]])
        (simp_all add: write_ok write_iter)
    show ?thesis using Some stale pop fresh st
      by (auto simp: lookup_eq [OF okc] cache_inv_def Let_def)
  qed
qed

lemma lookup_stale_eq:
  fixes name :: bytes and rtype rclass :: u16 and c :: "'c dns_cache"
  assumes "ok (c_stale_entries c)"
  defines "k \<equiv> (name, rtype, rclass)"
    and "st \<equiv> snd (lru_get L (c_stale_entries c) (name, rtype, rclass))"
  shows "lookup_stale L now name rtype rclass c =
    (case lru_look L (c_stale_entries c) k of
       None \<Rightarrow> (None, c\<lparr>c_stale_entries := st\<rparr>)
     | Some vec \<Rightarrow>
         let usable = filter (\<lambda>e. now - ce_expires_at e < STALE_MAX_AGE) vec in
         if usable = [] then (None, c\<lparr>c_stale_entries := lru_pop L st k\<rparr>)
         else (Some (map (\<lambda>e. (ce_record e)\<lparr>rr_ttl := 0\<rparr>) usable), c\<lparr>c_stale_entries := st\<rparr>))"
proof (cases "lru_get L (c_stale_entries c) (name, rtype, rclass)")
  case (Pair r s)
  then have "lru_look L (c_stale_entries c) (name, rtype, rclass) = r"
    using get_eq [OF assms(1), of "(name, rtype, rclass)"] by simp
  with Pair show ?thesis
    by (cases r) (simp_all add: lookup_stale_def Let_def k_def st_def)
qed

lemma lookup_stale_inv:
  assumes "cache_inv L ok t c"
  shows "cache_inv L ok t (snd (lookup_stale L now name rtype rclass c))"
proof -
  have st: "store_ok L ok t (c_stale_entries c)" and okc: "ok (c_stale_entries c)"
    using assms by (auto simp: cache_inv_def store_ok_def)
  then show ?thesis using assms
    by (auto simp: lookup_stale_eq [OF okc] cache_inv_def Let_def split: option.splits
        intro!: store_ok_get store_ok_pop)
qed

lemma store_ok_fold_pop: "store_ok L ok t s \<Longrightarrow> store_ok L ok t (fold (\<lambda>key st. lru_pop L st key) keys s)"
  by (induction keys arbitrary: s) (auto intro: store_ok_pop)

lemma purge_inv: "cache_inv L ok t c \<Longrightarrow> cache_inv L ok t (purge_expired L now c)"
  by (simp add: purge_expired_def cache_inv_def store_ok_fold_pop)

lemma clear_inv: "cache_inv L ok t c \<Longrightarrow> cache_inv L ok t (cache_clear L c)"
  by (simp add: cache_clear_def cache_inv_def store_ok_clear)

lemma with_max_entries_inv: "cache_inv L ok t (with_max_entries L n)"
  by (simp add: with_max_entries_def cache_inv_def store_ok_new STALE_MAX_ENTRIES_def)

lemma new_inv: "cache_inv L ok t (cache_new L)"
  by (simp add: cache_new_def cache_inv_def store_ok_new MAX_CACHE_ENTRIES_def STALE_MAX_ENTRIES_def)

end

section \<open>What a lookup returns\<close>

lemma drain_fresh_iff:
  "e \<in> set (fst (drain_entries clock i vec)) \<longleftrightarrow>
     (\<exists>j < length vec. vec ! j = e \<and> \<not> is_expired (clock (i + j)) e)"
proof (induction vec arbitrary: i)
  case (Cons x vec)
  show ?case
    by (auto simp: case_prod_unfold Let_def Cons.IH less_Suc_eq_0_disj)
qed simp

lemma fresh_records_nth:
  "length (fst (fresh_records clock i m es)) = length es \<and>
   (\<forall>j < length es. fst (fresh_records clock i m es) ! j =
      (ce_record (es ! j))\<lparr>rr_ttl := ttl_remaining (clock (i + j)) (es ! j)\<rparr>)"
proof (induction es arbitrary: i m)
  case (Cons e es)
  then show ?case by (auto simp: case_prod_unfold Let_def nth_Cons split: nat.splits)
qed simp

lemma fresh_records_min:
  "snd (fresh_records clock i m es) = fold min (map rr_ttl (fst (fresh_records clock i m es))) m"
  by (induction es arbitrary: i m) (auto simp: case_prod_unfold Let_def min.commute)

lemma fold_min_le: "fold min xs (m :: u32) \<le> m \<and> (\<forall>x \<in> set xs. fold min xs m \<le> x)"
proof (induction xs arbitrary: m)
  case (Cons x xs)
  then show ?case by (auto intro: order_trans [OF conjunct1 [OF Cons]])
qed simp

lemma fresh_record_from:
  assumes "r \<in> set (fst (fresh_records clock i m es))"
  obtains j where "j < length es"
    "r = (ce_record (es ! j))\<lparr>rr_ttl := ttl_remaining (clock (i + j)) (es ! j)\<rparr>"
  using assms fresh_records_nth [of clock i m es] that by (metis in_set_conv_nth)

lemma fresh_record_of:
  assumes "e \<in> set es"
  shows "\<exists>j. (ce_record e)\<lparr>rr_ttl := ttl_remaining (clock j) e\<rparr> \<in> set (fst (fresh_records clock i m es))"
  using assms fresh_records_nth [of clock i m es] by (metis in_set_conv_nth)

lemma vec_push_last: "e \<in> set ((if MAX_RECORDS_PER_KEY \<le> length vec then tl vec else vec) @ [e])"
  by simp

lemma ttl_remaining_bound:
  assumes "ce_expires_at e \<le> t + 86400 * NANOS" "t \<le> now"
  shows "ttl_remaining now e \<le> 86400"
proof -
  have "(ce_expires_at e - now) div NANOS \<le> 86400 * NANOS div NANOS"
    using assms by (intro div_le_mono) simp
  then have "(ce_expires_at e - now) div NANOS \<le> 86400" by (simp add: NANOS_def)
  then show ?thesis by (simp add: ttl_remaining_def word_le_nat_alt)
qed

context cache_lru
begin

lemma look_insert:
  assumes "ok (c_entries c)" "ttl \<noteq> 0"
  shows "lru_look L (c_entries (cache_insert L now name rtype rclass ttl rdata rdlength c)) (name, rtype, rclass) =
    (case lru_look L (c_entries c) (name, rtype, rclass) of
       None \<Rightarrow> Some [new_entry now name rtype rclass ttl rdata rdlength]
     | Some vec \<Rightarrow>
         if list_ex (\<lambda>x. rr_rdata (ce_record x) = rdata) vec then Some vec
         else Some ((if MAX_RECORDS_PER_KEY \<le> length vec then tl vec else vec) @
           [new_entry now name rtype rclass ttl rdata rdlength]))"
  using assms
  by (simp add: insert_eq look_put_same look_get look_write get_ok split: option.splits)

lemma ok_insert:
  assumes "ok (c_entries c)"
  shows "ok (c_entries (cache_insert L now name rtype rclass ttl rdata rdlength c))"
proof (cases "ttl = 0")
  case False
  then show ?thesis using assms
    by (simp add: insert_eq get_ok put_ok write_ok split: option.splits)
qed (use assms in \<open>simp add: cache_insert_def\<close>)

lemma lookup_after_insert:
  assumes "ok (c_entries c)" "ttl \<noteq> 0"
    and new: "\<forall>vec. lru_look L (c_entries c) (name, rtype, rclass) = Some vec \<longrightarrow>
      \<not> list_ex (\<lambda>x. rr_rdata (ce_record x) = rdata) vec"
    and unexpired: "\<forall>i. clock i < now + unat (min ttl 86400) * NANOS"
  shows "\<exists>recs t i. fst (cache_lookup L clock name rtype rclass
      (cache_insert L now name rtype rclass ttl rdata rdlength c)) = Some (recs, t) \<and>
      (ce_record (new_entry now name rtype rclass ttl rdata rdlength))
        \<lparr>rr_ttl := ttl_remaining (clock i) (new_entry now name rtype rclass ttl rdata rdlength)\<rparr>
        \<in> set recs"
proof -
  let ?c = "cache_insert L now name rtype rclass ttl rdata rdlength c"
  let ?e = "new_entry now name rtype rclass ttl rdata rdlength"
  have "\<exists>vec. lru_look L (c_entries ?c) (name, rtype, rclass) = Some vec \<and> ?e \<in> set vec"
    using new by (cases "lru_look L (c_entries c) (name, rtype, rclass)")
      (simp_all add: look_insert [OF assms(1,2)])
  then obtain vec where vec: "lru_look L (c_entries ?c) (name, rtype, rclass) = Some vec"
    "?e \<in> set vec" by blast
  have "\<not> is_expired (clock i) ?e" for i
    using unexpired by (simp add: is_expired_def new_entry_def not_le)
  then have fresh: "?e \<in> set (fst (drain_entries clock 0 vec))"
    using vec(2) unfolding drain_fresh_iff by (metis in_set_conv_nth)
  let ?r = "fresh_records clock (length vec) 0xffffffff (fst (drain_entries clock 0 vec))"
  have "fst (cache_lookup L clock name rtype rclass ?c) = Some ?r"
    using fresh by (auto simp: lookup_eq [OF ok_insert [OF assms(1)]] vec(1) Let_def)
  then show ?thesis
    using fresh_record_of [OF fresh, of clock "length vec" "0xffffffff"]
    by (metis prod.collapse)
qed

lemma insert_duplicate:
  assumes "ok (c_entries c)" "lru_look L (c_entries c) (name, rtype, rclass) = Some vec"
    "list_ex (\<lambda>x. rr_rdata (ce_record x) = rdata) vec"
  shows "lru_look L (c_entries (cache_insert L now name rtype rclass ttl rdata rdlength c)) = lru_look L (c_entries c)"
proof (cases "ttl = 0")
  case False
  with assms show ?thesis by (simp add: insert_eq look_get)
qed (simp add: cache_insert_def)

lemma lookup_Some:
  assumes "ok (c_entries c)" "cache_lookup L clock name rtype rclass c = (Some (recs, t), c')"
  obtains vec where "lru_look L (c_entries c) (name, rtype, rclass) = Some vec"
    "fst (drain_entries clock 0 vec) \<noteq> []"
    "recs = fst (fresh_records clock (length vec) 0xffffffff (fst (drain_entries clock 0 vec)))"
    "t = snd (fresh_records clock (length vec) 0xffffffff (fst (drain_entries clock 0 vec)))"
proof (cases "lru_look L (c_entries c) (name, rtype, rclass)")
  case None
  with assms show ?thesis by (simp add: lookup_eq)
next
  case (Some vec)
  with assms have "fst (drain_entries clock 0 vec) \<noteq> [] \<and>
      fresh_records clock (length vec) 0xffffffff (fst (drain_entries clock 0 vec)) = (recs, t)"
    by (simp add: lookup_eq Let_def split: if_splits)
  with Some show ?thesis by (intro that [of vec]) simp_all
qed

lemma lookup_ttl:
  assumes inv: "cache_inv L ok t c" "\<forall>i. t \<le> clock i"
    and hit: "cache_lookup L clock name rtype rclass c = (Some (recs, min_ttl), c')"
  shows "recs \<noteq> []" "\<forall>r \<in> set recs. min_ttl \<le> rr_ttl r \<and> rr_ttl r \<le> 86400 \<and>
      (rr_name r, rr_type r, rr_class r) = (name, rtype, rclass)"
    "length recs \<le> MAX_RECORDS_PER_KEY"
proof -
  have okc: "ok (c_entries c)" and st: "store_ok L ok t (c_entries c)"
    using inv(1) by (auto simp: cache_inv_def store_ok_def)
  obtain vec where vec: "lru_look L (c_entries c) (name, rtype, rclass) = Some vec"
    "fst (drain_entries clock 0 vec) \<noteq> []"
    and recs: "recs = fst (fresh_records clock (length vec) 0xffffffff (fst (drain_entries clock 0 vec)))"
      "min_ttl = snd (fresh_records clock (length vec) 0xffffffff (fst (drain_entries clock 0 vec)))"
    using lookup_Some [OF okc hit] by blast
  let ?fresh = "fst (drain_entries clock 0 vec)"
  have vok: "vec_ok t (name, rtype, rclass) ?fresh"
    using vec_ok_subseq [OF store_ok_look [OF st vec(1)] drain_entries_fresh_subseq vec(2)] .
  show "recs \<noteq> []" "length recs \<le> MAX_RECORDS_PER_KEY"
    using recs vec(2) vok fresh_records_nth [of clock "length vec" "0xffffffff" ?fresh]
    by (auto simp: vec_ok_def simp flip: length_greater_0_conv)
  show "\<forall>r \<in> set recs. min_ttl \<le> rr_ttl r \<and> rr_ttl r \<le> 86400 \<and>
      (rr_name r, rr_type r, rr_class r) = (name, rtype, rclass)"
  proof (intro ballI conjI)
    fix r assume r: "r \<in> set recs"
    then show "min_ttl \<le> rr_ttl r"
      using fold_min_le [of "map rr_ttl recs" "0xffffffff"] recs fresh_records_min by auto
    obtain j where j: "j < length ?fresh"
      "r = (ce_record (?fresh ! j))\<lparr>rr_ttl := ttl_remaining (clock (length vec + j)) (?fresh ! j)\<rparr>"
      using r recs(1) fresh_record_from by blast
    have "ce_expires_at (?fresh ! j) \<le> t + 86400 * NANOS"
      using vok nth_mem [OF j(1)] by (auto simp: vec_ok_def entry_ok_def)
    with j inv(2) show "rr_ttl r \<le> 86400" by (simp add: ttl_remaining_bound)
    show "(rr_name r, rr_type r, rr_class r) = (name, rtype, rclass)"
      using j vok nth_mem [OF j(1)] by (auto simp: vec_ok_def entry_ok_def)
  qed
qed

text \<open>A key whose entries have all expired moves to the stale store.\<close>

lemma drain_all_expired:
  "\<forall>e \<in> set vec. \<forall>i. is_expired (clock i) e \<Longrightarrow> drain_entries clock i vec = ([], vec)"
  by (induction vec arbitrary: i) auto

lemma expired_served_stale:
  assumes inv: "cache_inv L ok t c" and vec: "lru_look L (c_entries c) (name, rtype, rclass) = Some vec"
    and expired: "\<forall>e \<in> set vec. \<forall>i. is_expired (clock i) e"
    and recent: "\<forall>e \<in> set vec. now - ce_expires_at e < STALE_MAX_AGE"
    and miss: "cache_lookup L clock name rtype rclass c = (r, c')"
  shows "r = None" "lru_look L (c_entries c') (name, rtype, rclass) = None"
    "c_misses c' = c_misses c + 1"
    "fst (lookup_stale L now name rtype rclass c') =
       Some (map (\<lambda>e. (ce_record e)\<lparr>rr_ttl := 0\<rparr>) vec)"
proof -
  let ?k = "(name, rtype, rclass)" and ?es = "snd (lru_get L (c_entries c) (name, rtype, rclass))"
  have okc: "ok (c_entries c)" "ok (c_stale_entries c)" "vec \<noteq> []"
    using inv vec by (auto simp: cache_inv_def store_ok_def look_iter vec_ok_def)
  have c': "r = None" "c' = c\<lparr>c_stale_entries := lru_put L (c_stale_entries c) ?k vec,
      c_entries := lru_pop L (lru_write L ?es ?k []) ?k, c_misses := c_misses c + 1\<rparr>"
    using miss okc by (simp_all add: lookup_eq vec drain_all_expired [OF expired])
  then show "r = None" "lru_look L (c_entries c') ?k = None" "c_misses c' = c_misses c + 1"
    using okc by (simp_all add: look_pop write_ok get_ok)
  have "filter (\<lambda>e. now - ce_expires_at e < STALE_MAX_AGE) vec = vec"
    using recent by simp
  then show "fst (lookup_stale L now name rtype rclass c') =
       Some (map (\<lambda>e. (ce_record e)\<lparr>rr_ttl := 0\<rparr>) vec)"
    using okc c' by (simp add: lookup_stale_eq put_ok look_put_same)
qed

text \<open>Purging removes exactly the keys whose entries are all too old.\<close>

lemma look_fold_pop:
  "ok s \<Longrightarrow> lru_look L (fold (\<lambda>key st. lru_pop L st key) keys s) k = (if k \<in> set keys then None else lru_look L s k)"
  by (induction keys arbitrary: s) (auto simp: pop_ok look_pop)

lemma look_purge:
  assumes "ok (c_stale_entries c)"
  shows "lru_look L (c_stale_entries (purge_expired L now c)) k =
    (case lru_look L (c_stale_entries c) k of
       None \<Rightarrow> None
     | Some vec \<Rightarrow> if \<forall>e \<in> set vec. STALE_MAX_AGE \<le> now - ce_expires_at e then None else Some vec)"
proof -
  have "k \<in> fst ` {p \<in> set (lru_iter L (c_stale_entries c)).
          list_all (\<lambda>e. STALE_MAX_AGE \<le> now - ce_expires_at e) (snd p)} \<longleftrightarrow>
      (\<exists>vec. lru_look L (c_stale_entries c) k = Some vec \<and>
         (\<forall>e \<in> set vec. STALE_MAX_AGE \<le> now - ce_expires_at e))"
    by (force simp: look_iter [OF assms] list_all_iff)
  then show ?thesis
    using assms by (auto simp: purge_expired_def look_fold_pop case_prod_unfold split: option.splits)
qed

lemma inv_ok: "cache_inv L ok t c \<Longrightarrow> ok (c_entries c) \<and> ok (c_stale_entries c)"
  by (simp add: cache_inv_def store_ok_def)

lemma cap_insert:
  "ok (c_entries c) \<Longrightarrow>
     cap (c_entries (cache_insert L now name rtype rclass ttl rdata rdlength c)) = cap (c_entries c) \<and>
     c_stale_entries (cache_insert L now name rtype rclass ttl rdata rdlength c) = c_stale_entries c"
  by (cases "ttl = 0")
    (auto simp: cache_insert_def [of L _ _ _ _ 0] insert_eq cap_rules get_ok split: option.splits)

lemma cap_insert_records:
  "cache_inv L ok t c \<Longrightarrow> \<forall>j. clock j \<le> t \<Longrightarrow>
     cap (c_entries (insert_records L clock i recs c)) = cap (c_entries c) \<and>
     cap (c_stale_entries (insert_records L clock i recs c)) = cap (c_stale_entries c)"
proof (induction recs arbitrary: i c)
  case (Cons r recs)
  have "cache_inv L ok t (cache_insert L (clock i) (rr_name r) (rr_type r) (rr_class r) (rr_ttl r)
      (rr_rdata r) (rr_rdlength r) c)"
    using Cons.prems by (intro insert_inv) auto
  from Cons.IH [OF this Cons.prems(2)] show ?case
    using cap_insert [OF conjunct1 [OF inv_ok [OF Cons.prems(1)]]] by simp
qed simp

lemma cap_lookup:
  "cache_inv L ok t c \<Longrightarrow>
     cap (c_entries (snd (cache_lookup L clock name rtype rclass c))) = cap (c_entries c) \<and>
     cap (c_stale_entries (snd (cache_lookup L clock name rtype rclass c))) = cap (c_stale_entries c)"
  using inv_ok [of t c]
  by (simp add: lookup_eq Let_def cap_rules ok_rules split: option.splits)

lemma cap_lookup_stale:
  "cache_inv L ok t c \<Longrightarrow>
     cap (c_entries (snd (lookup_stale L now name rtype rclass c))) = cap (c_entries c) \<and>
     cap (c_stale_entries (snd (lookup_stale L now name rtype rclass c))) = cap (c_stale_entries c)"
  using inv_ok [of t c]
  by (simp add: lookup_stale_eq Let_def cap_rules ok_rules split: option.splits)

lemma cap_fold_pop: "ok s \<Longrightarrow> cap (fold (\<lambda>key st. lru_pop L st key) keys s) = cap s"
  by (induction keys arbitrary: s) (auto simp: pop_ok pop_cap)

lemma cap_purge: 
  "cache_inv L ok t c \<Longrightarrow> cap (c_entries (purge_expired L now c)) = cap (c_entries c) \<and>
     cap (c_stale_entries (purge_expired L now c)) = cap (c_stale_entries c)"
  by (simp add: cache_inv_def store_ok_def purge_expired_def cap_fold_pop)

lemma cap_clear: 
  "cache_inv L ok t c \<Longrightarrow> cap (c_entries (cache_clear L c)) = cap (c_entries c) \<and>
     cap (c_stale_entries (cache_clear L c)) = cap (c_stale_entries c)"
  by (simp add: cache_inv_def store_ok_def cache_clear_def clear_cap)

end

section \<open>Runs of the cache\<close>

text \<open>
  A step at time \<open>t\<close> reads the clock between \<open>t\<close> and \<open>t'\<close>, the time after the step.
\<close>

inductive cache_step ::
  "'c cache_store \<Rightarrow> nat \<Rightarrow> 'c dns_cache \<Rightarrow> nat \<Rightarrow> 'c dns_cache \<Rightarrow> bool" for L where
  step_insert: "t \<le> now \<Longrightarrow> now \<le> t' \<Longrightarrow>
     cache_step L t c t' (cache_insert L now name rtype rclass ttl rdata rdlength c)"
| step_insert_records: "\<forall>j. t \<le> clock j \<and> clock j \<le> t' \<Longrightarrow>
     cache_step L t c t' (insert_records L clock i recs c)"
| step_lookup: "\<forall>j. t \<le> clock j \<and> clock j \<le> t' \<Longrightarrow>
     cache_step L t c t' (snd (cache_lookup L clock name rtype rclass c))"
| step_lookup_stale: "t \<le> now \<Longrightarrow> now \<le> t' \<Longrightarrow>
     cache_step L t c t' (snd (lookup_stale L now name rtype rclass c))"
| step_purge: "t \<le> now \<Longrightarrow> now \<le> t' \<Longrightarrow> cache_step L t c t' (purge_expired L now c)"
| step_clear: "t \<le> t' \<Longrightarrow> cache_step L t c t' (cache_clear L c)"

inductive cache_run :: "'c cache_store \<Rightarrow> nat \<Rightarrow> nat \<Rightarrow> 'c dns_cache \<Rightarrow> bool" for L n where
  run_start: "cache_run L n t (with_max_entries L n)"
| run_step: "cache_run L n t c \<Longrightarrow> cache_step L t c t' c' \<Longrightarrow> cache_run L n t' c'"

context cache_lru
begin

lemma step_time: "cache_step L t c t' c' \<Longrightarrow> t \<le> t'"
  by (induction rule: cache_step.induct) (auto intro: order_trans)

lemma step_inv:
  assumes "cache_step L t c t' c'" "cache_inv L ok t c"
  shows "cache_inv L ok t' c' \<and> cap (c_entries c') = cap (c_entries c) \<and>
     cap (c_stale_entries c') = cap (c_stale_entries c)"
proof -
  have "cache_inv L ok t' c" using cache_inv_mono [OF assms(2) step_time [OF assms(1)]] .
  with assms(1) show ?thesis
    by (induction rule: cache_step.induct)
      (simp_all add: cap_insert insert_inv inv_ok insert_records_inv lookup_inv lookup_stale_inv
        purge_inv clear_inv cap_insert_records cap_lookup cap_lookup_stale cap_purge cap_clear)
qed

lemma run_inv:
  assumes "cache_run L n t c"
  shows "cache_inv L ok t c \<and> cap (c_entries c) = max n 1 \<and>
     cap (c_stale_entries c) = min (max (n div 5) 1000) STALE_MAX_ENTRIES"
  using assms
proof (induction rule: cache_run.induct)
  case (run_start t)
  show ?case using with_max_entries_inv [of t n]
    by (simp add: with_max_entries_def new_cap STALE_MAX_ENTRIES_def)
next
  case (run_step t c t' c')
  then show ?case using step_inv by auto
qed

lemma run_bounded:
  assumes "cache_run L n t c"
  shows "cache_len L c \<le> max n 1" "stale_len L c \<le> min (max (n div 5) 1000) STALE_MAX_ENTRIES"
    "lru_look L (c_entries c) k = Some vec \<Longrightarrow> vec_ok t k vec"
    "lru_look L (c_stale_entries c) k = Some vec \<Longrightarrow> vec_ok t k vec"
proof -
  note inv = run_inv [OF assms]
  show "cache_len L c \<le> max n 1" "stale_len L c \<le> min (max (n div 5) 1000) STALE_MAX_ENTRIES"
    using inv inv_ok [of t c] len_le_cap [of "c_entries c"] len_le_cap [of "c_stale_entries c"]
    by (simp_all add: cache_len_def stale_len_def)
  show "lru_look L (c_entries c) k = Some vec \<Longrightarrow> vec_ok t k vec"
    "lru_look L (c_stale_entries c) k = Some vec \<Longrightarrow> vec_ok t k vec"
    using inv by (auto simp: cache_inv_def intro: store_ok_look)
qed

end

interpretation list_cache: cache_lru list_lru fst list_lru_ok
  by unfold_locales

section \<open>Properties\<close>

text \<open>
  C10. In every run of the cache from \<open>with_max_entries\<close>, whatever the order of its operations, both
  stores stay within their capacities, the configured size (at least one) and a fifth of it, but between
  1000 and 50000, and in both every key holds between one and sixteen entries with different RDATA, each
  a record of that key with a TTL of one second to a day.
\<close>

theorem cache_run_bounded:
  assumes "cache_lru L cap ok" "cache_run L n t c"
  shows "cache_len L c \<le> max n 1 \<and> stale_len L c \<le> min (max (n div 5) 1000) STALE_MAX_ENTRIES \<and>
    (\<forall>k vec. lru_look L (c_entries c) k = Some vec \<or> lru_look L (c_stale_entries c) k = Some vec \<longrightarrow> vec_ok t k vec)"
  using cache_lru.run_bounded [OF assms] by blast

definition example_cache :: "(nat \<times> (cache_key \<times> cache_entry list) list) dns_cache" where
  "example_cache = cache_insert list_lru 5 [1, 97, 0] 1 1 300 [10, 0, 0, 1] 4
     (with_max_entries list_lru 2)"

lemma example_cache_run: "cache_run list_lru 2 5 example_cache"
  unfolding example_cache_def by (rule run_step [OF run_start [where t = 5]], rule step_insert) simp_all

lemma list_cache_lru: "cache_lru list_lru fst list_lru_ok"
  by unfold_locales

theorem cache_run_bounded_witness:
  "cache_len list_lru example_cache \<le> 2 \<and> stale_len list_lru example_cache \<le> 1000"
  using cache_run_bounded [OF list_cache_lru example_cache_run] by (simp add: STALE_MAX_ENTRIES_def)

text \<open>
  C24. A record inserted with a non-zero TTL is found by a lookup that reads the clock before it
  expires, with its remaining TTL, unless the key already held an entry with the same RDATA.
\<close>

theorem lookup_finds_inserted:
  assumes "cache_lru L cap ok" "cache_run L n t0 c" "ttl \<noteq> 0"
    and "\<forall>vec. lru_look L (c_entries c) (name, rtype, rclass) = Some vec \<longrightarrow>
      \<not> list_ex (\<lambda>x. rr_rdata (ce_record x) = rdata) vec"
    and "\<forall>i. clock i < now + unat (min ttl 86400) * NANOS"
  shows "\<exists>recs t i. fst (cache_lookup L clock name rtype rclass
      (cache_insert L now name rtype rclass ttl rdata rdlength c)) = Some (recs, t) \<and>
      (ce_record (new_entry now name rtype rclass ttl rdata rdlength))
        \<lparr>rr_ttl := ttl_remaining (clock i) (new_entry now name rtype rclass ttl rdata rdlength)\<rparr>
        \<in> set recs"
  using cache_lru.lookup_after_insert [OF assms(1) _ assms(3-5)]
    cache_lru.inv_ok [OF assms(1)] cache_lru.run_inv [OF assms(1,2)] by blast

theorem lookup_finds_inserted_witness:
  "\<exists>recs t. fst (cache_lookup list_lru (\<lambda>i. 7) [1, 97, 0] 1 1 example_cache) = Some (recs, t) \<and>
     (ce_record (new_entry 5 [1, 97, 0] 1 1 300 [10, 0, 0, 1] 4))
        \<lparr>rr_ttl := ttl_remaining 7 (new_entry 5 [1, 97, 0] 1 1 300 [10, 0, 0, 1] 4)\<rparr> \<in> set recs"
proof -
  have "lru_look list_lru (c_entries (with_max_entries list_lru 2)) k = None" for k
    by (simp add: with_max_entries_def listlru.look_new)
  then show ?thesis
    using lookup_finds_inserted [OF list_cache_lru run_start [where t = 0 and n = 2], of 300 "[1, 97, 0]" 1 1
        "[10, 0, 0, 1]" "\<lambda>i. 7" 5 4]
    by (simp add: example_cache_def NANOS_def min_def)
qed

text \<open>
  Every record a lookup returns belongs to the key asked for, its TTL is at least the minimum
  returned with the records and at most a day, there is at least one record and at most sixteen,
  in every state of a run and for every later clock.
\<close>

theorem lookup_records_bounded:
  assumes "cache_lru L cap ok" "cache_run L n t c" "\<forall>i. t \<le> clock i"
    and "cache_lookup L clock name rtype rclass c = (Some (recs, min_ttl), c')"
  shows "recs \<noteq> [] \<and> length recs \<le> MAX_RECORDS_PER_KEY \<and>
    (\<forall>r \<in> set recs. min_ttl \<le> rr_ttl r \<and> rr_ttl r \<le> 86400 \<and>
       (rr_name r, rr_type r, rr_class r) = (name, rtype, rclass))"
  using cache_lru.lookup_ttl [OF assms(1) _ assms(3,4)] cache_lru.run_inv [OF assms(1,2)] by blast

lemma example_hit:
  "\<exists>recs t c'. cache_lookup list_lru (\<lambda>i. 7) [1, 97, 0] 1 1 example_cache = (Some (recs, t), c')"
  by (simp add: cache_lookup_def example_cache_def cache_insert_def with_max_entries_def
      list_lru_def mru_touch_def mru_put_def mru_without_def mru_write_def is_expired_def NANOS_def
      min_def Let_def)

theorem lookup_records_bounded_witness:
  "\<exists>recs t. fst (cache_lookup list_lru (\<lambda>i. 7) [1, 97, 0] 1 1 example_cache) = Some (recs, t) \<and>
     recs \<noteq> [] \<and> length recs \<le> MAX_RECORDS_PER_KEY"
proof -
  obtain recs t c' where hit: "cache_lookup list_lru (\<lambda>i. 7) [1, 97, 0] 1 1 example_cache =
      (Some (recs, t), c')" using example_hit by blast
  show ?thesis
    using lookup_records_bounded [OF list_cache_lru example_cache_run _ hit] by (simp add: hit)
qed

text \<open>
  C36. When every entry of a key has expired, a lookup misses, counts the miss, drops the key, and
  for six hours the stale lookup serves exactly those records with TTL zero.
\<close>

theorem expired_entries_served_stale:
  assumes "cache_lru L cap ok" "cache_run L n t c"
    and "lru_look L (c_entries c) (name, rtype, rclass) = Some vec"
    and "\<forall>e \<in> set vec. \<forall>i. is_expired (clock i) e"
    and "\<forall>e \<in> set vec. now - ce_expires_at e < STALE_MAX_AGE"
    and "cache_lookup L clock name rtype rclass c = (r, c')"
  shows "r = None \<and> lru_look L (c_entries c') (name, rtype, rclass) = None \<and>
    c_misses c' = c_misses c + 1 \<and>
    fst (lookup_stale L now name rtype rclass c') =
      Some (map (\<lambda>e. (ce_record e)\<lparr>rr_ttl := 0\<rparr>) vec)"
  using cache_lru.expired_served_stale [OF assms(1) _ assms(3-6)]
    cache_lru.run_inv [OF assms(1,2)] by blast

lemma example_look:
  "lru_look list_lru (c_entries example_cache) ([1, 97, 0], 1, 1) =
     Some [new_entry 5 [1, 97, 0] 1 1 300 [10, 0, 0, 1] 4]"
  unfolding example_cache_def
  by (subst list_cache.look_insert)
    (simp_all add: with_max_entries_def listlru.look_new listlru.new_ok)

theorem expired_entries_served_stale_witness:
  "fst (lookup_stale list_lru (400 * NANOS) [1, 97, 0] 1 1
     (snd (cache_lookup list_lru (\<lambda>i. 400 * NANOS) [1, 97, 0] 1 1 example_cache))) =
   Some [(ce_record (new_entry 5 [1, 97, 0] 1 1 300 [10, 0, 0, 1] 4))\<lparr>rr_ttl := 0\<rparr>]"
proof -
  obtain r c' where l: "cache_lookup list_lru (\<lambda>i. 400 * NANOS) [1, 97, 0] 1 1 example_cache = (r, c')"
    by (metis surj_pair)
  show ?thesis
    using expired_entries_served_stale [OF list_cache_lru example_cache_run example_look _ _ l,
        of "400 * NANOS"]
      l [THEN arg_cong [of _ _ snd]]
    by (simp add: is_expired_def new_entry_def NANOS_def STALE_MAX_AGE_def min_def)
qed

text \<open>
  Inserting a record whose RDATA the key already holds changes nothing that a lookup can see:
  the entry keeps its old expiry time, and the new TTL is dropped.
\<close>

theorem duplicate_insert_keeps_expiry:
  assumes "cache_lru L cap ok" "cache_run L n t c"
    and "lru_look L (c_entries c) (name, rtype, rclass) = Some vec"
    and "list_ex (\<lambda>x. rr_rdata (ce_record x) = rdata) vec"
  shows "lru_look L (c_entries (cache_insert L now name rtype rclass ttl rdata rdlength c)) =
    lru_look L (c_entries c)"
  using cache_lru.insert_duplicate [OF assms(1) _ assms(3,4)]
    cache_lru.inv_ok [OF assms(1)] cache_lru.run_inv [OF assms(1,2)] by blast

theorem duplicate_insert_keeps_expiry_witness:
  "lru_look list_lru (c_entries (cache_insert list_lru 900 [1, 97, 0] 1 1 3600 [10, 0, 0, 1] 4 example_cache)) =
    lru_look list_lru (c_entries example_cache)"
  using duplicate_insert_keeps_expiry [OF list_cache_lru example_cache_run example_look]
  by (simp add: new_entry_def)

text \<open>
  Purging removes a key from the stale store exactly when all its entries expired at least six
  hours ago, and changes no other key.
\<close>

theorem purge_removes_old_keys:
  assumes "cache_lru L cap ok" "cache_run L n t c"
  shows "lru_look L (c_stale_entries (purge_expired L now c)) k =
    (case lru_look L (c_stale_entries c) k of
       None \<Rightarrow> None
     | Some vec \<Rightarrow> if \<forall>e \<in> set vec. STALE_MAX_AGE \<le> now - ce_expires_at e then None else Some vec)"
  using cache_lru.look_purge [OF assms(1)] cache_lru.inv_ok [OF assms(1)]
    cache_lru.run_inv [OF assms(1,2)] by blast

theorem purge_removes_old_keys_witness:
  "lru_look list_lru (c_stale_entries (purge_expired list_lru (9 + STALE_MAX_AGE)
     (snd (cache_lookup list_lru (\<lambda>i. 400 * NANOS) [1, 97, 0] 1 1 example_cache)))) ([1, 97, 0], 1, 1) =
   Some [new_entry 5 [1, 97, 0] 1 1 300 [10, 0, 0, 1] 4]"
proof -
  let ?c = "snd (cache_lookup list_lru (\<lambda>i. 400 * NANOS) [1, 97, 0] 1 1 example_cache)"
  have run: "cache_run list_lru 2 (400 * NANOS) ?c"
    by (rule run_step [OF example_cache_run], rule step_lookup) (simp add: NANOS_def)
  have ok: "list_lru_ok (c_entries example_cache)" "list_lru_ok (c_stale_entries example_cache)"
    using list_cache.inv_ok list_cache.run_inv [OF example_cache_run] by blast+
  have "lru_look list_lru (c_stale_entries ?c) ([1, 97, 0], 1, 1) =
      Some [new_entry 5 [1, 97, 0] 1 1 300 [10, 0, 0, 1] 4]"
    by (simp add: list_cache.lookup_eq [OF ok(1)] example_look is_expired_def new_entry_def NANOS_def
        min_def listlru.look_put_same [OF ok(2)])
  then show ?thesis
    using purge_removes_old_keys [OF list_cache_lru run, of "9 + STALE_MAX_AGE" "([1, 97, 0], 1, 1)"]
    by (simp add: new_entry_def NANOS_def min_def STALE_MAX_AGE_def)
qed

end
