(* ===== verification/Root_Hints.thy ===== *)
theory Root_Hints
  imports Dns_Data
begin

text \<open>
  The built-in tables: the thirteen root servers of \<open>src/src/resolver/root_hints.rs\<close> with the list
  of addresses a recursive lookup starts from, and the root trust anchor of
  \<open>src/src/dnssec/trust_anchor.rs\<close>.
\<close>

section \<open>Root servers\<close>

record root_server =
  rs_name :: string
  rs_ipv4 :: ipv4
  rs_ipv6 :: "ipv6 option"

text \<open>\<open>Ipv6Addr::new\<close>: eight 16-bit segments.\<close>

definition ipv6_new :: "u16 \<Rightarrow> u16 \<Rightarrow> u16 \<Rightarrow> u16 \<Rightarrow> u16 \<Rightarrow> u16 \<Rightarrow> u16 \<Rightarrow> u16 \<Rightarrow> ipv6" where
  "ipv6_new a b c d e f g h = Ipv6 (concat (map bytes_of_u16 [a, b, c, d, e, f, g, h]))"

definition ROOT_SERVERS :: "root_server list" where
  "ROOT_SERVERS =
   [\<lparr>rs_name = ''a.root-servers.net'', rs_ipv4 = Ipv4 198 41 0 4,
     rs_ipv6 = Some (ipv6_new 0x2001 0x503 0xba3e 0 0 0 0 0x2e30)\<rparr>,
    \<lparr>rs_name = ''b.root-servers.net'', rs_ipv4 = Ipv4 170 247 170 53,
     rs_ipv6 = Some (ipv6_new 0x2801 0x1b8 0x10 0xb 0 0 0 0x1)\<rparr>,
    \<lparr>rs_name = ''c.root-servers.net'', rs_ipv4 = Ipv4 192 33 4 12,
     rs_ipv6 = Some (ipv6_new 0x2001 0x500 0x2 0 0 0 0 0xc)\<rparr>,
    \<lparr>rs_name = ''d.root-servers.net'', rs_ipv4 = Ipv4 199 7 91 13,
     rs_ipv6 = Some (ipv6_new 0x2001 0x500 0x2d 0 0 0 0 0xd)\<rparr>,
    \<lparr>rs_name = ''e.root-servers.net'', rs_ipv4 = Ipv4 192 203 230 10,
     rs_ipv6 = Some (ipv6_new 0x2001 0x500 0xa8 0 0 0 0 0xe)\<rparr>,
    \<lparr>rs_name = ''f.root-servers.net'', rs_ipv4 = Ipv4 192 5 5 241,
     rs_ipv6 = Some (ipv6_new 0x2001 0x500 0x2f 0 0 0 0 0xf)\<rparr>,
    \<lparr>rs_name = ''g.root-servers.net'', rs_ipv4 = Ipv4 192 112 36 4,
     rs_ipv6 = Some (ipv6_new 0x2001 0x500 0x12 0 0 0 0 0xd0d)\<rparr>,
    \<lparr>rs_name = ''h.root-servers.net'', rs_ipv4 = Ipv4 198 97 190 53,
     rs_ipv6 = Some (ipv6_new 0x2001 0x500 0x1 0 0 0 0 0x53)\<rparr>,
    \<lparr>rs_name = ''i.root-servers.net'', rs_ipv4 = Ipv4 192 36 148 17,
     rs_ipv6 = Some (ipv6_new 0x2001 0x7fe 0 0 0 0 0 0x53)\<rparr>,
    \<lparr>rs_name = ''j.root-servers.net'', rs_ipv4 = Ipv4 192 58 128 30,
     rs_ipv6 = Some (ipv6_new 0x2001 0x503 0xc27 0 0 0 0 0x2e30)\<rparr>,
    \<lparr>rs_name = ''k.root-servers.net'', rs_ipv4 = Ipv4 193 0 14 129,
     rs_ipv6 = Some (ipv6_new 0x2001 0x7fd 0 0 0 0 0 0x1)\<rparr>,
    \<lparr>rs_name = ''l.root-servers.net'', rs_ipv4 = Ipv4 199 7 83 42,
     rs_ipv6 = Some (ipv6_new 0x2001 0x500 0x9f 0 0 0 0 0x42)\<rparr>,
    \<lparr>rs_name = ''m.root-servers.net'', rs_ipv4 = Ipv4 202 12 27 33,
     rs_ipv6 = Some (ipv6_new 0x2001 0xdc3 0 0 0 0 0 0x35)\<rparr>]"

fun server_addrs :: "root_server \<Rightarrow> ip_addr list" where
  "server_addrs s =
     V4 (rs_ipv4 s) # (case rs_ipv6 s of Some v6 \<Rightarrow> [V6 v6] | None \<Rightarrow> [])"

definition initial_root_addrs :: "ip_addr list" where
  "initial_root_addrs = concat (map server_addrs ROOT_SERVERS)"

section \<open>Root trust anchor\<close>

definition ROOT_KEY_DIGEST_SHA256 :: bytes where
  "ROOT_KEY_DIGEST_SHA256 =
    [0x49, 0xfd, 0xdd, 0x73, 0x89, 0xd8, 0x05, 0xde, 0xdb, 0xd0, 0x7a, 0x03,
     0xbb, 0xb9, 0x67, 0x1d, 0xe8, 0x33, 0xd0, 0xe4, 0x71, 0xa4, 0x34, 0x82,
     0x42, 0x18, 0xed, 0x15, 0x4e, 0xd5, 0x19, 0x0c]"

definition ROOT_DNSKEY_RDATA :: bytes where
  "ROOT_DNSKEY_RDATA =
    [0x01, 0x01, 0x03, 0x08, 0x00, 0x00, 0x03, 0x01, 0x00, 0x01, 0xbb, 0xaf,
     0x7b, 0xcf, 0x6c, 0xa4, 0xca, 0x5b, 0x23, 0x2f, 0x60, 0x09, 0x96, 0x4e,
     0x43, 0x63, 0x33, 0x54, 0x8d, 0xcc, 0x73, 0x99, 0x09, 0x4d, 0xaa, 0x77,
     0x9d, 0x0e, 0x98, 0xb3, 0x57, 0x48, 0x2f, 0x36, 0x8d, 0xcc, 0xfe, 0x07,
     0xf2, 0xd5, 0x7f, 0x90, 0x2f, 0xf9, 0xf8, 0x76, 0x0f, 0x74, 0x1a, 0xe0,
     0x5a, 0x8a, 0x3e, 0xda, 0x67, 0x80, 0x06, 0x1d, 0x40, 0x4c, 0xd6, 0x81,
     0x77, 0x5b, 0xc1, 0x5b, 0xee, 0xa9, 0x5b, 0x64, 0x43, 0x39, 0x2b, 0x56,
     0x4a, 0x24, 0x10, 0x14, 0x4f, 0x5c, 0x3a, 0xc8, 0x5b, 0x4c, 0xb7, 0xd5,
     0xa6, 0x7c, 0x5b, 0x1c, 0x44, 0x7d, 0xd2, 0x7d, 0x1f, 0x0a, 0xa0, 0x2a,
     0xd6, 0x1c, 0x42, 0xc2, 0x23, 0x7f, 0x80, 0xeb, 0x43, 0x85, 0xed, 0x4b,
     0x46, 0x86, 0x16, 0xbd, 0xd3, 0xcf, 0x27, 0x72, 0x43, 0x2b, 0x78, 0x6e,
     0x09, 0xb7, 0x7c, 0xa7, 0x81, 0x3c, 0xb2, 0xd1, 0xd0, 0xd1, 0x3c, 0x0c,
     0xc3, 0x79, 0x7f, 0x11, 0x00, 0x8d, 0x15, 0x21, 0x90, 0xb4, 0x18, 0x8c,
     0x66, 0xaa, 0x9c, 0xb7, 0x14, 0x58, 0x81, 0x76, 0xd1, 0x0e, 0x78, 0x1c,
     0x2b, 0xd8, 0xa5, 0x8e, 0xd2, 0x3e, 0xa8, 0x4d, 0x6b, 0x0e, 0xb0, 0x97,
     0xfc, 0x0d, 0x5c, 0x4d, 0x7c, 0x89, 0x1d, 0x8d, 0xc3, 0x48, 0x4a, 0xb7,
     0x67, 0x6a, 0x91, 0x96, 0x22, 0xeb, 0x6e, 0x28, 0x3f, 0x9a, 0x1e, 0x44,
     0xb2, 0x15, 0x2b, 0xdd, 0x2a, 0xae, 0x5c, 0x08, 0x0a, 0x7b, 0xb6, 0x58,
     0x92, 0xcc, 0x0c, 0xa2, 0x35, 0xf4, 0x55, 0x4d, 0x98, 0x95, 0x1c, 0xe4,
     0x2c, 0x6d, 0x74, 0x3f, 0x2d, 0x9a, 0xf2, 0x53, 0x35, 0x7d, 0xae, 0x0f,
     0xef, 0xc7, 0x86, 0x07, 0xbb, 0x44, 0x9b, 0x28, 0x2c, 0x0c, 0x2b, 0x90,
     0x35, 0x71, 0x7c, 0x0c, 0x2a, 0x87, 0x12, 0x1d, 0x34, 0xc3, 0xe6, 0x2a,
     0xc1, 0x42]"

section \<open>Properties\<close>

lemma length_ipv6_new [simp]: "length (octets6 (ipv6_new a b c d e f g h)) = 16"
  by (simp add: ipv6_new_def)

text \<open>
  A lookup starts from 26 different addresses, an IPv4 and an IPv6 one for each of the thirteen
  root servers, the IPv6 ones of sixteen octets.
\<close>

theorem root_addrs_distinct:
  "length initial_root_addrs = 26 \<and> distinct initial_root_addrs \<and>
   list_all (\<lambda>a. case a of V4 v4 \<Rightarrow> True | V6 v6 \<Rightarrow> length (octets6 v6) = 16) initial_root_addrs"
  unfolding initial_root_addrs_def ROOT_SERVERS_def
  by (simp add: ipv6_new_def bytes_of_u16_def)

lemma root_key_size: "length ROOT_DNSKEY_RDATA = 266"
  by (simp add: ROOT_DNSKEY_RDATA_def)

end
