(* ===== verification/Config.thy ===== *)
theory Config
  imports Wire_Name
begin

text \<open>
  Configuration of \<open>src/src/config.rs\<close>: the settings with their defaults, the command-line
  overrides, validation, and the conversion to the server's own configuration
  (\<open>ServerConfig\<close> of \<open>src/src/server/udp.rs\<close>).

  The TOML parser and the file system are parameters of \<open>from_file\<close>.  \<open>str::parse::<SocketAddr>\<close>
  is the parameter \<open>parse_addr\<close>: no property depends on which addresses it accepts.
\<close>

section \<open>Settings\<close>

definition DEFAULT_BIND :: string where "DEFAULT_BIND = ''127.0.0.1:53''"
definition DEFAULT_CACHE_SIZE :: nat where "DEFAULT_CACHE_SIZE = 50000"
definition MAX_CACHE_SIZE :: nat where "MAX_CACHE_SIZE = 10000000"

record fastdns_config =
  f_bind :: string
  f_ipv6 :: bool
  f_dnssec :: bool
  f_no_prefetch :: bool
  f_cache_size :: nat
  f_verbose :: bool
  f_upstream :: "string option"
  f_doh :: bool
  f_dot :: bool
  f_blocklist_mode :: string
  f_blocklist_sources :: "string list"
  f_blocklist :: "string list"
  f_whitelist :: "string list"
  f_custom_dns :: "string list"
  f_nullroute :: string
  f_nullroute_v6 :: string
  f_block_response :: string
  f_rate_limit_qps :: u64
  f_rate_limit_burst :: u32
  f_log_file :: string
  f_log_level :: string
  f_api_bind :: string
  f_metrics :: bool
  f_tls_cert :: string
  f_tls_key :: string
  f_dnssec_policy :: string
  f_config_path :: "string option"

definition default_config :: fastdns_config where
  "default_config =
     \<lparr>f_bind = DEFAULT_BIND, f_ipv6 = False, f_dnssec = False, f_no_prefetch = False,
      f_cache_size = DEFAULT_CACHE_SIZE, f_verbose = False, f_upstream = None, f_doh = False,
      f_dot = False, f_blocklist_mode = ''none'',
      f_blocklist_sources =
        [''https://raw.githubusercontent.com/StevenBlack/hosts/master/hosts'',
         ''https://s3.amazonaws.com/lists.disconnect.me/simple_tracking.txt'',
         ''https://s3.amazonaws.com/lists.disconnect.me/simple_ad.txt''],
      f_blocklist = [], f_whitelist = [], f_custom_dns = [], f_nullroute = ''0.0.0.0'',
      f_nullroute_v6 = ''::'', f_block_response = ''nxdomain'', f_rate_limit_qps = 100,
      f_rate_limit_burst = 200, f_log_file = [], f_log_level = ''info'', f_api_bind = [],
      f_metrics = False, f_tls_cert = [], f_tls_key = [], f_dnssec_policy = ''ad'',
      f_config_path = None\<rparr>"

record cli_overrides =
  cli_bind :: "string option"
  cli_ipv6 :: bool
  cli_dnssec :: bool
  cli_no_prefetch :: bool
  cli_cache_size :: "nat option"
  cli_verbose :: bool
  cli_upstream :: "string option"
  cli_doh :: bool
  cli_dot :: bool
  cli_blocklist_mode :: "string option"
  cli_log_file :: "string option"
  cli_log_level :: "string option"
  cli_api_bind :: "string option"
  cli_metrics :: bool

record 'a server_config =
  s_bind_addr :: 'a
  s_enable_ipv6 :: bool
  s_dnssec_ok :: bool
  s_prefetch_domains :: "string list"
  s_cache_size :: nat
  s_verbose :: bool
  s_upstream :: "string option"
  s_rate_limit_qps :: u64
  s_rate_limit_burst :: u32
  s_log_file :: string
  s_api_bind :: "string option"
  s_metrics_enabled :: bool
  s_dnssec_policy :: string
  s_blocklist_mode :: string
  s_blocklist_sources :: "string list"
  s_blocklist :: "string list"
  s_whitelist :: "string list"
  s_custom_dns :: "string list"
  s_nullroute :: string
  s_nullroute_v6 :: string
  s_block_response :: string

definition PREFETCH_DOMAINS :: "string list" where
  "PREFETCH_DOMAINS =
   [''google.com'', ''youtube.com'', ''facebook.com'', ''amazon.com'', ''wikipedia.org'',
    ''twitter.com'', ''instagram.com'', ''microsoft.com'', ''apple.com'', ''cloudflare.com'',
    ''whatsapp.com'', ''reddit.com'', ''linkedin.com'', ''netflix.com'', ''tiktok.com'',
    ''zoom.us'', ''office.com'', ''live.com'', ''microsoftonline.com'', ''duckduckgo.com'',
    ''bing.com'', ''yahoo.com'', ''baidu.com'', ''pinterest.com'', ''tumblr.com'',
    ''discord.com'', ''twitch.tv'', ''github.com'', ''stackoverflow.com'', ''gitlab.com'',
    ''adobe.com'', ''salesforce.com'', ''oracle.com'', ''ibm.com'', ''samsung.com'',
    ''huawei.com'', ''xiaomi.com'', ''nokia.com'', ''paypal.com'', ''ebay.com'',
    ''aliexpress.com'', ''alibaba.com'', ''shopify.com'', ''etsy.com'', ''walmart.com'',
    ''target.com'', ''bestbuy.com'', ''homedepot.com'', ''costco.com'', ''ikea.com'',
    ''imdb.com'', ''rottentomatoes.com'', ''spotify.com'', ''soundcloud.com'', ''bandcamp.com'',
    ''vimeo.com'', ''dailymotion.com'', ''medium.com'', ''wordpress.com'', ''blogger.com'',
    ''godaddy.com'', ''namecheap.com'', ''googleapis.com'', ''gmail.com'', ''googlemail.com'',
    ''fonts.googleapis.com'', ''fonts.gstatic.com'', ''fbcdn.net'', ''facebook.net'',
    ''messenger.com'', ''amazonaws.com'', ''aws.amazon.com'', ''cloudfront.net'', ''icloud.com'',
    ''icloud-content.com'', ''azure.com'', ''azureedge.net'', ''azurefd.net'', ''office365.com'',
    ''sharepoint.com'', ''outlook.com'', ''hotmail.com'', ''msn.com'', ''xbox.com'',
    ''xboxlive.com'', ''skype.com'', ''teams.microsoft.com'', ''nuget.org'',
    ''docs.microsoft.com'', ''akamai.net'', ''akamaiedge.net'', ''akamaihd.net'', ''fastly.net'',
    ''fastlylb.net'', ''cloudflare.net'', ''cloudflare-dns.com'', ''jsdelivr.net'',
    ''cdnjs.cloudflare.com'', ''twimg.com'', ''t.co'', ''snapchat.com'', ''sc-cdn.net'',
    ''telegram.org'', ''t.me'', ''discordapp.net'', ''discord.com'', ''digitalocean.com'',
    ''linode.com'', ''vultr.com'', ''heroku.com'', ''herokuapp.com'', ''netlify.com'',
    ''vercel.com'', ''mongodb.com'', ''supabase.com'', ''docker.com'', ''docker.io'',
    ''kubernetes.io'', ''npmjs.com'', ''pypi.org'', ''crates.io'', ''cnn.com'', ''bbc.com'',
    ''bbc.co.uk'', ''nytimes.com'', ''wsj.com'', ''washingtonpost.com'', ''reuters.com'',
    ''bloomberg.com'', ''chase.com'', ''bankofamerica.com'', ''wellsfargo.com'',
    ''americanexpress.com'', ''discover.com'', ''netflix.com'', ''netflix.net'',
    ''nflxvideo.net'', ''hulu.com'', ''disneyplus.com'', ''primevideo.com'', ''roblox.com'',
    ''epicgames.com'', ''steampowered.com'', ''steamcdn-a.akamaihd.net'', ''battle.net'',
    ''blizzard.com'', ''nintendo.com'', ''playstation.com'', ''iana.org'', ''icann.org'',
    ''ietf.org'']"

text \<open>The apostrophe.\<close>

definition quote :: string where "quote = [char_of (39 :: nat)]"

section \<open>Operations\<close>

text \<open>
  \<open>exists\<close> and \<open>read\<close> are the file system, \<open>parse_toml\<close> is \<open>toml::from_str\<close> (which fills missing
  fields with the defaults); \<open>None\<close> is an error.
\<close>

definition from_file ::
  "(string \<Rightarrow> bool) \<Rightarrow> (string \<Rightarrow> string option) \<Rightarrow> (string \<Rightarrow> fastdns_config option) \<Rightarrow> string \<Rightarrow>
     fastdns_config" where
  "from_file exists read parse_toml path =
     (if \<not> exists path then default_config
      else case read path of
             Some content \<Rightarrow>
               (case parse_toml content of
                  Some cfg \<Rightarrow> cfg\<lparr>f_config_path := Some path\<rparr>
                | None \<Rightarrow> default_config)
           | None \<Rightarrow> default_config)"

definition merge_cli :: "cli_overrides \<Rightarrow> fastdns_config \<Rightarrow> fastdns_config" where
  "merge_cli cli c =
     (let c = (case cli_bind cli of Some bind \<Rightarrow> c\<lparr>f_bind := bind\<rparr> | None \<Rightarrow> c);
          c = (if cli_ipv6 cli then c\<lparr>f_ipv6 := True\<rparr> else c);
          c = (if cli_dnssec cli then c\<lparr>f_dnssec := True\<rparr> else c);
          c = (if cli_no_prefetch cli then c\<lparr>f_no_prefetch := True\<rparr> else c);
          c = (case cli_cache_size cli of Some cs \<Rightarrow> c\<lparr>f_cache_size := cs\<rparr> | None \<Rightarrow> c);
          c = (if cli_verbose cli then c\<lparr>f_verbose := True\<rparr> else c);
          c = (case cli_upstream cli of Some up \<Rightarrow> c\<lparr>f_upstream := Some up\<rparr> | None \<Rightarrow> c);
          c = (if cli_doh cli then c\<lparr>f_doh := True\<rparr> else c);
          c = (if cli_dot cli then c\<lparr>f_dot := True\<rparr> else c);
          c = (case cli_blocklist_mode cli of Some bm \<Rightarrow> c\<lparr>f_blocklist_mode := bm\<rparr> | None \<Rightarrow> c);
          c = (case cli_log_file cli of Some lf \<Rightarrow> c\<lparr>f_log_file := lf\<rparr> | None \<Rightarrow> c);
          c = (case cli_log_level cli of Some ll \<Rightarrow> c\<lparr>f_log_level := ll\<rparr> | None \<Rightarrow> c);
          c = (case cli_api_bind cli of Some ab \<Rightarrow> c\<lparr>f_api_bind := ab\<rparr> | None \<Rightarrow> c)
      in if cli_metrics cli then c\<lparr>f_metrics := True\<rparr> else c)"

definition config_errors :: "(string \<Rightarrow> 'a option) \<Rightarrow> fastdns_config \<Rightarrow> string list" where
  "config_errors parse_addr c =
     (if parse_addr (f_bind c) = None
      then [''Invalid bind address '' @ quote @ f_bind c @ quote] else []) @
     (if f_cache_size c = 0 then [''Cache size must be > 0''] else []) @
     (if MAX_CACHE_SIZE < f_cache_size c
      then [''Cache size '' @ show_nat (f_cache_size c) @ '' exceeds maximum '' @
            show_nat MAX_CACHE_SIZE] else []) @
     (case f_upstream c of
        Some up \<Rightarrow>
          (if parse_addr up = None
           then [''Invalid upstream address '' @ quote @ up @ quote] else [])
      | None \<Rightarrow> []) @
     (if f_block_response c \<noteq> ''nxdomain'' \<and> f_block_response c \<noteq> ''nullroute''
      then [''block_response must be '' @ quote @ ''nxdomain'' @ quote @ '' or '' @ quote @ ''nullroute'' @ quote] else []) @
     (if f_blocklist_mode c \<in> {''none'', ''adblock'', ''malware'', ''all''} then []
      else [''blocklist_mode must be '' @ quote @ ''none'' @ quote @ '', '' @ quote @ ''adblock'' @ quote @ '', '' @ quote @ ''malware'' @ quote @ '', or '' @ quote @ ''all'' @ quote]) @
     (if f_dnssec_policy c \<in> {''ad'', ''enforce'', ''off''} then []
      else [''dnssec_policy must be '' @ quote @ ''ad'' @ quote @ '', '' @ quote @ ''enforce'' @ quote @ '', or '' @ quote @ ''off'' @ quote])"

definition validate_config ::
  "(string \<Rightarrow> 'a option) \<Rightarrow> fastdns_config \<Rightarrow> (string list, unit) outcome" where
  "validate_config parse_addr c =
     (let errors = config_errors parse_addr c in if errors = [] then Ok () else Err errors)"

definition to_server_config ::
  "(string \<Rightarrow> 'a option) \<Rightarrow> fastdns_config \<Rightarrow> (unit, 'a server_config) outcome" where
  "to_server_config parse_addr c =
     (case parse_addr (f_bind c) of
        None \<Rightarrow> Panic
      | Some addr \<Rightarrow>
          Ok \<lparr>s_bind_addr = addr, s_enable_ipv6 = f_ipv6 c, s_dnssec_ok = f_dnssec c,
              s_prefetch_domains = (if f_no_prefetch c then [] else PREFETCH_DOMAINS),
              s_cache_size = f_cache_size c, s_verbose = f_verbose c, s_upstream = f_upstream c,
              s_rate_limit_qps = f_rate_limit_qps c, s_rate_limit_burst = f_rate_limit_burst c,
              s_log_file = f_log_file c,
              s_api_bind = (if f_api_bind c = [] then None else Some (f_api_bind c)),
              s_metrics_enabled = f_metrics c, s_dnssec_policy = f_dnssec_policy c,
              s_blocklist_mode = f_blocklist_mode c, s_blocklist_sources = f_blocklist_sources c,
              s_blocklist = f_blocklist c, s_whitelist = f_whitelist c,
              s_custom_dns = f_custom_dns c, s_nullroute = f_nullroute c,
              s_nullroute_v6 = f_nullroute_v6 c, s_block_response = f_block_response c\<rparr>)"

section \<open>Properties\<close>

text \<open>
  Validation accepts a configuration exactly when the bind address and the upstream address, if
  there is one, parse, the cache size lies between 1 and ten million, and the block response,
  blocklist mode and DNSSEC policy are among their documented values.
\<close>

theorem validate_accepts_iff:
  "validate_config parse_addr c = Ok () \<longleftrightarrow>
     parse_addr (f_bind c) \<noteq> None \<and> 0 < f_cache_size c \<and> f_cache_size c \<le> MAX_CACHE_SIZE \<and>
     (case f_upstream c of Some up \<Rightarrow> parse_addr up \<noteq> None | None \<Rightarrow> True) \<and>
     f_block_response c \<in> {''nxdomain'', ''nullroute''} \<and>
     f_blocklist_mode c \<in> {''none'', ''adblock'', ''malware'', ''all''} \<and>
     f_dnssec_policy c \<in> {''ad'', ''enforce'', ''off''}"
  by (auto simp: validate_config_def config_errors_def Let_def not_less split: option.splits if_splits)

lemma validate_config_bind: "validate_config parse_addr c = Ok () \<Longrightarrow> parse_addr (f_bind c) \<noteq> None"
  by (auto simp: validate_config_def config_errors_def Let_def split: if_splits)

lemma validate_config_cache:
  "validate_config parse_addr c = Ok () \<Longrightarrow> 0 < f_cache_size c \<and> f_cache_size c \<le> MAX_CACHE_SIZE"
  by (auto simp: validate_config_def config_errors_def Let_def split: if_splits)

text \<open>
  Converting a validated configuration never panics, and the server gets the parsed bind
  address, a cache size between 1 and ten million, and either no domain or the built-in list to
  prefetch.
\<close>

theorem validated_config_converts:
  assumes "validate_config parse_addr c = Ok ()"
  shows "\<exists>s. to_server_config parse_addr c = Ok s \<and> parse_addr (f_bind c) = Some (s_bind_addr s) \<and>
    0 < s_cache_size s \<and> s_cache_size s \<le> MAX_CACHE_SIZE \<and>
    s_prefetch_domains s \<in> {[], PREFETCH_DOMAINS}"
  using validate_config_bind [OF assms] validate_config_cache [OF assms]
  by (auto simp: to_server_config_def)

definition example_parse :: "string \<Rightarrow> nat option" where
  "example_parse s = (if s = DEFAULT_BIND then Some 53 else None)"

theorem validated_config_converts_witness:
  "\<exists>s. to_server_config example_parse default_config = Ok s \<and> s_bind_addr s = 53 \<and> 0 < s_cache_size s"
proof -
  have "validate_config example_parse default_config = Ok ()"
    by (simp add: validate_config_def config_errors_def default_config_def example_parse_def
        DEFAULT_CACHE_SIZE_def MAX_CACHE_SIZE_def)
  from validated_config_converts [OF this] show ?thesis
    by (auto simp: example_parse_def default_config_def)
qed

lemma merge_flag_steps:
  fixes c :: fastdns_config
  shows "(if b then c\<lparr>f_ipv6 := True\<rparr> else c) = c\<lparr>f_ipv6 := f_ipv6 c \<or> b\<rparr>"
    "(if b then c\<lparr>f_dnssec := True\<rparr> else c) = c\<lparr>f_dnssec := f_dnssec c \<or> b\<rparr>"
    "(if b then c\<lparr>f_no_prefetch := True\<rparr> else c) = c\<lparr>f_no_prefetch := f_no_prefetch c \<or> b\<rparr>"
    "(if b then c\<lparr>f_verbose := True\<rparr> else c) = c\<lparr>f_verbose := f_verbose c \<or> b\<rparr>"
    "(if b then c\<lparr>f_doh := True\<rparr> else c) = c\<lparr>f_doh := f_doh c \<or> b\<rparr>"
    "(if b then c\<lparr>f_dot := True\<rparr> else c) = c\<lparr>f_dot := f_dot c \<or> b\<rparr>"
    "(if b then c\<lparr>f_metrics := True\<rparr> else c) = c\<lparr>f_metrics := f_metrics c \<or> b\<rparr>"
  by simp_all

definition or_else :: "'a option \<Rightarrow> 'a \<Rightarrow> 'a" where
  "or_else v d = (case v of Some x \<Rightarrow> x | None \<Rightarrow> d)"

lemma merge_option_steps:
  fixes c :: fastdns_config
  shows "(case v0 of Some x \<Rightarrow> c\<lparr>f_bind := x\<rparr> | None \<Rightarrow> c) = c\<lparr>f_bind := or_else v0 (f_bind c)\<rparr>"
    "(case v1 of Some x \<Rightarrow> c\<lparr>f_cache_size := x\<rparr> | None \<Rightarrow> c) = c\<lparr>f_cache_size := or_else v1 (f_cache_size c)\<rparr>"
    "(case v2 of Some x \<Rightarrow> c\<lparr>f_blocklist_mode := x\<rparr> | None \<Rightarrow> c) = c\<lparr>f_blocklist_mode := or_else v2 (f_blocklist_mode c)\<rparr>"
    "(case v3 of Some x \<Rightarrow> c\<lparr>f_log_file := x\<rparr> | None \<Rightarrow> c) = c\<lparr>f_log_file := or_else v3 (f_log_file c)\<rparr>"
    "(case v4 of Some x \<Rightarrow> c\<lparr>f_log_level := x\<rparr> | None \<Rightarrow> c) = c\<lparr>f_log_level := or_else v4 (f_log_level c)\<rparr>"
    "(case v5 of Some x \<Rightarrow> c\<lparr>f_api_bind := x\<rparr> | None \<Rightarrow> c) = c\<lparr>f_api_bind := or_else v5 (f_api_bind c)\<rparr>"
    "(case u of Some x \<Rightarrow> c\<lparr>f_upstream := Some x\<rparr> | None \<Rightarrow> c) =
       c\<lparr>f_upstream := or_else (map_option Some u) (f_upstream c)\<rparr>"
  by (simp_all add: or_else_def split: option.split)

text \<open>
  Merging command-line overrides gives each option that was set the command-line value and
  keeps every other setting; the flags can only be switched on.
\<close>

theorem merge_cli_fields:
  "merge_cli cli c =
     c\<lparr>f_bind := (case cli_bind cli of Some b \<Rightarrow> b | None \<Rightarrow> f_bind c),
       f_ipv6 := f_ipv6 c \<or> cli_ipv6 cli, f_dnssec := f_dnssec c \<or> cli_dnssec cli,
       f_no_prefetch := f_no_prefetch c \<or> cli_no_prefetch cli,
       f_cache_size := (case cli_cache_size cli of Some n \<Rightarrow> n | None \<Rightarrow> f_cache_size c),
       f_verbose := f_verbose c \<or> cli_verbose cli,
       f_upstream := (case cli_upstream cli of Some u \<Rightarrow> Some u | None \<Rightarrow> f_upstream c),
       f_doh := f_doh c \<or> cli_doh cli, f_dot := f_dot c \<or> cli_dot cli,
       f_blocklist_mode := (case cli_blocklist_mode cli of Some b \<Rightarrow> b | None \<Rightarrow> f_blocklist_mode c),
       f_log_file := (case cli_log_file cli of Some l \<Rightarrow> l | None \<Rightarrow> f_log_file c),
       f_log_level := (case cli_log_level cli of Some l \<Rightarrow> l | None \<Rightarrow> f_log_level c),
       f_api_bind := (case cli_api_bind cli of Some a \<Rightarrow> a | None \<Rightarrow> f_api_bind c),
       f_metrics := f_metrics c \<or> cli_metrics cli\<rparr>"
  unfolding merge_cli_def
  by (simp add: merge_flag_steps merge_option_steps Let_def)
    (simp add: or_else_def split: option.split)

text \<open>
  Every domain of the built-in prefetch list can be encoded as a query name.
\<close>

theorem prefetch_domains_encodable:
  "list_all (\<lambda>d. \<exists>n. encode_domain_name d = Ok n) PREFETCH_DOMAINS"
proof -
  have "list_all (\<lambda>d. case encode_domain_name d of Ok n \<Rightarrow> True | _ \<Rightarrow> False) PREFETCH_DOMAINS"
    by code_simp
  then show ?thesis
    by (rule list.pred_mono_strong) (simp split: outcome.splits)
qed

end
