(* ===== verification/Blocklist.thy ===== *)
theory Blocklist
  imports Config "HOL-Library.Char_ord" "HOL-Library.AList"
begin

text \<open>
  The domain filter of \<open>src/src/blocklist.rs\<close>: the blocklist state, loading and refreshing it from
  its sources, the lookup with custom records, whitelist and blocklist, and the parsers for hosts
  files, domain lists and custom records.

  Text is ASCII here: \<open>trim\<close>, \<open>split_whitespace\<close> and \<open>to_lowercase\<close> are the restriction of the
  Unicode operations of the standard library to ASCII characters.  A \<open>HashSet\<close> is a set, a
  \<open>HashMap\<close> an association list with one entry per key.  The locks are held only inside a single operation, so each operation is one
  atomic step on the state.  The HTTP client and the file system are the parameters \<open>fetch_url\<close> and
  \<open>read_file\<close> (\<open>None\<close> is an error), and \<open>stamp\<close> is the time stamp of \<open>Utc::now().to_rfc3339()\<close>.
\<close>

section \<open>Text helpers\<close>

definition is_ws :: "char \<Rightarrow> bool" where
  "is_ws c \<longleftrightarrow> (of_char c :: nat) \<in> {9, 10, 11, 12, 13, 32}"

definition trim :: "string \<Rightarrow> string" where
  "trim s = rev (dropWhile is_ws (rev (dropWhile is_ws s)))"

fun split_ws :: "string \<Rightarrow> string \<Rightarrow> string list" where
  "split_ws word [] = (if word = [] then [] else [rev word])"
| "split_ws word (c # cs) =
     (if is_ws c then (if word = [] then [] else [rev word]) @ split_ws [] cs
      else split_ws (c # word) cs)"

definition split_whitespace :: "string \<Rightarrow> string list" where
  "split_whitespace s = split_ws [] s"

text \<open>\<open>str::lines\<close>: a line ends at a newline, which may be preceded by a carriage return.\<close>

definition strip_cr :: "string \<Rightarrow> string" where
  "strip_cr l = (case strip_suffix [char_of (13 :: nat)] l of Some l' \<Rightarrow> l' | None \<Rightarrow> l)"

definition str_lines :: "string \<Rightarrow> string list" where
  "str_lines s =
     (let parts = split_on (char_of (10 :: nat)) s in
      map strip_cr (butlast parts) @ (if last parts = [] then [] else [last parts]))"

section \<open>Types\<close>

datatype blocklist_mode = Mode_None | Mode_Adblock | Mode_Malware | Mode_All

definition blocklist_mode_from_str :: "string \<Rightarrow> blocklist_mode" where
  "blocklist_mode_from_str s =
     (if s = ''adblock'' then Mode_Adblock
      else if s = ''malware'' then Mode_Malware
      else if s = ''all'' then Mode_All
      else Mode_None)"

datatype block_response = Resp_Nxdomain | Resp_Nullroute

definition block_response_from_str :: "string \<Rightarrow> block_response" where
  "block_response_from_str s = (if s = ''nullroute'' then Resp_Nullroute else Resp_Nxdomain)"

datatype BlockAction =
    Act_Nxdomain
  | Act_NullrouteV4 string
  | Act_NullrouteV6 string
  | Act_Custom string

record blocklist_stats =
  st_total_blocked :: nat
  st_total_whitelisted :: nat
  st_total_custom :: nat
  st_sources_loaded :: nat
  st_queries_blocked :: u64
  st_last_refresh :: "string option"
  st_errors :: u64

definition stats_default :: blocklist_stats where
  "stats_default =
     \<lparr>st_total_blocked = 0, st_total_whitelisted = 0, st_total_custom = 0, st_sources_loaded = 0,
      st_queries_blocked = 0, st_last_refresh = None, st_errors = 0\<rparr>"

record blocklist =
  b_enabled :: bool
  b_mode :: blocklist_mode
  b_blocked :: "string set"
  b_whitelist :: "string set"
  b_custom :: "(string \<times> string) list"
  b_sources :: "string list"
  b_nullroute_v4 :: string
  b_nullroute_v6 :: string
  b_block_response :: block_response
  b_stats :: blocklist_stats

section \<open>Parsing\<close>

definition normalise_domain :: "string \<Rightarrow> string" where
  "normalise_domain domain =
     (let d = trim_end_matches CHR ''.'' (str_lower (trim domain)) in
      case strip_prefix ''*.'' d of
        Some rest \<Rightarrow> rest
      | None \<Rightarrow> if d = ''*'' then [] else d)"

definition strip_inline_comment :: "string \<Rightarrow> string" where
  "strip_inline_comment line =
     (case find_index (\<lambda>c. c = CHR ''#'') line of
        Some pos \<Rightarrow> trim (take pos line)
      | None \<Rightarrow> line)"

definition is_digit :: "char \<Rightarrow> bool" where
  "is_digit c \<longleftrightarrow> CHR ''0'' \<le> c \<and> c \<le> CHR ''9''"

definition is_hexdigit :: "char \<Rightarrow> bool" where
  "is_hexdigit c \<longleftrightarrow> is_digit c \<or> (CHR ''a'' \<le> c \<and> c \<le> CHR ''f'') \<or> (CHR ''A'' \<le> c \<and> c \<le> CHR ''F'')"

definition looks_like_ip :: "string \<Rightarrow> bool" where
  "looks_like_ip s \<longleftrightarrow>
     (CHR ''.'' \<in> set s \<and> list_all (\<lambda>c. is_digit c \<or> c = CHR ''.'') s) \<or>
     (CHR '':'' \<in> set s \<and> list_all (\<lambda>c. is_hexdigit c \<or> c = CHR '':'' \<or> c = CHR ''.'') s)"

definition parse_hosts_line :: "string \<Rightarrow> string option" where
  "parse_hosts_line line =
     (let line = trim line in
      if line = [] then None
      else case split_whitespace line of
             ip # rest \<Rightarrow>
               if \<not> looks_like_ip ip \<and> ip \<noteq> ''0'' then None
               else (case rest of
                       domain # _ \<Rightarrow>
                         let domain = normalise_domain domain in
                         if domain = [] then None else Some domain
                     | [] \<Rightarrow> None)
           | [] \<Rightarrow> None)"

definition parse_domain_line :: "string \<Rightarrow> string option" where
  "parse_domain_line line =
     (let line = trim line in
      if line = [] then None
      else if looks_like_ip line \<or> line = ''0'' \<or> line = ''localhost'' then None
      else
        let cleaned =
              (case strip_prefix ''||'' line of
                 Some rest \<Rightarrow>
                   (case strip_suffix ''^'' rest of Some stripped \<Rightarrow> stripped | None \<Rightarrow> rest)
               | None \<Rightarrow> line);
            domain = normalise_domain cleaned
        in if domain = [] \<or> CHR ''/'' \<in> set domain \<or> CHR '' '' \<in> set domain then None
           else Some domain)"

definition parse_custom_dns_entry :: "string \<Rightarrow> string \<times> string" where
  "parse_custom_dns_entry entry =
     (let entry = trim entry;
          cut = (\<lambda>pos. (trim (take pos entry), trim (drop (pos + 1) entry))) in
      case find_index (\<lambda>c. c = CHR ''='') entry of
        Some pos \<Rightarrow> cut pos
      | None \<Rightarrow>
          (case find_index (\<lambda>c. c = CHR '':'') entry of
             Some pos \<Rightarrow> cut pos
           | None \<Rightarrow>
               (case find_index is_ws entry of
                  Some pos \<Rightarrow> cut pos
                | None \<Rightarrow> (entry, []))))"

text \<open>The suffixes behind each dot, the longest first.\<close>

fun domain_parents :: "string \<Rightarrow> string list" where
  "domain_parents [] = []"
| "domain_parents (c # cs) = (if c = CHR ''.'' then [cs] else []) @ domain_parents cs"

section \<open>Operations\<close>

definition normalised_set :: "string list \<Rightarrow> string set" where
  "normalised_set entries = set (filter (\<lambda>d. d \<noteq> []) (map normalise_domain entries))"

fun custom_map :: "string list \<Rightarrow> (string \<times> string) list \<Rightarrow> (string \<times> string) list" where
  "custom_map [] m = m"
| "custom_map (entry # entries) m =
     (let (domain, value) = parse_custom_dns_entry entry;
          normalised = normalise_domain domain
      in custom_map entries
           (if normalised \<noteq> [] \<and> value \<noteq> [] then AList.update normalised value m else m))"

definition blocklist_new :: "'a server_config \<Rightarrow> blocklist" where
  "blocklist_new config =
     (let mode = blocklist_mode_from_str (s_blocklist_mode config) in
      \<lparr>b_enabled = (mode \<noteq> Mode_None), b_mode = mode,
       b_blocked = normalised_set (s_blocklist config),
       b_whitelist = normalised_set (s_whitelist config),
       b_custom = custom_map (s_custom_dns config) [],
       b_sources = s_blocklist_sources config, b_nullroute_v4 = s_nullroute config,
       b_nullroute_v6 = s_nullroute_v6 config,
       b_block_response = block_response_from_str (s_block_response config),
       b_stats = stats_default\<rparr>)"

definition line_domain :: "string \<Rightarrow> string option" where
  "line_domain line =
     (let line = trim line in
      if line = [] \<or> starts_with ''#'' line then None
      else
        let line = strip_inline_comment line in
        case parse_hosts_line line of
          Some domain \<Rightarrow> if domain \<noteq> [] then Some domain else None
        | None \<Rightarrow>
            (case parse_domain_line line of
               Some domain \<Rightarrow> if domain \<noteq> [] then Some domain else None
             | None \<Rightarrow> None))"

fun insert_lines :: "string list \<Rightarrow> nat \<Rightarrow> string set \<Rightarrow> nat \<times> string set" where
  "insert_lines [] count blocked = (count, blocked)"
| "insert_lines (line # lines) count blocked =
     (case line_domain line of
        None \<Rightarrow> insert_lines lines count blocked
      | Some domain \<Rightarrow>
          insert_lines lines (if domain \<in> blocked then count else count + 1)
            (insert domain blocked))"

definition parse_and_insert :: "string \<Rightarrow> blocklist \<Rightarrow> nat \<times> blocklist" where
  "parse_and_insert data b =
     (let (count, blocked) = insert_lines (str_lines data) 0 (b_blocked b)
      in (count, b\<lparr>b_blocked := blocked\<rparr>))"

definition load_source ::
  "(string \<Rightarrow> string option) \<Rightarrow> (string \<Rightarrow> string option) \<Rightarrow> string \<Rightarrow> blocklist \<Rightarrow> nat option \<times> blocklist" where
  "load_source fetch_url read_file source b =
     (let data = (if starts_with ''http://'' source \<or> starts_with ''https://'' source
                  then fetch_url source else read_file source) in
      case data of
        None \<Rightarrow> (None, b)
      | Some data \<Rightarrow> let (count, b) = parse_and_insert data b in (Some count, b))"

fun load_sources ::
  "(string \<Rightarrow> string option) \<Rightarrow> (string \<Rightarrow> string option) \<Rightarrow> string list \<Rightarrow> nat \<Rightarrow> u64 \<Rightarrow> blocklist \<Rightarrow>
     nat \<times> u64 \<times> blocklist" where
  "load_sources fetch_url read_file [] loaded errors b = (loaded, errors, b)"
| "load_sources fetch_url read_file (source # sources) loaded errors b =
     (case load_source fetch_url read_file source b of
        (Some count, b) \<Rightarrow> load_sources fetch_url read_file sources (loaded + 1) errors b
      | (None, b) \<Rightarrow> load_sources fetch_url read_file sources loaded (errors + 1) b)"

definition blocklist_load ::
  "(string \<Rightarrow> string option) \<Rightarrow> (string \<Rightarrow> string option) \<Rightarrow> string \<Rightarrow> blocklist \<Rightarrow> blocklist" where
  "blocklist_load fetch_url read_file stamp b =
     (if \<not> b_enabled b \<or> b_mode b = Mode_None then b
      else
        let (loaded, errors, b) = load_sources fetch_url read_file (b_sources b) 0 0 b in
        b\<lparr>b_stats := (b_stats b)\<lparr>st_total_blocked := card (b_blocked b),
            st_total_whitelisted := card (b_whitelist b), st_total_custom := length (b_custom b),
            st_sources_loaded := loaded, st_last_refresh := Some stamp,
            st_errors := st_errors (b_stats b) + errors\<rparr>\<rparr>)"

text \<open>One round of the endless loop of \<open>refresh\<close>, after its sleep of a day.\<close>

definition refresh_cycle ::
  "(string \<Rightarrow> string option) \<Rightarrow> (string \<Rightarrow> string option) \<Rightarrow> string \<Rightarrow> blocklist \<Rightarrow> blocklist" where
  "refresh_cycle fetch_url read_file stamp b =
     (if \<not> b_enabled b \<or> b_mode b = Mode_None then b
      else
        let b = b\<lparr>b_blocked := {}\<rparr>;
            (loaded, errors, b) = load_sources fetch_url read_file (b_sources b) 0 0 b in
        b\<lparr>b_stats := (b_stats b)\<lparr>st_total_blocked := card (b_blocked b),
            st_sources_loaded := loaded, st_last_refresh := Some stamp,
            st_errors := st_errors (b_stats b) + errors\<rparr>\<rparr>)"

definition block_action :: "blocklist \<Rightarrow> BlockAction" where
  "block_action b =
     (case b_block_response b of
        Resp_Nxdomain \<Rightarrow> Act_Nxdomain
      | Resp_Nullroute \<Rightarrow> Act_NullrouteV4 (b_nullroute_v4 b))"

fun custom_parent_loop :: "(string \<rightharpoonup> string) \<Rightarrow> string list \<Rightarrow> BlockAction option" where
  "custom_parent_loop custom [] = None"
| "custom_parent_loop custom (parent # parents) =
     (case custom parent of
        Some value \<Rightarrow> if value = [] \<or> value = ''none'' then None else Some (Act_Custom value)
      | None \<Rightarrow> custom_parent_loop custom parents)"

definition check_custom_parent :: "string \<Rightarrow> (string \<rightharpoonup> string) \<Rightarrow> BlockAction option" where
  "check_custom_parent domain custom = custom_parent_loop custom (domain_parents domain)"

fun find_custom_loop :: "(string \<rightharpoonup> string) \<Rightarrow> string list \<Rightarrow> string option" where
  "find_custom_loop custom [] = None"
| "find_custom_loop custom (parent # parents) =
     (case custom parent of Some value \<Rightarrow> Some value | None \<Rightarrow> find_custom_loop custom parents)"

definition find_parent_custom :: "string \<Rightarrow> (string \<rightharpoonup> string) \<Rightarrow> string option" where
  "find_parent_custom domain custom = find_custom_loop custom (domain_parents domain)"

definition is_whitelisted_parent :: "string \<Rightarrow> string set \<Rightarrow> bool" where
  "is_whitelisted_parent domain whitelist \<longleftrightarrow>
     list_ex (\<lambda>parent. parent \<in> whitelist) (domain_parents domain)"

definition is_blocked_parent :: "string \<Rightarrow> string set \<Rightarrow> bool" where
  "is_blocked_parent domain blocked \<longleftrightarrow>
     list_ex (\<lambda>parent. parent \<in> blocked) (domain_parents domain)"

definition is_blocked :: "blocklist \<Rightarrow> string \<Rightarrow> BlockAction option" where
  "is_blocked b domain =
     (if \<not> b_enabled b then None
      else
        let normalised = normalise_domain domain in
        if normalised = [] then None
        else
          case map_of (b_custom b) normalised of
            Some value \<Rightarrow>
              if value = [] \<or> value = ''none'' then None else Some (Act_Custom value)
          | None \<Rightarrow>
              (case check_custom_parent normalised (map_of (b_custom b)) of
                 Some action \<Rightarrow> Some action
               | None \<Rightarrow>
                   if normalised \<in> b_whitelist b then None
                   else if is_whitelisted_parent normalised (b_whitelist b) then None
                   else if normalised \<in> b_blocked b then Some (block_action b)
                   else if is_blocked_parent normalised (b_blocked b) then Some (block_action b)
                   else None))"

definition get_custom :: "blocklist \<Rightarrow> string \<Rightarrow> string option" where
  "get_custom b domain =
     (if \<not> b_enabled b then None
      else
        let normalised = normalise_domain domain in
        if normalised = [] then None
        else case map_of (b_custom b) normalised of
               Some value \<Rightarrow> Some value
             | None \<Rightarrow> find_parent_custom normalised (map_of (b_custom b)))"

definition record_blocked :: "blocklist \<Rightarrow> blocklist" where
  "record_blocked b =
     b\<lparr>b_stats := (b_stats b)\<lparr>st_queries_blocked := st_queries_blocked (b_stats b) + 1\<rparr>\<rparr>"

section \<open>Parent domains\<close>

lemma domain_parents_iff: "p \<in> set (domain_parents d) \<longleftrightarrow> (\<exists>l. d = l @ CHR ''.'' # p)"
proof (induction d)
  case (Cons c d)
  show ?case
  proof
    assume "p \<in> set (domain_parents (c # d))"
    then show "\<exists>l. c # d = l @ CHR ''.'' # p"
      using Cons by (auto split: if_splits intro: exI [of _ "[]"] exI [of _ "c # _"])
  next
    assume "\<exists>l. c # d = l @ CHR ''.'' # p"
    then obtain l where "c # d = l @ CHR ''.'' # p" by blast
    then show "p \<in> set (domain_parents (c # d))"
      using Cons by (cases l) auto
  qed
qed simp

text \<open>A set of domains covers a name that it contains, or that it contains a parent of.\<close>

definition covers :: "string set \<Rightarrow> string \<Rightarrow> bool" where
  "covers S d \<longleftrightarrow> d \<in> S \<or> (\<exists>p. (\<exists>l. d = l @ CHR ''.'' # p) \<and> p \<in> S)"

lemma is_whitelisted_parent_iff:
  "d \<in> S \<or> is_whitelisted_parent d S \<longleftrightarrow> covers S d"
  by (simp only: is_whitelisted_parent_def covers_def list_ex_iff Bex_def domain_parents_iff)

lemma is_blocked_parent_iff: "d \<in> S \<or> is_blocked_parent d S \<longleftrightarrow> covers S d"
  by (simp only: is_blocked_parent_def covers_def list_ex_iff Bex_def domain_parents_iff)

lemma custom_parent_none: "\<forall>p \<in> set ps. m p = None \<Longrightarrow> custom_parent_loop m ps = None"
  by (induction ps) auto

lemma custom_parent_loop_find:
  "custom_parent_loop m ps =
     (case find_custom_loop m ps of
        None \<Rightarrow> None
      | Some v \<Rightarrow> if v = [] \<or> v = ''none'' then None else Some (Act_Custom v))"
  by (induction ps) (auto split: option.splits)

text \<open>The custom record nearest to a name: its own, or that of its longest parent with one.\<close>

definition nearest_custom :: "(string \<rightharpoonup> string) \<Rightarrow> string \<Rightarrow> string option" where
  "nearest_custom m d = find_custom_loop m (d # domain_parents d)"

text \<open>
  The names above a domain end with it after a dot; of the records of a domain and of the names above it
  the nearest is the one with the longest name.
\<close>

definition at_or_above :: "string \<Rightarrow> string \<Rightarrow> bool" where
  "at_or_above d p \<longleftrightarrow> p = d \<or> (\<exists>l. d = l @ CHR ''.'' # p)"

definition nearest_record :: "(string \<rightharpoonup> string) \<Rightarrow> string \<Rightarrow> string \<Rightarrow> string \<Rightarrow> bool" where
  "nearest_record m d p v \<longleftrightarrow> at_or_above d p \<and> m p = Some v \<and> (\<forall>q. at_or_above d q \<and> length p < length q \<longrightarrow> m q = None)"

lemma parents_shrink: "sorted_wrt (\<lambda>p q. length q < length p) (domain_parents d) \<and> (\<forall>p \<in> set (domain_parents d). length p < length d)"
  by (induction d) auto

lemma find_custom_longest:
  "sorted_wrt (\<lambda>p q. length q < length p) ps \<Longrightarrow>
     find_custom_loop m ps = Some v \<longleftrightarrow>
       (\<exists>p \<in> set ps. m p = Some v \<and> (\<forall>q \<in> set ps. length p < length q \<longrightarrow> m q = None))"
proof (induction ps)
  case (Cons p ps)
  then have later: "\<forall>q \<in> set ps. length q < length p" and sorted: "sorted_wrt (\<lambda>p q. length q < length p) ps" by simp_all
  show ?case
  proof (cases "m p")
    case None
    with Cons.IH [OF sorted] show ?thesis by simp
  next
    case (Some w)
    have "w = v" if "q \<in> set (p # ps)" "m q = Some v" "\<forall>r \<in> set (p # ps). length q < length r \<longrightarrow> m r = None" for q
      using that later Some by (cases "q = p") auto
    moreover have "\<forall>r \<in> set (p # ps). length p < length r \<longrightarrow> m r = None" using later by auto
    ultimately show ?thesis using Some by (auto simp del: set_simps intro: bexI [of _ p]) simp_all
  qed
qed simp

lemma nearest_custom_iff: "nearest_custom m d = Some v \<longleftrightarrow> (\<exists>p. nearest_record m d p v)"
proof -
  have names: "p \<in> set (d # domain_parents d) \<longleftrightarrow> at_or_above d p" for p
    unfolding at_or_above_def by (simp add: domain_parents_iff)
  show ?thesis
    unfolding nearest_custom_def nearest_record_def
    using find_custom_longest [of "d # domain_parents d" m v] parents_shrink [of d]
    by (simp only: names sorted_wrt.simps Bex_def Ball_def) blast
qed

lemma nearest_custom_eq:
  "nearest_custom m d = (case m d of Some v \<Rightarrow> Some v | None \<Rightarrow> find_parent_custom d m)"
  by (simp add: nearest_custom_def find_parent_custom_def split: option.split)

lemma check_custom_parent_eq:
  "check_custom_parent d m =
     (case find_parent_custom d m of
        None \<Rightarrow> None
      | Some v \<Rightarrow> if v = [] \<or> v = ''none'' then None else Some (Act_Custom v))"
  by (simp add: check_custom_parent_def find_parent_custom_def custom_parent_loop_find)

text \<open>What remains once the custom records have been passed.\<close>

definition list_verdict :: "blocklist \<Rightarrow> string \<Rightarrow> BlockAction option" where
  "list_verdict b d =
     (if covers (b_whitelist b) d then None
      else if covers (b_blocked b) d then Some (block_action b) else None)"

lemma list_verdict_eq:
  "(if d \<in> b_whitelist b then None
    else if is_whitelisted_parent d (b_whitelist b) then None
    else if d \<in> b_blocked b then Some (block_action b)
    else if is_blocked_parent d (b_blocked b) then Some (block_action b)
    else None) = list_verdict b d"
  using is_whitelisted_parent_iff [of d "b_whitelist b"] is_blocked_parent_iff [of d "b_blocked b"]
  by (auto simp: list_verdict_def)

lemma is_blocked_eq:
  "is_blocked b domain =
     (let d = normalise_domain domain in
      if \<not> b_enabled b \<or> d = [] then None
      else case nearest_custom (map_of (b_custom b)) d of
             Some v \<Rightarrow>
               if v \<noteq> [] \<and> v \<noteq> ''none'' then Some (Act_Custom v)
               else if map_of (b_custom b) d = None then list_verdict b d else None
           | None \<Rightarrow> list_verdict b d)"
  unfolding is_blocked_def list_verdict_eq check_custom_parent_eq nearest_custom_eq
  by (auto simp: Let_def split: option.splits)

section \<open>Loading\<close>

definition data_domains :: "string \<Rightarrow> string set" where
  "data_domains data = {d. \<exists>line \<in> set (str_lines data). line_domain line = Some d}"

lemma insert_lines_set:
  "snd (insert_lines ls n S) = S \<union> {d. \<exists>line \<in> set ls. line_domain line = Some d}"
  by (induction ls arbitrary: n S) (auto split: option.splits)

lemma insert_lines_count:
  "finite S \<Longrightarrow> fst (insert_lines ls n S) + card S = n + card (snd (insert_lines ls n S))"
proof (induction ls arbitrary: n S)
  case (Cons line ls)
  show ?case
  proof (cases "line_domain line")
    case None
    with Cons show ?thesis by simp
  next
    case (Some d)
    from Cons.IH [of "insert d S" "if d \<in> S then n else n + 1"] Cons.prems Some show ?thesis
      by (cases "d \<in> S") (simp_all add: insert_absorb)
  qed
qed simp

lemma parse_and_insert_blocked:
  "snd (parse_and_insert data b) = b\<lparr>b_blocked := b_blocked b \<union> data_domains data\<rparr>"
  using insert_lines_set [of "str_lines data" 0 "b_blocked b"]
  by (simp add: parse_and_insert_def data_domains_def case_prod_unfold Let_def)

definition source_data ::
  "(string \<Rightarrow> string option) \<Rightarrow> (string \<Rightarrow> string option) \<Rightarrow> string \<Rightarrow> string option" where
  "source_data fetch_url read_file source =
     (if starts_with ''http://'' source \<or> starts_with ''https://'' source
      then fetch_url source else read_file source)"

definition sources_domains ::
  "(string \<Rightarrow> string option) \<Rightarrow> (string \<Rightarrow> string option) \<Rightarrow> string list \<Rightarrow> string set" where
  "sources_domains fetch_url read_file sources =
     (\<Union>source \<in> set sources. case source_data fetch_url read_file source of
        None \<Rightarrow> {} | Some data \<Rightarrow> data_domains data)"

lemma load_source_blocked:
  "snd (load_source f r source b) =
     (case source_data f r source of
        None \<Rightarrow> b | Some data \<Rightarrow> b\<lparr>b_blocked := b_blocked b \<union> data_domains data\<rparr>)"
  using parse_and_insert_blocked
  by (simp add: load_source_def source_data_def Let_def case_prod_unfold split: option.splits)

lemma load_sources_blocked:
  "snd (snd (load_sources f r sources n e b)) =
     b\<lparr>b_blocked := b_blocked b \<union> sources_domains f r sources\<rparr>"
proof (induction sources arbitrary: n e b)
  case (Cons source sources)
  obtain x b' where l: "load_source f r source b = (x, b')" by fastforce
  then have b': "b' = b\<lparr>b_blocked := b_blocked b \<union> sources_domains f r [source]\<rparr>"
    using load_source_blocked [of f r source b] by (auto simp: sources_domains_def split: option.splits)
  have "sources_domains f r (source # sources) = sources_domains f r [source] \<union> sources_domains f r sources"
    by (simp add: sources_domains_def)
  then show ?case using Cons l b' by (cases x) (simp_all add: Un_assoc)
qed (simp add: sources_domains_def)

lemma load_blocked:
  assumes "b_enabled b" "b_mode b \<noteq> Mode_None"
  shows "b_blocked (blocklist_load f r stamp b) = b_blocked b \<union> sources_domains f r (b_sources b)"
    "b_whitelist (blocklist_load f r stamp b) = b_whitelist b"
    "b_custom (blocklist_load f r stamp b) = b_custom b"
    "b_enabled (blocklist_load f r stamp b) = b_enabled b"
    "block_action (blocklist_load f r stamp b) = block_action b"
  using assms load_sources_blocked [of f r "b_sources b" 0 0 b]
  by (simp_all add: blocklist_load_def case_prod_unfold Let_def block_action_def split: block_response.split)

lemma refresh_blocked:
  assumes "b_enabled b" "b_mode b \<noteq> Mode_None"
  shows "b_blocked (refresh_cycle f r stamp b) = sources_domains f r (b_sources b)"
    "b_whitelist (refresh_cycle f r stamp b) = b_whitelist b"
    "b_custom (refresh_cycle f r stamp b) = b_custom b"
    "b_enabled (refresh_cycle f r stamp b) = b_enabled b"
  using assms load_sources_blocked [of f r "b_sources b" 0 0 "b\<lparr>b_blocked := {}\<rparr>"]
  by (simp_all add: refresh_cycle_def case_prod_unfold Let_def)

lemma find_custom_single: "d \<in> set ps \<Longrightarrow> find_custom_loop [d \<mapsto> v] ps = Some v"
  by (induction ps) auto

section \<open>The invariant\<close>

definition custom_ok :: "(string \<times> string) list \<Rightarrow> bool" where
  "custom_ok m \<longleftrightarrow> distinct (map fst m) \<and> (\<forall>(d, v) \<in> set m. d \<noteq> [] \<and> v \<noteq> [])"

text \<open>The stored names are not empty, the sets are finite, and no custom record is empty.\<close>

definition blocklist_inv :: "blocklist \<Rightarrow> bool" where
  "blocklist_inv b \<longleftrightarrow> finite (b_blocked b) \<and> [] \<notin> b_blocked b \<and> finite (b_whitelist b) \<and>
     [] \<notin> b_whitelist b \<and> custom_ok (b_custom b) \<and>
     (b_enabled b \<longleftrightarrow> b_mode b \<noteq> Mode_None)"

lemma set_alist_update: "set (AList.update k v m) \<subseteq> insert (k, v) (set m)"
  by (induction m) auto

lemma custom_ok_update: "custom_ok m \<Longrightarrow> k \<noteq> [] \<Longrightarrow> v \<noteq> [] \<Longrightarrow> custom_ok (AList.update k v m)"
  using set_alist_update [of k v m] by (auto simp: custom_ok_def distinct_update)

lemma custom_map_inv: "custom_ok m \<Longrightarrow> custom_ok (custom_map es m)"
  by (induction es arbitrary: m) (auto simp: Let_def case_prod_unfold intro: custom_ok_update)

lemma blocklist_new_inv: "blocklist_inv (blocklist_new config)"
  using custom_map_inv [of "[]" "s_custom_dns config"]
  by (simp add: blocklist_inv_def blocklist_new_def normalised_set_def Let_def custom_ok_def)

lemma line_domain_nonempty: "line_domain line = Some d \<Longrightarrow> d \<noteq> []"
  by (auto simp: line_domain_def Let_def split: if_splits option.splits)

lemma data_domains_finite: "finite (data_domains data) \<and> [] \<notin> data_domains data"
proof -
  have "data_domains data \<subseteq> (\<lambda>l. the (line_domain l)) ` set (str_lines data)"
    by (force simp: data_domains_def image_iff)
  then show ?thesis
    by (auto simp: data_domains_def dest: line_domain_nonempty finite_subset)
qed

lemma sources_domains_finite: "finite (sources_domains f r ss) \<and> [] \<notin> sources_domains f r ss"
  using data_domains_finite by (auto simp: sources_domains_def split: option.splits)

lemma blocklist_load_inv: "blocklist_inv b \<Longrightarrow> blocklist_inv (blocklist_load f r stamp b)"
  using load_sources_blocked [of f r "b_sources b" 0 0 b] sources_domains_finite [of f r "b_sources b"]
  by (auto simp: blocklist_inv_def blocklist_load_def case_prod_unfold Let_def)

lemma refresh_cycle_inv: "blocklist_inv b \<Longrightarrow> blocklist_inv (refresh_cycle f r stamp b)"
  using load_sources_blocked [of f r "b_sources b" 0 0 "b\<lparr>b_blocked := {}\<rparr>"]
    sources_domains_finite [of f r "b_sources b"]
  by (auto simp: blocklist_inv_def refresh_cycle_def case_prod_unfold Let_def)

lemma record_blocked_inv: "blocklist_inv b \<Longrightarrow> blocklist_inv (record_blocked b)"
  by (simp add: blocklist_inv_def record_blocked_def)

inductive blocklist_run :: "'a server_config \<Rightarrow> blocklist \<Rightarrow> bool" for config where
  bl_start: "blocklist_run config (blocklist_new config)"
| bl_load: "blocklist_run config b \<Longrightarrow> blocklist_run config (blocklist_load f r stamp b)"
| bl_refresh: "blocklist_run config b \<Longrightarrow> blocklist_run config (refresh_cycle f r stamp b)"
| bl_record: "blocklist_run config b \<Longrightarrow> blocklist_run config (record_blocked b)"

section \<open>Properties\<close>

text \<open>
  In every state the filter can reach from a configuration, the stored names are not empty, the
  sets are finite, custom records have values, and filtering is enabled exactly when the mode is
  not \<open>none\<close>.
\<close>

theorem blocklist_run_inv:
  assumes "blocklist_run config b"
  shows "blocklist_inv b"
  using assms
  by induction (auto intro: blocklist_new_inv blocklist_load_inv refresh_cycle_inv record_blocked_inv)

definition example_server :: "unit server_config" where
  "example_server =
     \<lparr>s_bind_addr = (), s_enable_ipv6 = False, s_dnssec_ok = False, s_prefetch_domains = [],
      s_cache_size = 1, s_verbose = False, s_upstream = None, s_rate_limit_qps = 0,
      s_rate_limit_burst = 0, s_log_file = [], s_api_bind = None, s_metrics_enabled = False,
      s_dnssec_policy = ''ad'', s_blocklist_mode = ''all'', s_blocklist_sources = [''ads.txt''],
      s_blocklist = [''Tracker.net''], s_whitelist = [''good.ads.io''],
      s_custom_dns = [''home.lan=10.0.0.1'', ''free.org=none''], s_nullroute = ''0.0.0.0'',
      s_nullroute_v6 = ''::'', s_block_response = ''nxdomain''\<rparr>"

definition example_read :: "string \<Rightarrow> string option" where
  "example_read s = (if s = ''ads.txt''
     then Some (''0.0.0.0 ads.io # banner'' @ [char_of (10 :: nat)] @ ''||free.org^'') else None)"

definition example_list :: blocklist where
  "example_list = blocklist_load (\<lambda>u. None) example_read ''today'' (blocklist_new example_server)"

theorem blocklist_run_inv_witness: "blocklist_inv example_list"
  unfolding example_list_def by (rule blocklist_run_inv [OF bl_load [OF bl_start]])

text \<open>
  C17. The lookup order: a disabled filter and an empty name block nothing; otherwise, of the custom
  records of the name and of the domains above it, the one of the longest name decides if it has a
  value; otherwise, if the name has no record of its own, it is blocked if it or a domain above it is
  on the blocklist and neither it nor a domain above it is on the whitelist.  So a record \<open>none\<close> of the
  name itself allows it, one of a domain above it does not.
\<close>

theorem is_blocked_precedence:
  "let d = normalise_domain domain; m = map_of (b_custom b) in
   is_blocked b domain = Some action \<longleftrightarrow>
     b_enabled b \<and> d \<noteq> [] \<and>
     ((\<exists>p v. nearest_record m d p v \<and> v \<noteq> [] \<and> v \<noteq> ''none'' \<and> action = Act_Custom v) \<or>
      (\<nexists>p v. nearest_record m d p v \<and> v \<noteq> [] \<and> v \<noteq> ''none'') \<and> m d = None \<and>
        covers (b_blocked b) d \<and> \<not> covers (b_whitelist b) d \<and> action = block_action b)"
proof -
  let ?d = "normalise_domain domain" and ?m = "map_of (b_custom b)"
  have own: "nearest_custom ?m ?d = None \<Longrightarrow> ?m ?d = None" by (simp add: nearest_custom_eq split: option.splits)
  have records: "(\<exists>p v. nearest_record ?m ?d p v \<and> P v) \<longleftrightarrow> (\<exists>v. nearest_custom ?m ?d = Some v \<and> P v)" for P
    by (auto simp: nearest_custom_iff)
  show ?thesis
    unfolding Let_def is_blocked_eq records
    using own by (cases "nearest_custom ?m ?d") (auto simp: list_verdict_def)
qed

lemma example_list_fields:
  "b_enabled example_list" "b_custom example_list = [(''home.lan'', ''10.0.0.1''), (''free.org'', ''none'')]"
  "b_whitelist example_list = {''good.ads.io''}"
  "b_blocked example_list = {''tracker.net'', ''ads.io'', ''free.org''}"
  "b_block_response example_list = Resp_Nxdomain"
  by code_simp+

lemma covers_iff: "covers S d \<longleftrightarrow> d \<in> S \<or> list_ex (\<lambda>p. p \<in> S) (domain_parents d)"
  by (simp only: covers_def list_ex_iff Bex_def domain_parents_iff)

lemma domain_parents_child:
  "CHR ''.'' \<notin> set l \<Longrightarrow> domain_parents (l @ CHR ''.'' # d) = d # domain_parents d"
  by (induction l) auto

text \<open>
  A custom record \<open>none\<close> on a domain does not unblock its subdomains: with the domain on the
  blocklist, the domain itself is allowed and a subdomain one label below, with no custom record of
  its own and outside the whitelist, is still blocked.
\<close>

theorem parent_none_still_blocks:
  assumes "b_enabled b" "normalise_domain sub = l @ CHR ''.'' # d" "CHR ''.'' \<notin> set l"
    and "normalise_domain d = d" "d \<noteq> []" "map_of (b_custom b) d = Some ''none''"
    and "map_of (b_custom b) (normalise_domain sub) = None"
    and "\<not> covers (b_whitelist b) (normalise_domain sub)" "d \<in> b_blocked b"
  shows "is_blocked b d = None \<and> is_blocked b sub = Some (block_action b)"
proof -
  have "find_parent_custom (normalise_domain sub) (map_of (b_custom b)) = Some ''none''"
    using assms(2,3,6) by (simp add: find_parent_custom_def domain_parents_child)
  moreover have "covers (b_blocked b) (normalise_domain sub)"
    using assms(2,9) by (auto simp: covers_def)
  moreover have "normalise_domain sub \<noteq> []" using assms(2) by simp
  ultimately show ?thesis
    using assms(1,4-8) by (simp add: is_blocked_eq nearest_custom_eq list_verdict_def)
qed

lemma example_names:
  "normalise_domain ''WWW.Free.org.'' = ''www.free.org''" "normalise_domain ''free.org'' = ''free.org''"
  by code_simp+

theorem parent_none_still_blocks_witness:
  "is_blocked example_list ''free.org'' = None \<and>
   is_blocked example_list ''WWW.Free.org.'' = Some (block_action example_list)"
  using parent_none_still_blocks [of example_list "''WWW.Free.org.''" "''www''" "''free.org''"]
  by (simp add: example_list_fields example_names covers_iff)

text \<open>
  Loading adds the domains of every source that can be read to the configured entries; a refresh
  replaces the whole set by the domains of the sources, so the entries of the configuration's own
  list are gone after it.
\<close>

theorem refresh_drops_configured_entries:
  fixes config :: "'a server_config" and fetch_url read_file :: "string \<Rightarrow> string option"
  assumes "blocklist_mode_from_str (s_blocklist_mode config) \<noteq> Mode_None"
  defines "b \<equiv> blocklist_new config"
    and "doms \<equiv> sources_domains fetch_url read_file (s_blocklist_sources config)"
  shows "b_blocked (blocklist_load fetch_url read_file stamp b) = normalised_set (s_blocklist config) \<union> doms"
    "b_blocked (refresh_cycle fetch_url read_file stamp' (blocklist_load fetch_url read_file stamp b)) = doms"
proof -
  have b: "b_enabled b" "b_mode b \<noteq> Mode_None" "b_sources b = s_blocklist_sources config"
    "b_blocked b = normalised_set (s_blocklist config)"
    using assms(1) by (simp_all add: b_def blocklist_new_def Let_def)
  let ?l = "blocklist_load fetch_url read_file stamp b"
  show "b_blocked ?l = normalised_set (s_blocklist config) \<union> doms"
    using load_blocked(1) [OF b(1,2)] b by (simp add: doms_def)
  have "b_enabled ?l" "b_mode ?l \<noteq> Mode_None" "b_sources ?l = b_sources b"
    using b load_sources_blocked [of fetch_url read_file "b_sources b" 0 0 b]
    by (simp_all add: blocklist_load_def case_prod_unfold Let_def)
  then show "b_blocked (refresh_cycle fetch_url read_file stamp' ?l) = doms"
    using b(3) by (simp add: refresh_blocked(1) doms_def)
qed

lemma example_sets:
  "normalised_set (s_blocklist example_server) = {''tracker.net''}"
  "sources_domains (\<lambda>u. None) example_read (s_blocklist_sources example_server) = {''ads.io'', ''free.org''}"
proof -
  have "line_domain ''0.0.0.0 ads.io # banner'' = Some ''ads.io''" "line_domain ''||free.org^'' = Some ''free.org''"
    "str_lines (the (example_read ''ads.txt'')) = [''0.0.0.0 ads.io # banner'', ''||free.org^'']"
    "example_read ''ads.txt'' \<noteq> None" "source_data (\<lambda>u. None) example_read ''ads.txt'' = example_read ''ads.txt''"
    by code_simp+
  then show "sources_domains (\<lambda>u. None) example_read (s_blocklist_sources example_server) = {''ads.io'', ''free.org''}"
    by (auto simp: sources_domains_def data_domains_def example_server_def split: option.splits)
qed code_simp

theorem refresh_drops_configured_entries_witness:
  "''tracker.net'' \<in> b_blocked example_list \<and>
   ''tracker.net'' \<notin> b_blocked (refresh_cycle (\<lambda>u. None) example_read ''tomorrow'' example_list)"
proof -
  have "blocklist_mode_from_str (s_blocklist_mode example_server) \<noteq> Mode_None"
    by code_simp
  from refresh_drops_configured_entries [OF this, of "\<lambda>u. None" example_read] show ?thesis
    by (simp add: example_list_def example_sets)
qed

end
