(* ===== verification/Permits.thy ===== *)
theory Permits
  imports Prelude
begin

text \<open>
  Both servers bound their concurrent work with a semaphore (\<open>try_acquire_owned\<close>): a unit of work
  takes a permit when it is spawned and gives it back when it ends, and a request that finds no
  permit is turned away at once.  The contract of such a server, and what follows from it.
\<close>

locale permit_tasks =
  fixes permits :: "'s \<Rightarrow> nat"
    and tasks :: "'s \<Rightarrow> 't list"
    and step :: "'s \<Rightarrow> 's \<Rightarrow> bool"
    and can_end :: "'t \<Rightarrow> bool"
  assumes step_permits: "step s s' \<Longrightarrow>
      permits s' + length (tasks s') = permits s + length (tasks s)"
    and step_end: "tasks s = t # ts \<Longrightarrow> can_end t \<Longrightarrow> \<exists>s'. step s s' \<and> tasks s' = ts"
begin

lemma permits_run: "step\<^sup>*\<^sup>* s s' \<Longrightarrow> permits s' + length (tasks s') = permits s + length (tasks s)"
  by (induction rule: rtranclp_induct) (auto dest: step_permits)

lemma drains:
  assumes "list_all can_end (tasks s)"
  shows "\<exists>s'. step\<^sup>*\<^sup>* s s' \<and> tasks s' = []"
  using assms
proof (induction "tasks s" arbitrary: s)
  case (Cons t ts)
  then obtain s' where s': "step s s'" "tasks s' = ts"
    using step_end [of s t ts] by (metis list.pred_inject(2))
  have "list_all can_end (tasks s')"
    using Cons.prems s'(2) unfolding Cons.hyps(2) [symmetric] by simp
  from Cons.hyps(1) [OF s'(2) [symmetric] this] show ?case
    using s'(1) by (meson converse_rtranclp_into_rtranclp)
qed auto

end

text \<open>A server that starts with all its permits free.\<close>

locale permit_server = permit_tasks permits tasks step can_end
  for permits :: "'s \<Rightarrow> nat" and tasks :: "'s \<Rightarrow> 't list" and step :: "'s \<Rightarrow> 's \<Rightarrow> bool" and can_end :: "'t \<Rightarrow> bool" +
  fixes start :: 's
    and capacity :: nat
  assumes start_free: "permits start = capacity" "tasks start = []"
begin

lemma permits_reachable:
  assumes "step\<^sup>*\<^sup>* start s"
  shows "permits s + length (tasks s) = capacity"
  using permits_run [OF assms] by (simp add: start_free)

lemma drains_completely:
  assumes "step\<^sup>*\<^sup>* start s" "list_all can_end (tasks s)"
  shows "\<exists>s'. step\<^sup>*\<^sup>* s s' \<and> tasks s' = [] \<and> permits s' = capacity"
proof -
  obtain s' where s': "step\<^sup>*\<^sup>* s s'" "tasks s' = []" using drains [OF assms(2)] by blast
  with permits_run permits_reachable [OF assms(1)] have "permits s' = capacity" by fastforce
  with s' show ?thesis by blast
qed

end

end
