(* ===== verification/Server_Udp.thy ===== *)
theory Server_Udp
  imports Wire_Message Permits
begin

text \<open>
  The UDP server of \<open>src/src/server/udp.rs\<close>: what it answers to a datagram, and how the semaphore
  bounds the queries in flight.  The resolver the server calls is an argument, a record of the two
  operations \<open>resolve_with_ad\<close> and \<open>resolve_dnssec\<close> over a resolver state, so every statement here
  holds whatever the resolver answers.  The result of a handler is the list of payloads it hands to
  \<open>send_to\<close> (whose own result the code ignores), its return value and the resolver's new state.
\<close>

section \<open>Responses\<close>

definition MAX_CONCURRENT_QUERIES :: nat where "MAX_CONCURRENT_QUERIES = 1024"

fun split_cnames ::
  "resource_record list \<Rightarrow> resource_record list \<Rightarrow> resource_record list \<Rightarrow>
     resource_record list \<times> resource_record list" where
  "split_cnames [] cnames finals = (cnames, finals)"
| "split_cnames (rec # answers) cnames finals =
     (if rr_type rec = 5 then split_cnames answers (cnames @ [rec]) finals
      else split_cnames answers cnames (finals @ [rec]))"

definition build_response ::
  "header \<Rightarrow> question \<Rightarrow> resource_record list \<Rightarrow> resource_record list \<Rightarrow> bool \<Rightarrow> message" where
  "build_response req_header q answers additionals ad =
     (let header = (new_response (h_id req_header) 0)\<lparr>h_rd := h_rd req_header, h_ra := True, h_ad := ad\<rparr>;
          (cnames, finals) = split_cnames answers [] []
      in \<lparr>m_header = header, m_questions = [q], m_answers = cnames @ finals, m_authorities = [],
          m_additionals = additionals\<rparr>)"

definition client_wants_dnssec :: "message \<Rightarrow> bool" where
  "client_wants_dnssec request \<longleftrightarrow>
     list_ex (\<lambda>r. rr_type r = 41 \<and> (drop_bit 15 (rr_ttl r)) AND 1 = 1) (m_additionals request)"

definition dnssec_opt_record :: resource_record where
  "dnssec_opt_record =
     \<lparr>rr_name = [0], rr_type = 41, rr_class = 4096, rr_ttl = push_bit 15 1, rr_rdlength = 0,
      rr_rdata = [], rr_parsed = None\<rparr>"

definition extract_zone :: "string \<Rightarrow> string" where
  "extract_zone name =
     (let labels = split_on CHR ''.'' (trim_end_matches CHR ''.'' name) in
      if length labels \<ge> 2
      then labels ! (length labels - 2) @ ''.'' @ labels ! (length labels - 1)
      else trim_end_matches CHR ''.'' name)"

definition record_type_name :: "u16 \<Rightarrow> string" where
  "record_type_name t =
     (if t = 1 then ''A'' else if t = 2 then ''NS'' else if t = 5 then ''CNAME''
      else if t = 15 then ''MX'' else if t = 16 then ''TXT'' else if t = 28 then ''AAAA''
      else if t = 33 then ''SRV'' else if t = 255 then ''ANY'' else ''TYPE??'')"

definition quick_question :: "bytes \<Rightarrow> question list dns_result" where
  "quick_question query_data =
     (if length query_data \<ge> 12
      then let qdcount = be16 ((query_data ! 4) AND 0x0f) (query_data ! 5) in
        if qdcount > 0
        then (case question_from_bytes query_data 12 of
                Ok (q, _) \<Rightarrow> Ok [q] | Err _ \<Rightarrow> Ok [] | Panic \<Rightarrow> Panic | Diverge \<Rightarrow> Diverge)
        else Ok []
      else Ok [])"

definition quick_message :: "bytes \<Rightarrow> u8 \<Rightarrow> question list \<Rightarrow> message" where
  "quick_message query_data rcode questions =
     \<lparr>m_header = new_response (be16 (query_data ! 0) (query_data ! 1)) rcode,
      m_questions = questions, m_answers = [], m_authorities = [], m_additionals = []\<rparr>"

definition quick_error_response :: "bytes \<Rightarrow> u8 \<Rightarrow> bytes option dns_result" where
  "quick_error_response query_data rcode =
     (if length query_data < 2 then Ok None
      else obind (quick_question query_data) (\<lambda>questions.
             case encode_message (quick_message query_data rcode questions) of
               Ok bytes \<Rightarrow> Ok (Some bytes) | Err _ \<Rightarrow> Ok None | Panic \<Rightarrow> Panic | Diverge \<Rightarrow> Diverge))"

section \<open>One query\<close>

record 'r resolver_ops =
  resolve_with_ad_op :: "string \<Rightarrow> u16 \<Rightarrow> u16 \<Rightarrow> 'r \<Rightarrow> (resource_record list \<times> bool) dns_result \<times> 'r"
  resolve_dnssec_op :: "string \<Rightarrow> u16 \<Rightarrow> u16 \<Rightarrow> 'r \<Rightarrow> resource_record list \<times> 'r"

text \<open>The DNSKEY and RRSIG records and the OPT record that a client asking for DNSSEC is sent.\<close>

definition dnssec_additionals ::
  "'r resolver_ops \<Rightarrow> string \<Rightarrow> u16 \<Rightarrow> 'r \<Rightarrow> resource_record list dns_result \<times> 'r" where
  "dnssec_additionals R qname qclass s =
     (let (keys, s) = resolve_with_ad_op R (extract_zone qname) 48 qclass s;
          rest = (\<lambda>dnskeys. let (rrsigs, s) = resolve_dnssec_op R qname 46 qclass s
                            in (Ok (dnskeys @ rrsigs @ [dnssec_opt_record]), s))
      in case keys of
           Ok (dnskeys, _) \<Rightarrow> rest dnskeys
         | Err _ \<Rightarrow> rest []
         | Panic \<Rightarrow> (Panic, s)
         | Diverge \<Rightarrow> (Diverge, s))"

definition answer_additionals ::
  "'r resolver_ops \<Rightarrow> bool \<Rightarrow> string \<Rightarrow> u16 \<Rightarrow> 'r \<Rightarrow> resource_record list dns_result \<times> 'r" where
  "answer_additionals R wants_dnssec qname qclass s =
     (if wants_dnssec then dnssec_additionals R qname qclass s else (Ok [], s))"

definition truncated_response :: "message \<Rightarrow> message" where
  "truncated_response response =
     response\<lparr>m_header := (m_header response)\<lparr>h_tc := True\<rparr>, m_answers := [], m_authorities := [],
       m_additionals := []\<rparr>"

definition udp_payload :: "message \<Rightarrow> bytes dns_result" where
  "udp_payload response =
     obind (encode_message response) (\<lambda>response_bytes.
       if length response_bytes > MAX_UDP_PAYLOAD
       then obind (encode_message (truncated_response response)) (\<lambda>truncated_bytes.
              Ok (take (min (length truncated_bytes) MAX_UDP_PAYLOAD) truncated_bytes))
       else Ok response_bytes)"

definition nxdomain_message :: "message \<Rightarrow> question \<Rightarrow> resource_record list \<Rightarrow> bool \<Rightarrow> message" where
  "nxdomain_message request q soa ad =
     \<lparr>m_header = (new_response (h_id (m_header request)) 3)\<lparr>h_rd := h_rd (m_header request),
        h_ra := True, h_ad := ad\<rparr>,
      m_questions = [q], m_answers = [], m_authorities = soa,
      m_additionals = (if client_wants_dnssec request then [dnssec_opt_record] else [])\<rparr>"

definition error_rcode :: "dns_error \<Rightarrow> u8" where
  "error_rcode e = (if contains_str ''NXDOMAIN'' (dns_error_display e) then 3 else 2)"

text \<open>\<open>if let Some(x) = r { send(x) }\<close> and \<open>if let Ok(x) = r { send(x) }\<close>: what is sent, and the outcome.\<close>

fun send_some :: "bytes option dns_result \<Rightarrow> bytes list \<times> unit dns_result" where
  "send_some (Ok (Some b)) = ([b], Ok ())"
| "send_some (Ok None) = ([], Ok ())"
| "send_some (Err e) = ([], Ok ())"
| "send_some Panic = ([], Panic)"
| "send_some Diverge = ([], Diverge)"

fun send_ok :: "bytes dns_result \<Rightarrow> bytes list \<times> unit dns_result" where
  "send_ok (Ok b) = ([b], Ok ())"
| "send_ok (Err e) = ([], Ok ())"
| "send_ok Panic = ([], Panic)"
| "send_ok Diverge = ([], Diverge)"

text \<open>\<open>send(x?)\<close>: an error is returned instead.\<close>

fun send_try :: "bytes dns_result \<Rightarrow> bytes list \<times> unit dns_result" where
  "send_try (Ok b) = ([b], Ok ())"
| "send_try (Err e) = ([], Err e)"
| "send_try Panic = ([], Panic)"
| "send_try Diverge = ([], Diverge)"

definition udp_error :: "bytes \<Rightarrow> message \<Rightarrow> question \<Rightarrow> dns_error \<Rightarrow> bytes list \<times> unit dns_result" where
  "udp_error query_data request q e =
     (case e of
        NxDomain soa ad \<Rightarrow> send_ok (encode_message (nxdomain_message request q soa ad))
      | _ \<Rightarrow> send_some (quick_error_response query_data (error_rcode e)))"

definition udp_respond ::
  "'r resolver_ops \<Rightarrow> bytes \<Rightarrow> message \<Rightarrow> question \<Rightarrow> 'r \<Rightarrow> (bytes list \<times> unit dns_result) \<times> 'r" where
  "udp_respond R query_data request q s =
     (let qname = question_name_str q;
          wants_dnssec = client_wants_dnssec request;
          (result, s) = resolve_with_ad_op R qname (q_type q) (q_class q) s
      in case result of
           Ok (records, ad_flag) \<Rightarrow>
             (let (adds, s) = answer_additionals R wants_dnssec qname (q_class q) s
              in (send_try (obind adds (\<lambda>additionals.
                    udp_payload (build_response (m_header request) q records additionals
                      (wants_dnssec \<and> ad_flag)))), s))
         | Err e \<Rightarrow> (udp_error query_data request q e, s)
         | Panic \<Rightarrow> (([], Panic), s)
         | Diverge \<Rightarrow> (([], Diverge), s))"

definition handle_query ::
  "'r resolver_ops \<Rightarrow> bytes \<Rightarrow> 'r \<Rightarrow> (bytes list \<times> unit dns_result) \<times> 'r" where
  "handle_query R query_data s =
     (case decode_message query_data of
        Ok request \<Rightarrow>
          if h_qr (m_header request) \<or> m_questions request = [] then (([], Ok ()), s)
          else udp_respond R query_data request (hd (m_questions request)) s
      | Err e \<Rightarrow> (send_some (quick_error_response query_data 1), s)
      | Panic \<Rightarrow> (([], Panic), s)
      | Diverge \<Rightarrow> (([], Diverge), s))"

section \<open>The receive loop\<close>

text \<open>
  The state of the server: the free permits of the semaphore, the datagrams whose tasks are in
  flight, and the payloads sent so far.  Receiving takes a permit and spawns a task, or answers
  SERVFAIL at once when there is none; a finished task, panicked or not, gives its permit back.  A
  task runs the handler in whatever resolver state it finds, which other tasks may have changed.
\<close>

record udp_server =
  us_permits :: nat
  us_tasks :: "bytes list"
  us_sent :: "bytes list"

definition udp_start :: udp_server where
  "udp_start = \<lparr>us_permits = MAX_CONCURRENT_QUERIES, us_tasks = [], us_sent = []\<rparr>"

definition handle_recv :: "(io_error + nat) \<Rightarrow> bytes \<Rightarrow> udp_server \<Rightarrow> udp_server dns_result" where
  "handle_recv result buf st =
     (case result of
        Inr len \<Rightarrow>
          obind (slice buf 0 len) (\<lambda>data.
          if us_permits st > 0
          then Ok (st\<lparr>us_permits := us_permits st - 1, us_tasks := us_tasks st @ [data]\<rparr>)
          else obind (quick_error_response data 2) (\<lambda>r.
                 case r of
                   Some response \<Rightarrow> Ok (st\<lparr>us_sent := us_sent st @ [response]\<rparr>)
                 | None \<Rightarrow> Ok st))
      | Inl e \<Rightarrow> Ok st)"

inductive udp_step :: "'r resolver_ops \<Rightarrow> udp_server \<Rightarrow> udp_server \<Rightarrow> bool" for R where
  udp_recv: "handle_recv result buf st = Ok st' \<Longrightarrow> udp_step R st st'"
| udp_finish: "us_tasks st = before @ data # behind \<Longrightarrow> handle_query R data s = ((out, res), s') \<Longrightarrow>
     res \<noteq> Diverge \<Longrightarrow>
     udp_step R st (st\<lparr>us_permits := us_permits st + 1, us_tasks := before @ behind,
       us_sent := us_sent st @ out\<rparr>)"

section \<open>What encoding a response leaves on the wire\<close>

lemma put_rrs_Ok_sized:
  "put_section rr_to_bytes rs buf off = Ok (buf', n) \<Longrightarrow> \<forall>r \<in> set rs. rr_sized r"
proof (induction rs arbitrary: buf off)
  case (Cons r rs)
  then obtain b m where w: "write_at (rr_to_bytes r) buf off = Ok (b, m)"
    and rest: "put_section rr_to_bytes rs b m = Ok (buf', n)"
    by (auto simp: outcome_simps)
  then obtain t where t: "rr_to_bytes r (drop off buf) = Ok t"
    by (auto simp: write_at_def outcome_simps split: if_splits)
  then have "\<not> length (drop off buf) < length (rr_name r) + 10 + unat (rr_rdlength r)"
    by (auto simp: rr_to_bytes_def Let_def split: if_splits)
  then have "rr_sized r" using rr_to_bytes_unsized [of r "drop off buf"] t by fastforce
  with Cons.IH [OF rest] show ?case by simp
qed simp

lemma encode_Ok_sized: "encode_message m = Ok bs \<Longrightarrow> sized_message m"
  by (auto simp: encode_message_def message_to_bytes_def outcome_simps sized_message_def
      message_records_def dest!: put_rrs_Ok_sized)

lemma encode_Ok_wire:
  assumes "encode_message m = Ok bs"
  shows "bs = message_wire m" "length bs \<le> MAX_DNS_MESSAGE_SIZE"
proof -
  note sized = encode_Ok_sized [OF assms]
  then show bs: "bs = message_wire m" using assms by (rule encode_message_Ok)
  show "length bs \<le> MAX_DNS_MESSAGE_SIZE"
    using encode_message_overflow [OF sized] assms bs by (rule_tac ccontr) (simp add: not_le)
qed

text \<open>
  The response headers have no \<open>z\<close> bits and set RA; reading them back shows the RA bit in \<open>z\<close> too.
\<close>

definition response_header :: "header \<Rightarrow> bool" where
  "response_header h \<longleftrightarrow> h_qr h \<and> h_ra h \<and> h_z h = 0 \<and> h_opcode h = 0 \<and> h_rcode h < 16"

lemma response_header_from_wire:
  assumes "response_header h"
  shows "header_from_bytes (header_wire h @ rest) = Ok (h\<lparr>h_z := 2\<rparr>)"
proof -
  have "header_flags (h\<lparr>h_z := 2\<rparr>) = header_flags h"
    using assms by (auto simp: header_flags_def response_header_def or.assoc
      intro!: bit_word_eqI simp: bit_or_iff) 
  then have "header_wire (h\<lparr>h_z := 2\<rparr>) = header_wire h" by (simp add: header_wire_def)
  moreover have "wf_header (h\<lparr>h_z := 2\<rparr>)"
    using assms by (simp add: wf_header_def response_header_def)
  ultimately show ?thesis using header_from_wire by metis
qed

lemma response_header_new [simp]:
  "rc < 16 \<Longrightarrow> response_header (new_response i rc)"
  "response_header ((new_response i rc)\<lparr>h_rd := rd, h_ra := True, h_ad := ad\<rparr>) \<longleftrightarrow> rc < 16"
  by (simp_all add: response_header_def new_response_def)

text \<open>A payload that answers a query: its header is a response with the identifier of the query.\<close>

definition reply_to :: "bytes \<Rightarrow> bytes \<Rightarrow> bool" where
  "reply_to query_data b \<longleftrightarrow> length b \<le> MAX_DNS_MESSAGE_SIZE \<and>
     (case header_from_bytes b of
        Ok h \<Rightarrow> h_qr h \<and> h_id h = be16 (query_data ! 0) (query_data ! 1)
      | _ \<Rightarrow> False)"

lemma encoded_reply:
  assumes "encode_message m = Ok b" "response_header (m_header m)"
    and "h_id (m_header m) = be16 (query_data ! 0) (query_data ! 1)"
  shows "12 \<le> n \<Longrightarrow> reply_to query_data (take n b)" "reply_to query_data b"
proof -
  have *: "b = header_wire (counted_header m) @ drop 12 b"
    using encode_Ok_wire(1) [OF assms(1)] by (simp add: message_wire_def)
  have "response_header (counted_header m)"
    using assms(2) by (simp add: response_header_def counted_header_def)
  from response_header_from_wire [OF this]
  have h: "header_from_bytes (header_wire (counted_header m) @ r) = Ok ((counted_header m)\<lparr>h_z := 2\<rparr>)" for r
    by simp
  have f: "h_qr (counted_header m)" "h_id (counted_header m) = h_id (m_header m)"
    using assms(2) by (simp_all add: response_header_def counted_header_def)
  have n: "reply_to query_data (take n b)" if "12 \<le> n" for n
  proof -
    have "take n b = header_wire (counted_header m) @ take (n - 12) (drop 12 b)"
      by (subst *) (use that in simp)
    then show ?thesis
      using h f assms(3) encode_Ok_wire(2) [OF assms(1)] by (simp add: reply_to_def MAX_DNS_MESSAGE_SIZE_def)
  qed
  then show "12 \<le> n \<Longrightarrow> reply_to query_data (take n b)" .
  have "12 \<le> length b" by (subst *) simp
  with n [of "length b"] show "reply_to query_data b" by simp
qed

lemma decoded_request_id:
  assumes "decode_message data = Ok m"
  shows "h_id (m_header m) = be16 (data ! 0) (data ! 1)" "12 \<le> length data"
  using decode_message_Ok [OF assms] header_from_bytes_flags by blast+

lemma quick_error_Ok:
  assumes "quick_error_response data rc = Ok (Some b)"
  shows "\<exists>qs. quick_question data = Ok qs \<and> encode_message (quick_message data rc qs) = Ok b"
  using assms
  by (cases "quick_question data") (auto simp: quick_error_response_def split: if_splits outcome.split_asm)

lemma quick_error_reply:
  assumes "quick_error_response data rc = Ok (Some b)" "rc < 16"
  shows "reply_to data b"
proof -
  obtain qs where "encode_message (quick_message data rc qs) = Ok b"
    using quick_error_Ok [OF assms(1)] by blast
  then show ?thesis
    by (rule encoded_reply(2)) (use assms(2) in \<open>simp_all add: quick_message_def\<close>, simp add: new_response_def)
qed

lemma send_some_reply:
  "rc < 16 \<Longrightarrow> \<forall>b \<in> set (fst (send_some (quick_error_response data rc))). reply_to data b"
  using quick_error_reply [of data rc]
  by (cases "quick_error_response data rc" rule: send_some.cases) auto

lemma build_response_header [simp]:
  "m_header (build_response h q rs adds ad) =
     (new_response (h_id h) 0)\<lparr>h_rd := h_rd h, h_ra := True, h_ad := ad\<rparr>"
  by (simp add: build_response_def Let_def case_prod_unfold)

lemma udp_payload_reply:
  assumes "udp_payload m = Ok b" "response_header (m_header m)"
    and "h_id (m_header m) = be16 (data ! 0) (data ! 1)"
  shows "reply_to data b" "length b \<le> MAX_UDP_PAYLOAD"
proof -
  have t: "response_header (m_header (truncated_response m))"
    "h_id (m_header (truncated_response m)) = be16 (data ! 0) (data ! 1)"
    using assms(2,3) by (simp_all add: truncated_response_def response_header_def)
  show "length b \<le> MAX_UDP_PAYLOAD"
    using assms(1) by (auto simp: udp_payload_def outcome_simps split: if_splits)
  show "reply_to data b"
    using assms(1) encoded_reply(2) [OF _ assms(2,3)] encoded_reply(1) [OF _ t, of _ MAX_UDP_PAYLOAD]
      encoded_reply(2) [OF _ t]
    by (auto simp: udp_payload_def outcome_simps min_def MAX_UDP_PAYLOAD_def split: if_splits)
qed

section \<open>The handler\<close>

lemma send_ok_set: "b \<in> set (fst (send_ok r)) \<longleftrightarrow> r = Ok b"
  by (cases r) auto

lemma send_try_set: "b \<in> set (fst (send_try r)) \<longleftrightarrow> r = Ok b"
  by (cases r) auto

lemma error_rcode_less: "error_rcode e < 16"
  by (simp add: error_rcode_def)

lemma nxdomain_reply:
  assumes "encode_message (nxdomain_message request q soa ad) = Ok b" "decode_message data = Ok request"
  shows "reply_to data b"
  by (rule encoded_reply(2) [OF assms(1)])
    (use decoded_request_id(1) [OF assms(2)] in \<open>simp_all add: nxdomain_message_def\<close>, simp add: new_response_def)

lemma udp_error_reply:
  assumes "decode_message data = Ok request"
  shows "\<forall>b \<in> set (fst (udp_error data request q e)). reply_to data b"
  using nxdomain_reply [OF _ assms] send_some_reply [OF error_rcode_less, of data]
  by (cases e) (auto simp: udp_error_def send_ok_set)

lemma udp_respond_reply:
  assumes "decode_message data = Ok request"
  shows "\<forall>b \<in> set (fst (fst (udp_respond R data request q s))). reply_to data b"
proof -
  have "reply_to data b" if "udp_payload (build_response (m_header request) q rs adds ad) = Ok b" for rs adds ad b
    by (rule udp_payload_reply(1) [OF that])
      (use decoded_request_id(1) [OF assms] in \<open>simp_all add: new_response_def response_header_def\<close>)
  then show ?thesis using udp_error_reply [OF assms]
    by (auto simp: udp_respond_def Let_def case_prod_unfold send_try_set outcome_simps
        split: outcome.split)
qed

lemma handle_query_reply:
  "\<forall>b \<in> set (fst (fst (handle_query R data s))). reply_to data b"
  using udp_respond_reply [of data _ R _ s] send_some_reply [of 1 data]
  by (auto simp: handle_query_def split: outcome.split)

lemma send_at_most_one:
  "length (fst (send_some r)) \<le> 1" "length (fst (send_ok r')) \<le> 1" "length (fst (send_try r')) \<le> 1"
  by (cases r rule: send_some.cases; simp) (cases r'; simp)+

lemma handle_query_at_most_one: "length (fst (fst (handle_query R data s))) \<le> 1"
  by (auto simp: handle_query_def udp_respond_def udp_error_def Let_def case_prod_unfold
      send_at_most_one [simplified] split: outcome.split dns_error.split)

section \<open>Reading a response back\<close>

lemma counted_header_z:
  "counted_header (m\<lparr>m_header := (m_header m)\<lparr>h_z := z\<rparr>\<rparr>) = (counted_header m)\<lparr>h_z := z\<rparr>"
  by (rule header.equality) (simp_all add: counted_header_def)

lemma response_wire_z:
  assumes "response_header (m_header m)"
  shows "message_wire (m\<lparr>m_header := (m_header m)\<lparr>h_z := 2\<rparr>\<rparr>) = message_wire m"
proof -
  have "response_header (counted_header m)"
    using assms by (simp add: response_header_def counted_header_def)
  from response_header_from_wire [OF this, of "[]"]
  have "take 12 (header_wire (counted_header m)) = header_wire ((counted_header m)\<lparr>h_z := 2\<rparr>)"
    by (simp add: header_wire_parsed)
  then have "header_wire ((counted_header m)\<lparr>h_z := 2\<rparr>) = header_wire (counted_header m)"
    by simp
  then show ?thesis by (simp add: message_wire_def counted_header_z)
qed

lemma decode_response_wire:
  assumes "response_header (m_header m)" "wf_message (m\<lparr>m_header := (m_header m)\<lparr>h_z := 2\<rparr>\<rparr>)"
  shows "decode_message (message_wire m) = Ok (m\<lparr>m_header := (counted_header m)\<lparr>h_z := 2\<rparr>\<rparr>)"
  using decode_message_wire [OF assms(2), of "[]"] response_wire_z [OF assms(1)]
  by (simp add: counted_header_z)

lemma quick_question_wf:
  "quick_question data = Ok qs \<Longrightarrow> length qs \<le> 1 \<and> (\<forall>q \<in> set qs. wf_question q)"
  by (auto simp: quick_question_def Let_def dest: question_from_bytes_sound
      split: if_splits outcome.splits)

lemma split_cnames_eq:
  "split_cnames rs cs fs = (cs @ filter (\<lambda>r. rr_type r = 5) rs, fs @ filter (\<lambda>r. rr_type r \<noteq> 5) rs)"
  by (induction rs arbitrary: cs fs) auto

lemma build_response_answers:
  "m_answers (build_response h q rs adds ad) =
     filter (\<lambda>r. rr_type r = 5) rs @ filter (\<lambda>r. rr_type r \<noteq> 5) rs"
  by (simp add: build_response_def split_cnames_eq)

lemma truncated_sized [simp]: "sized_message (truncated_response m)"
  by (simp add: truncated_response_def sized_message_def message_records_def)

lemma truncated_wire_shorter: "length (message_wire (truncated_response m)) \<le> length (message_wire m)"
  by (simp add: truncated_response_def message_wire_def)

lemma udp_payload_cases:
  assumes "sized_message m"
  shows "udp_payload m =
     (if length (message_wire m) \<le> MAX_UDP_PAYLOAD then Ok (message_wire m)
      else if length (message_wire m) \<le> MAX_DNS_MESSAGE_SIZE
      then Ok (take MAX_UDP_PAYLOAD (message_wire (truncated_response m)))
      else encode_message m)"
    and "MAX_DNS_MESSAGE_SIZE < length (message_wire m) \<Longrightarrow> too_small (udp_payload m)"
proof -
  show "udp_payload m =
     (if length (message_wire m) \<le> MAX_UDP_PAYLOAD then Ok (message_wire m)
      else if length (message_wire m) \<le> MAX_DNS_MESSAGE_SIZE
      then Ok (take MAX_UDP_PAYLOAD (message_wire (truncated_response m)))
      else encode_message m)"
  proof (cases "length (message_wire m) \<le> MAX_DNS_MESSAGE_SIZE")
    case True
    with encode_message_fits [OF assms] truncated_wire_shorter [of m]
      encode_message_fits [OF truncated_sized, of m] show ?thesis
      by (simp add: udp_payload_def min_def)
  next
    case False
    with encode_message_overflow [OF assms] show ?thesis
      by (cases "encode_message m")
        (auto simp: udp_payload_def MAX_UDP_PAYLOAD_def MAX_DNS_MESSAGE_SIZE_def)
  qed
  show "MAX_DNS_MESSAGE_SIZE < length (message_wire m) \<Longrightarrow> too_small (udp_payload m)"
    using encode_message_overflow [OF assms] by (simp add: udp_payload_def too_small_obind)
qed

section \<open>Properties\<close>

text \<open>
  C12. Whatever the resolver answers, a datagram is answered at most once, and every answer has at
  most 8192 bytes and is a response that carries the identifier of the datagram.
\<close>

theorem handle_query_answers_query:
  "length (fst (fst (handle_query R query_data s))) \<le> 1 \<and>
   list_all (reply_to query_data) (fst (fst (handle_query R query_data s)))"
  using handle_query_at_most_one [of R query_data s] handle_query_reply [of R query_data s]
  by (simp add: list_all_iff)

text \<open>
  C31. A query the resolver answers gets a response with its identifier and its RD bit, QR and RA set,
  response code 0, its first question and the records, canonical names first, if that has at most 4096
  bytes; up to 8192 bytes it gets the same header with the TC bit, the question and no records; a longer
  one gets no answer at all, and the handler returns an error.  AD is set if the resolver says so and
  the client asked for DNSSEC.
\<close>

theorem handle_query_resolved:
  assumes "decode_message query_data = Ok request" "\<not> h_qr (m_header request)"
    and "m_questions request = q # qs"
    and "resolve_with_ad_op R (question_name_str q) (q_type q) (q_class q) s = (Ok (records, ad), s1)"
    and "answer_additionals R (client_wants_dnssec request) (question_name_str q) (q_class q) s1 = (Ok adds, s2)"
  defines "h \<equiv> \<lparr>h_id = h_id (m_header request), h_qr = True, h_opcode = 0, h_aa = False, h_tc = False,
      h_rd = h_rd (m_header request), h_ra = True, h_z = 0, h_ad = (client_wants_dnssec request \<and> ad), h_cd = False,
      h_rcode = 0, h_qdcount = 0, h_ancount = 0, h_nscount = 0, h_arcount = 0\<rparr>"
  defines "m \<equiv> \<lparr>m_header = h, m_questions = [q],
      m_answers = filter (\<lambda>r. rr_type r = 5) records @ filter (\<lambda>r. rr_type r \<noteq> 5) records,
      m_authorities = [], m_additionals = adds\<rparr>"
    and "m_tc \<equiv> \<lparr>m_header = h\<lparr>h_tc := True\<rparr>, m_questions = [q], m_answers = [], m_authorities = [], m_additionals = []\<rparr>"
  assumes "sized_message m"
  shows "if length (message_wire m) \<le> 4096
         then handle_query R query_data s = (([message_wire m], Ok ()), s2)
         else if length (message_wire m) \<le> 8192
         then handle_query R query_data s = (([take 4096 (message_wire m_tc)], Ok ()), s2)
         else \<exists>e. too_small (Err e :: unit dns_result) \<and> handle_query R query_data s = (([], Err e), s2)"
proof -
  have m: "m = build_response (m_header request) q records adds (client_wants_dnssec request \<and> ad)"
    using build_response_answers [of "m_header request" q records adds "client_wants_dnssec request \<and> ad"]
    by (simp add: m_def h_def build_response_def new_response_def Let_def case_prod_unfold)
  have "m_tc = truncated_response m" by (simp add: m_tc_def m_def truncated_response_def)
  note defs = m this
  have h: "handle_query R query_data s = (send_try (udp_payload m), s2)"
    using assms(1-5) by (simp add: handle_query_def udp_respond_def m)
  show ?thesis
  proof (cases "length (message_wire m) \<le> MAX_DNS_MESSAGE_SIZE")
    case True
    with h udp_payload_cases(1) [OF assms(9)] show ?thesis
      by (simp add: defs(2) MAX_DNS_MESSAGE_SIZE_def MAX_UDP_PAYLOAD_def)
  next
    case False
    with udp_payload_cases(2) [OF assms(9)] obtain need avail where
      "udp_payload m = Err (BufferTooSmall need avail)" "avail < need"
      by (cases "udp_payload m" rule: too_small.cases) (auto simp: not_le)
    with h False show ?thesis by (auto simp: MAX_UDP_PAYLOAD_def MAX_DNS_MESSAGE_SIZE_def)
  qed
qed

definition plain_query :: message where
  "plain_query = query_example\<lparr>m_additionals := []\<rparr>"

definition one_address :: resource_record where
  "one_address =
     \<lparr>rr_name = [1, 97, 0], rr_type = 1, rr_class = 1, rr_ttl = 60, rr_rdlength = 4,
      rr_rdata = [10, 0, 0, 1], rr_parsed = None\<rparr>"

definition example_resolver :: "unit resolver_ops" where
  "example_resolver =
     \<lparr>resolve_with_ad_op = (\<lambda>name rtype rclass s. (Ok ([one_address], True), s)),
      resolve_dnssec_op = (\<lambda>name rtype rclass s. ([], s))\<rparr>"

lemma decode_plain_query:
  "decode_message (message_wire plain_query) = Ok (plain_query\<lparr>m_header := counted_header plain_query\<rparr>)"
proof -
  have "wf_message plain_query"
    using valid_name_a by (simp add: wf_message_def plain_query_def query_example_def message_records_def wf_header_def
      new_query_def wf_question_def)
  then show ?thesis using decode_message_wire [of plain_query "[]"] by simp
qed

definition example_response :: message where
  "example_response =
     build_response (counted_header plain_query) (hd (m_questions plain_query)) [one_address] [] False"

lemma example_response_fits:
  "sized_message example_response" "length (message_wire example_response) \<le> MAX_UDP_PAYLOAD"
  by (simp_all add: example_response_def build_response_def sized_message_def message_records_def
      one_address_def rr_sized_def message_wire_def plain_query_def query_example_def question_wire_def
      rr_wire_def MAX_UDP_PAYLOAD_def)

lemma plain_query_fields:
  "\<not> client_wants_dnssec (plain_query\<lparr>m_header := counted_header plain_query\<rparr>)"
  "\<not> h_qr (counted_header plain_query)" "m_questions plain_query = [hd (m_questions plain_query)]"
  by (simp_all add: client_wants_dnssec_def plain_query_def query_example_def counted_header_def new_query_def)

lemma example_response_eq:
  "example_response =
     \<lparr>m_header = \<lparr>h_id = h_id (counted_header plain_query), h_qr = True, h_opcode = 0, h_aa = False, h_tc = False,
        h_rd = h_rd (counted_header plain_query), h_ra = True, h_z = 0, h_ad = False, h_cd = False,
        h_rcode = 0, h_qdcount = 0, h_ancount = 0, h_nscount = 0, h_arcount = 0\<rparr>,
      m_questions = [hd (m_questions plain_query)], m_answers = [one_address], m_authorities = [], m_additionals = []\<rparr>"
  by (simp add: example_response_def build_response_def new_response_def one_address_def)

theorem handle_query_resolved_witness:
  "handle_query example_resolver (message_wire plain_query) () =
     (([message_wire example_response], Ok ()), ())"
  using handle_query_resolved [OF decode_plain_query, of "hd (m_questions plain_query)" "[]" example_resolver
      "()" "[one_address]" True "()" "[]" "()"] example_response_fits plain_query_fields
  by (simp add: example_resolver_def answer_additionals_def example_response_eq one_address_def MAX_UDP_PAYLOAD_def)

lemma example_answered:
  "snd (fst (handle_query example_resolver (message_wire plain_query) ())) = Ok ()"
  using udp_payload_cases(1) [OF example_response_fits(1)] example_response_fits(2) plain_query_fields
  by (simp add: handle_query_def decode_plain_query udp_respond_def example_resolver_def
      answer_additionals_def example_response_def)

text \<open>
  The error response to a datagram whose first question can be read (or that has none) decodes
  to a message with the identifier of the datagram, the given response code, that question and
  nothing else.
\<close>

theorem quick_error_echoes_question:
  assumes "2 \<le> length query_data" "rcode < 16" "quick_question query_data = Ok questions"
    and "length (enc_list question_wire questions) \<le> 8180"
  shows "\<exists>b h. quick_error_response query_data rcode = Ok (Some b) \<and>
     decode_message b = Ok ((quick_message query_data rcode questions)\<lparr>m_header := h\<rparr>) \<and>
     h_id h = be16 (query_data ! 0) (query_data ! 1) \<and> h_qr h \<and> h_rcode h = rcode"
proof -
  let ?m = "quick_message query_data rcode questions"
  have "sized_message ?m" "length (message_wire ?m) \<le> MAX_DNS_MESSAGE_SIZE"
    using assms(4) by (simp_all add: quick_message_def sized_message_def message_records_def message_wire_def
        MAX_DNS_MESSAGE_SIZE_def)
  then have "encode_message ?m = Ok (message_wire ?m)" by (rule encode_message_fits)
  then have "quick_error_response query_data rcode = Ok (Some (message_wire ?m))"
    using assms(1,3) by (simp add: quick_error_response_def)
  moreover have "decode_message (message_wire ?m) = Ok (?m\<lparr>m_header := (counted_header ?m)\<lparr>h_z := 2\<rparr>\<rparr>)"
    using quick_question_wf [OF assms(3)] assms(2)
    by (intro decode_response_wire)
      (auto simp: quick_message_def wf_message_def message_records_def wf_header_def new_response_def response_header_def)
  ultimately show ?thesis
    by (intro exI [of _ "message_wire ?m"] exI [of _ "(counted_header ?m)\<lparr>h_z := 2\<rparr>"])
      (simp add: quick_message_def counted_header_def new_response_def)
qed

lemma quick_question_plain: "quick_question (message_wire plain_query) = Ok (m_questions plain_query)"
proof -
  have "question_from_bytes (header_wire (counted_header plain_query) @ question_wire (hd (m_questions plain_query)) @ []) 12 =
      Ok (hd (m_questions plain_query), 12 + length (question_wire (hd (m_questions plain_query))))"
    using question_from_wire [of "hd (m_questions plain_query)" "header_wire (counted_header plain_query)" "[]"] valid_name_a
    by (simp add: wf_question_def plain_query_def query_example_def)
  moreover have "message_wire plain_query = header_wire (counted_header plain_query) @ question_wire (hd (m_questions plain_query)) @ []"
    by (simp add: message_wire_def plain_query_def query_example_def)
  moreover have "be16 ((message_wire plain_query ! 4) AND 0x0f) (message_wire plain_query ! 5) = 1"
    by (simp add: message_wire_def header_wire_def counted_header_def plain_query_def query_example_def
        bytes_of_u16_def be16_def)
  ultimately show ?thesis
    by (simp add: quick_question_def) (simp add: plain_query_def query_example_def)
qed

theorem quick_error_echoes_question_witness:
  "\<exists>b h. quick_error_response (message_wire plain_query) 2 = Ok (Some b) \<and>
     decode_message b = Ok ((quick_message (message_wire plain_query) 2 (m_questions plain_query))\<lparr>m_header := h\<rparr>) \<and>
     h_id h = 7 \<and> h_qr h \<and> h_rcode h = 2"
proof -
  have "be16 (message_wire plain_query ! 0) (message_wire plain_query ! 1) = 7" "2 \<le> length (message_wire plain_query)"
    "length (enc_list question_wire (m_questions plain_query)) \<le> 8180"
    by (simp_all add: message_wire_def header_wire_def counted_header_def plain_query_def query_example_def
        bytes_of_u16_def be16_def new_query_def question_wire_def)
  with quick_error_echoes_question [OF _ _ quick_question_plain, of 2] show ?thesis by simp
qed

section \<open>The receive loop\<close>

definition ends_somehow :: "'r resolver_ops \<Rightarrow> bytes \<Rightarrow> bool" where
  "ends_somehow R data \<longleftrightarrow> (\<exists>s. snd (fst (handle_query R data s)) \<noteq> Diverge)"

lemma handle_recv_cases:
  assumes "handle_recv result buf st = Ok st'"
  obtains (same) "st' = st"
    | (spawned) data where "us_permits st > 0"
        "st' = st\<lparr>us_permits := us_permits st - 1, us_tasks := us_tasks st @ [data]\<rparr>"
    | (refused) data b where "reply_to data b" "st' = st\<lparr>us_sent := us_sent st @ [b]\<rparr>"
proof (cases result)
  case (Inl e)
  with assms same show thesis by (simp add: handle_recv_def)
next
  case (Inr len)
  with assms obtain data where *: "(if us_permits st > 0
      then Ok (st\<lparr>us_permits := us_permits st - 1, us_tasks := us_tasks st @ [data]\<rparr>)
      else obind (quick_error_response data 2) (\<lambda>r. case r of
             Some response \<Rightarrow> Ok (st\<lparr>us_sent := us_sent st @ [response]\<rparr>) | None \<Rightarrow> Ok st)) = Ok st'"
    by (auto simp: handle_recv_def outcome_simps)
  show thesis
  proof (cases "us_permits st > 0")
    case True
    with * spawned [of data] show thesis by simp
  next
    case False
    with * obtain r where r: "quick_error_response data 2 = Ok r"
      "(case r of Some b \<Rightarrow> Ok (st\<lparr>us_sent := us_sent st @ [b]\<rparr>) | None \<Rightarrow> Ok st) = (Ok st' :: udp_server dns_result)"
      by (auto simp: outcome_simps)
    show thesis
    proof (cases r)
      case None
      with r(2) same show thesis by simp
    next
      case (Some b)
      with r have "reply_to data b" using quick_error_reply [of data 2 b] by simp
      with r(2) Some refused [of data b] show thesis by simp
    qed
  qed
qed

lemma udp_step_permits:
  "udp_step R st st' \<Longrightarrow>
     us_permits st' + length (us_tasks st') = us_permits st + length (us_tasks st)"
  by (auto elim!: udp_step.cases handle_recv_cases)

lemma udp_step_end:
  assumes "us_tasks st = data # behind" "ends_somehow R data"
  shows "\<exists>st'. udp_step R st st' \<and> us_tasks st' = behind"
proof -
  obtain s where "snd (fst (handle_query R data s)) \<noteq> Diverge"
    using assms(2) by (auto simp: ends_somehow_def)
  then obtain out res s' where h: "handle_query R data s = ((out, res), s')" "res \<noteq> Diverge"
    by (metis prod.collapse)
  show ?thesis using udp_finish [OF _ h, of st "[]" behind] assms(1) by fastforce
qed

interpretation udp_permits: permit_server us_permits us_tasks "udp_step R" "ends_somehow R" udp_start
    MAX_CONCURRENT_QUERIES for R
  by unfold_locales (auto simp: udp_start_def udp_step_permits udp_step_end)

lemma udp_step_sent:
  assumes "udp_step R st st'" "list_all (\<lambda>b. \<exists>query_data. reply_to query_data b) (us_sent st)"
  shows "list_all (\<lambda>b. \<exists>query_data. reply_to query_data b) (us_sent st')"
  using assms
proof (induction rule: udp_step.induct)
  case (udp_recv result buf st st')
  then show ?case by (auto elim!: handle_recv_cases)
next
  case (udp_finish st before data behind s out res s')
  then show ?case using handle_query_reply [of R data s] by (auto simp: list_all_iff)
qed

lemma udp_run_sent:
  "(udp_step R)\<^sup>*\<^sup>* udp_start st \<Longrightarrow> list_all (\<lambda>b. \<exists>query_data. reply_to query_data b) (us_sent st)"
  by (induction rule: rtranclp_induct) (auto simp: udp_start_def intro: udp_step_sent)

section \<open>Properties of the receive loop\<close>

text \<open>
  In every reachable state of the server the free permits and the queries in flight add up to
  1024, so no more than 1024 queries are in flight, and everything sent is a response.
\<close>

theorem udp_server_bounded:
  assumes "(udp_step R)\<^sup>*\<^sup>* udp_start st"
  shows "us_permits st + length (us_tasks st) = MAX_CONCURRENT_QUERIES \<and>
     list_all (\<lambda>b. \<exists>query_data. reply_to query_data b) (us_sent st)"
  using udp_permits.permits_reachable [OF assms] udp_run_sent [OF assms] by blast

definition one_task :: udp_server where
  "one_task = udp_start\<lparr>us_permits := 1023, us_tasks := [message_wire plain_query]\<rparr>"

lemma one_task_run: "(udp_step R)\<^sup>*\<^sup>* udp_start one_task"
proof -
  have "handle_recv (Inr (length (message_wire plain_query))) (message_wire plain_query) udp_start = Ok one_task"
    by (simp add: handle_recv_def slice_def udp_start_def one_task_def MAX_CONCURRENT_QUERIES_def)
  then show ?thesis by (intro r_into_rtranclp udp_recv)
qed

theorem udp_server_bounded_witness:
  "us_permits one_task + length (us_tasks one_task) = 1024"
  using udp_server_bounded [OF one_task_run [where R = example_resolver]]
  by (simp add: MAX_CONCURRENT_QUERIES_def)

text \<open>
  No query holds its permit for ever: if every query in flight can be handled without diverging
  in some state of the resolver, the server can reach a state with no query in flight and all
  permits free.
\<close>

theorem udp_server_drains:
  assumes "(udp_step R)\<^sup>*\<^sup>* udp_start st" "list_all (ends_somehow R) (us_tasks st)"
  shows "\<exists>st'. (udp_step R)\<^sup>*\<^sup>* st st' \<and> us_tasks st' = [] \<and> us_permits st' = MAX_CONCURRENT_QUERIES"
  using udp_permits.drains_completely [OF assms] .

theorem udp_server_drains_witness:
  "\<exists>st'. (udp_step example_resolver)\<^sup>*\<^sup>* one_task st' \<and> us_tasks st' = [] \<and> us_permits st' = 1024"
proof -
  have "snd (fst (handle_query example_resolver (message_wire plain_query) ())) \<noteq> Diverge"
    using example_answered by simp
  then have "list_all (ends_somehow example_resolver) (us_tasks one_task)"
    by (auto simp: one_task_def ends_somehow_def)
  from udp_server_drains [OF one_task_run this] show ?thesis by (simp add: MAX_CONCURRENT_QUERIES_def)
qed

end
