(* ===== verification/Server_Tcp.thy ===== *)
theory Server_Tcp
  imports Server_Udp
begin

text \<open>
  The TCP server of \<open>src/src/server/tcp.rs\<close>: one length-prefixed query per connection, answered by
  the same response builders as over UDP, and the semaphore that bounds the open connections.
\<close>

section \<open>The stream\<close>

text \<open>
  A connection as the handler sees it: the bytes the peer sends, what a read behind them reports
  (the end of the stream, or another I/O error), the bytes written so far, and, when a write fails,
  the error and how much of the buffer was written before it.
\<close>

record tcp_stream =
  ts_in :: bytes
  ts_end :: io_error
  ts_out :: bytes
  ts_write_fails :: "(io_error \<times> nat) option"

definition MAX_TCP_MESSAGE :: nat where "MAX_TCP_MESSAGE = 65535"
definition MAX_CONNECTIONS :: nat where "MAX_CONNECTIONS = 512"

definition read_exact :: "nat \<Rightarrow> tcp_stream \<Rightarrow> (io_error, bytes \<times> tcp_stream) outcome" where
  "read_exact n st =
     (if n \<le> length (ts_in st) then Ok (take n (ts_in st), st\<lparr>ts_in := drop n (ts_in st)\<rparr>)
      else Err (ts_end st))"

definition write_all :: "bytes \<Rightarrow> tcp_stream \<Rightarrow> unit dns_result \<times> tcp_stream" where
  "write_all buf st =
     (case ts_write_fails st of
        None \<Rightarrow> (Ok (), st\<lparr>ts_out := ts_out st @ buf\<rparr>)
      | Some (e, n) \<Rightarrow> (Err (Io e), st\<lparr>ts_out := ts_out st @ take n buf\<rparr>))"

text \<open>\<open>map_err\<close> of the two reads.\<close>

definition read_error :: "string \<Rightarrow> io_error \<Rightarrow> dns_error" where
  "read_error msg e = (if e = IoUnexpectedEof then Malformed msg else Io e)"

section \<open>One connection\<close>

definition write_tcp_response :: "bytes \<Rightarrow> tcp_stream \<Rightarrow> unit dns_result \<times> tcp_stream" where
  "write_tcp_response data st =
     (if length data > MAX_TCP_MESSAGE then (Err (BufferTooSmall (length data) MAX_TCP_MESSAGE), st)
      else let len_prefix = bytes_of_u16 (of_nat (length data)) in write_all (len_prefix @ data) st)"

definition read_query :: "tcp_stream \<Rightarrow> (bytes \<times> tcp_stream) dns_result" where
  "read_query st =
     (case read_exact 2 st of
        Err e \<Rightarrow> Err (read_error ''TCP connection closed before length prefix'' e)
      | Ok (len_buf, st) \<Rightarrow>
          (let msg_len = unat (be16 (len_buf ! 0) (len_buf ! 1)) in
           if msg_len > MAX_TCP_MESSAGE \<or> msg_len = 0
           then Err (Malformed ''Invalid TCP message length'')
           else case read_exact msg_len st of
                  Err e \<Rightarrow> Err (read_error ''TCP connection closed before message body'' e)
                | Ok (query_data, st) \<Rightarrow> Ok (query_data, st)
                | Panic \<Rightarrow> Panic
                | Diverge \<Rightarrow> Diverge)
      | Panic \<Rightarrow> Panic
      | Diverge \<Rightarrow> Diverge)"

definition tcp_error :: "bytes \<Rightarrow> message \<Rightarrow> question \<Rightarrow> dns_error \<Rightarrow> bytes dns_result" where
  "tcp_error query_data request q e =
     (case e of
        NxDomain soa ad \<Rightarrow> encode_message (nxdomain_message request q soa ad)
      | _ \<Rightarrow> obind (quick_error_response query_data (error_rcode e)) (\<lambda>r.
               case r of Some b \<Rightarrow> Ok b | None \<Rightarrow> Err (Malformed ''Failed to build error response'')))"

definition tcp_answer ::
  "'r resolver_ops \<Rightarrow> bytes \<Rightarrow> message \<Rightarrow> question \<Rightarrow> 'r \<Rightarrow> bytes dns_result \<times> 'r" where
  "tcp_answer R query_data request q s =
     (let qname = question_name_str q;
          wants_dnssec = client_wants_dnssec request;
          (result, s) = resolve_with_ad_op R qname (q_type q) (q_class q) s
      in case result of
           Ok (records, ad_flag) \<Rightarrow>
             (let (adds, s) = answer_additionals R wants_dnssec qname (q_class q) s
              in (obind adds (\<lambda>additionals.
                    encode_message (build_response (m_header request) q records additionals
                      (wants_dnssec \<and> ad_flag))), s))
         | Err e \<Rightarrow> (tcp_error query_data request q e, s)
         | Panic \<Rightarrow> (Panic, s)
         | Diverge \<Rightarrow> (Diverge, s))"

text \<open>\<open>write(x?)\<close>.\<close>

fun write_try :: "bytes dns_result \<Rightarrow> tcp_stream \<Rightarrow> unit dns_result \<times> tcp_stream" where
  "write_try (Ok b) st = write_tcp_response b st"
| "write_try (Err e) st = (Err e, st)"
| "write_try Panic st = (Panic, st)"
| "write_try Diverge st = (Diverge, st)"

definition handle_tcp_connection ::
  "'r resolver_ops \<Rightarrow> tcp_stream \<Rightarrow> 'r \<Rightarrow> (unit dns_result \<times> tcp_stream) \<times> 'r" where
  "handle_tcp_connection R st s =
     (case read_query st of
        Ok (query_data, st) \<Rightarrow>
          (case decode_message query_data of
             Ok request \<Rightarrow>
               if h_qr (m_header request) \<or> m_questions request = [] then ((Ok (), st), s)
               else (let (r, s) = tcp_answer R query_data request (hd (m_questions request)) s
                     in (write_try r st, s))
           | Err e \<Rightarrow>
               (case quick_error_response query_data 1 of
                  Ok (Some response) \<Rightarrow> (write_tcp_response response st, s)
                | Ok None \<Rightarrow> ((Ok (), st), s)
                | Err e \<Rightarrow> ((Ok (), st), s)
                | Panic \<Rightarrow> ((Panic, st), s)
                | Diverge \<Rightarrow> ((Diverge, st), s))
           | Panic \<Rightarrow> ((Panic, st), s)
           | Diverge \<Rightarrow> ((Diverge, st), s))
      | Err e \<Rightarrow> ((Err e, st), s)
      | Panic \<Rightarrow> ((Panic, st), s)
      | Diverge \<Rightarrow> ((Diverge, st), s))"

section \<open>The accept loop\<close>

record tcp_server =
  tc_permits :: nat
  tc_open :: "tcp_stream list"

definition tcp_start :: tcp_server where
  "tcp_start = \<lparr>tc_permits = MAX_CONNECTIONS, tc_open = []\<rparr>"

text \<open>One round of \<open>run_tcp_server\<close>: an accepted connection is spawned, or closed when there is no permit.\<close>

definition tcp_accept :: "(io_error + tcp_stream) \<Rightarrow> tcp_server \<Rightarrow> tcp_server" where
  "tcp_accept result st =
     (case result of
        Inr stream \<Rightarrow>
          if tc_permits st > 0
          then st\<lparr>tc_permits := tc_permits st - 1, tc_open := tc_open st @ [stream]\<rparr>
          else st
      | Inl e \<Rightarrow> st)"

inductive tcp_step :: "'r resolver_ops \<Rightarrow> tcp_server \<Rightarrow> tcp_server \<Rightarrow> bool" for R where
  tcp_accepted: "tcp_step R st (tcp_accept result st)"
| tcp_served: "tc_open st = before @ stream # behind \<Longrightarrow>
     handle_tcp_connection R stream s = ((res, stream'), s') \<Longrightarrow> res \<noteq> Diverge \<Longrightarrow>
     tcp_step R st (st\<lparr>tc_permits := tc_permits st + 1, tc_open := before @ behind\<rparr>)"

section \<open>Framing\<close>

definition frame :: "bytes \<Rightarrow> bytes" where
  "frame data = bytes_of_u16 (of_nat (length data)) @ data"

lemma read_query_frame:
  assumes "ts_in st = frame data @ rest" "0 < length data" "length data \<le> MAX_TCP_MESSAGE"
  shows "read_query st = Ok (data, st\<lparr>ts_in := rest\<rparr>)"
proof -
  have "unat (of_nat (length data) :: u16) = length data"
    using assms(3) by (simp add: MAX_TCP_MESSAGE_def)
  then show ?thesis
    using assms by (simp add: read_query_def read_exact_def frame_def bytes_of_u16_def)
qed

lemma write_tcp_frame:
  assumes "ts_write_fails st = None" "length data \<le> MAX_TCP_MESSAGE"
  shows "write_tcp_response data st = (Ok (), st\<lparr>ts_out := ts_out st @ frame data\<rparr>)"
  using assms by (simp add: write_tcp_response_def write_all_def frame_def)

section \<open>The same answers as over UDP\<close>

text \<open>A UDP answer without the TC bit is the whole response.\<close>

lemma udp_payload_untruncated:
  assumes "udp_payload m = Ok b" "response_header (m_header m)" "header_from_bytes b = Ok h" "\<not> h_tc h"
  shows "encode_message m = Ok b"
proof (rule ccontr)
  assume ne: "encode_message m \<noteq> Ok b"
  let ?t = "truncated_response m"
  from ne assms(1) obtain t where t: "encode_message ?t = Ok t" "b = take (min (length t) MAX_UDP_PAYLOAD) t"
    by (auto simp: udp_payload_def outcome_simps split: if_splits)
  obtain r where r: "t = header_wire (counted_header ?t) @ r"
    using encode_Ok_wire(1) [OF t(1)] by (auto simp: message_wire_def)
  have "12 \<le> min (length t) MAX_UDP_PAYLOAD"
    unfolding r by (simp add: MAX_UDP_PAYLOAD_def)
  then have "b = header_wire (counted_header ?t) @ take (min (length t) MAX_UDP_PAYLOAD - 12) r"
    using t(2) r by (metis length_header_wire take_all take_append)
  moreover have "response_header (counted_header ?t)" "h_tc (counted_header ?t)"
    using assms(2) by (simp_all add: response_header_def counted_header_def truncated_response_def)
  ultimately show False using assms(3,4) response_header_from_wire by fastforce
qed

lemma send_some_one: "send_some r = ([b], Ok ()) \<longleftrightarrow> r = Ok (Some b)"
  by (cases r rule: send_some.cases) auto

lemma send_ok_one: "send_ok r = ([b], Ok ()) \<longleftrightarrow> r = Ok b"
  by (cases r) auto

lemma send_try_one: "send_try r = ([b], Ok ()) \<longleftrightarrow> r = Ok b"
  by (cases r) auto

lemma udp_error_tcp: "udp_error data request q e = ([b], Ok ()) \<Longrightarrow> tcp_error data request q e = Ok b"
  by (cases e) (auto simp: udp_error_def tcp_error_def send_some_one send_ok_one)

lemma udp_respond_tcp:
  assumes "udp_respond R data request q s = (([b], Ok ()), s')"
    and "header_from_bytes b = Ok h" "\<not> h_tc h"
  shows "tcp_answer R data request q s = (Ok b, s')"
proof -
  have "encode_message (build_response (m_header request) q rs adds ad) = Ok b"
    if "udp_payload (build_response (m_header request) q rs adds ad) = Ok b" for rs adds ad
    using udp_payload_untruncated [OF that _ assms(2,3)] by simp
  then show ?thesis using assms(1) udp_error_tcp
    by (auto simp: udp_respond_def tcp_answer_def Let_def send_try_one outcome_simps case_prod_unfold
        split: outcome.splits)
qed

section \<open>Properties\<close>

text \<open>
  A response of 1 to 65535 bytes written to a healthy connection is framed so that the reader
  of this server takes exactly that message off the stream, whatever follows it.
\<close>

theorem tcp_frame_roundtrip:
  assumes "0 < length data" "length data \<le> MAX_TCP_MESSAGE" "ts_write_fails st = None" "ts_out st = []"
    and "write_tcp_response data st = (r, st')" "ts_in peer = ts_out st' @ rest"
  shows "r = Ok () \<and> read_query peer = Ok (data, peer\<lparr>ts_in := rest\<rparr>)"
  using assms write_tcp_frame [OF assms(3,2)] read_query_frame [of peer data rest] by auto

definition idle_stream :: "bytes \<Rightarrow> tcp_stream" where
  "idle_stream data = \<lparr>ts_in = data, ts_end = IoUnexpectedEof, ts_out = [], ts_write_fails = None\<rparr>"

theorem tcp_frame_roundtrip_witness:
  "read_query (idle_stream ([0, 3, 7, 8, 9] @ [5])) = Ok ([7, 8, 9], idle_stream [5])"
proof -
  have "write_tcp_response [7, 8, 9] (idle_stream []) = (Ok (), (idle_stream [])\<lparr>ts_out := [0, 3, 7, 8, 9]\<rparr>)"
    by (simp add: write_tcp_response_def write_all_def MAX_TCP_MESSAGE_def idle_stream_def bytes_of_u16_def)
  from tcp_frame_roundtrip [OF _ _ _ _ this, of "idle_stream ([0, 3, 7, 8, 9] @ [5])" "[5]"]
  show ?thesis by (simp add: MAX_TCP_MESSAGE_def idle_stream_def)
qed

text \<open>
  C27. Over TCP a query gets the same answer as over UDP, framed, whenever the UDP answer is not
  truncated, and leaves the resolver in the same state.
\<close>

theorem tcp_answers_like_udp:
  assumes "ts_in st = frame query_data @ rest" "0 < length query_data" "length query_data \<le> MAX_TCP_MESSAGE"
    and "ts_write_fails st = None"
    and "handle_query R query_data s = (([b], Ok ()), s')"
    and "header_from_bytes b = Ok h" "\<not> h_tc h"
  shows "handle_tcp_connection R st s =
     ((Ok (), st\<lparr>ts_in := rest, ts_out := ts_out st @ frame b\<rparr>), s')"
proof -
  have "length b \<le> MAX_TCP_MESSAGE"
    using handle_query_reply [of R query_data s] assms(5)
    by (simp add: reply_to_def MAX_TCP_MESSAGE_def MAX_DNS_MESSAGE_SIZE_def)
  then have w: "write_tcp_response b (st\<lparr>ts_in := rest\<rparr>) =
      (Ok (), st\<lparr>ts_in := rest, ts_out := ts_out st @ frame b\<rparr>)"
    using assms(4) by (subst write_tcp_frame) simp_all
  note q = read_query_frame [OF assms(1-3)]
  show ?thesis
  proof (cases "decode_message query_data")
    case (Ok request)
    with assms(5) have "\<not> (h_qr (m_header request) \<or> m_questions request = [])"
      "udp_respond R query_data request (hd (m_questions request)) s = (([b], Ok ()), s')"
      by (auto simp: handle_query_def split: if_splits)
    with udp_respond_tcp [OF _ assms(6,7), of R query_data request _ s s'] Ok q w show ?thesis
      by (simp add: handle_tcp_connection_def)
  next
    case (Err e)
    with assms(5) q w show ?thesis
      by (simp add: handle_tcp_connection_def handle_query_def send_some_one)
  qed (use assms(5) in \<open>simp_all add: handle_query_def\<close>)
qed

lemma plain_query_size: "0 < length (message_wire plain_query)" "length (message_wire plain_query) \<le> MAX_TCP_MESSAGE"
  by (simp_all add: message_wire_def plain_query_def query_example_def question_wire_def MAX_TCP_MESSAGE_def)

lemma plain_query_asks: "m_questions plain_query \<noteq> []"
  by (simp add: plain_query_def query_example_def)

lemma example_handled:
  "handle_query example_resolver (message_wire plain_query) () = (([message_wire example_response], Ok ()), ())"
  using udp_payload_cases(1) [OF example_response_fits(1)] example_response_fits(2) plain_query_fields
  by (simp add: handle_query_def decode_plain_query udp_respond_def example_resolver_def
      answer_additionals_def example_response_def plain_query_asks)

theorem tcp_answers_like_udp_witness:
  "handle_tcp_connection example_resolver (idle_stream (frame (message_wire plain_query))) () =
     ((Ok (), (idle_stream [])\<lparr>ts_out := frame (message_wire example_response)\<rparr>), ())"
proof -
  have "response_header (counted_header example_response)" "\<not> h_tc (counted_header example_response)"
    by (simp_all add: example_response_def counted_header_def response_header_def new_response_def)
  then have "header_from_bytes (message_wire example_response) = Ok ((counted_header example_response)\<lparr>h_z := 2\<rparr>)"
    "\<not> h_tc ((counted_header example_response)\<lparr>h_z := 2\<rparr>)"
    by (simp_all add: message_wire_def response_header_from_wire)
  from tcp_answers_like_udp [OF _ plain_query_size _ example_handled this,
      of "idle_stream (frame (message_wire plain_query))" "[]"]
  show ?thesis by (simp add: idle_stream_def)
qed

section \<open>The accept loop\<close>

definition served_somehow :: "'r resolver_ops \<Rightarrow> tcp_stream \<Rightarrow> bool" where
  "served_somehow R stream \<longleftrightarrow> (\<exists>s. fst (fst (handle_tcp_connection R stream s)) \<noteq> Diverge)"

lemma tcp_accept_permits:
  "tc_permits (tcp_accept result st) + length (tc_open (tcp_accept result st)) =
     tc_permits st + length (tc_open st)"
  by (cases result) (auto simp: tcp_accept_def)

lemma tcp_step_permits:
  "tcp_step R st st' \<Longrightarrow> tc_permits st' + length (tc_open st') = tc_permits st + length (tc_open st)"
  by (induction rule: tcp_step.induct) (simp_all add: tcp_accept_permits)

lemma tcp_step_end:
  assumes "tc_open st = stream # behind" "served_somehow R stream"
  shows "\<exists>st'. tcp_step R st st' \<and> tc_open st' = behind"
proof -
  obtain s where "fst (fst (handle_tcp_connection R stream s)) \<noteq> Diverge"
    using assms(2) by (auto simp: served_somehow_def)
  then obtain res st' s' where h: "handle_tcp_connection R stream s = ((res, st'), s')" "res \<noteq> Diverge"
    by (metis prod.collapse)
  show ?thesis using tcp_served [OF _ h, of st "[]" behind] assms(1) by fastforce
qed

interpretation tcp_permits: permit_server tc_permits tc_open "tcp_step R" "served_somehow R" tcp_start
    MAX_CONNECTIONS for R
  by unfold_locales (auto simp: tcp_start_def tcp_step_permits tcp_step_end)

text \<open>
  At most 512 connections are open in any reachable state of the TCP server, and if every open
  connection can be served without diverging, the server can reach a state where all are closed.
\<close>

theorem tcp_server_bounded:
  assumes "(tcp_step R)\<^sup>*\<^sup>* tcp_start st"
  shows "length (tc_open st) \<le> MAX_CONNECTIONS \<and>
     (list_all (served_somehow R) (tc_open st) \<longrightarrow>
        (\<exists>st'. (tcp_step R)\<^sup>*\<^sup>* st st' \<and> tc_open st' = [] \<and> tc_permits st' = MAX_CONNECTIONS))"
  using tcp_permits.permits_reachable [OF assms] tcp_permits.drains_completely [OF assms] by auto

definition one_connection :: tcp_server where
  "one_connection = \<lparr>tc_permits = 511, tc_open = [idle_stream (frame (message_wire plain_query))]\<rparr>"

theorem tcp_server_bounded_witness:
  "\<exists>st'. (tcp_step example_resolver)\<^sup>*\<^sup>* one_connection st' \<and> tc_open st' = [] \<and> tc_permits st' = 512"
proof -
  let ?s = "idle_stream (frame (message_wire plain_query))"
  have "tcp_accept (Inr ?s) tcp_start = one_connection"
    by (simp add: tcp_accept_def tcp_start_def one_connection_def MAX_CONNECTIONS_def)
  then have run: "(tcp_step example_resolver)\<^sup>*\<^sup>* tcp_start one_connection"
    using tcp_accepted [of example_resolver tcp_start "Inr ?s"] by auto
  have "read_query ?s = Ok (message_wire plain_query, idle_stream [])"
    using read_query_frame [OF _ plain_query_size, of ?s "[]"] by (simp add: idle_stream_def)
  moreover obtain r where "tcp_answer example_resolver (message_wire plain_query)
      (plain_query\<lparr>m_header := counted_header plain_query\<rparr>) (hd (m_questions plain_query)) () = (Ok r, ())"
    using encode_message_fits [OF example_response_fits(1)] example_response_fits(2) plain_query_fields
    by (auto simp: tcp_answer_def example_resolver_def answer_additionals_def example_response_def
        MAX_UDP_PAYLOAD_def MAX_DNS_MESSAGE_SIZE_def)
  moreover have "fst (write_tcp_response r (idle_stream [])) \<noteq> Diverge" for r
    by (simp add: write_tcp_response_def write_all_def idle_stream_def)
  ultimately have "served_somehow example_resolver ?s"
    using plain_query_fields plain_query_asks
    by (auto simp: served_somehow_def handle_tcp_connection_def decode_plain_query)
  then have "list_all (served_somehow example_resolver) (tc_open one_connection)"
    by (simp add: one_connection_def)
  with tcp_server_bounded [OF run] show ?thesis by (simp add: MAX_CONNECTIONS_def)
qed

end
