(* ===== verification/Dnssec_Crypto.thy ===== *)
theory Dnssec_Crypto
  imports Wire_Message Root_Hints
begin

text \<open>
  Keys, key tags, signature dispatch and DS digests of \<open>src/src/dnssec/mod.rs\<close>.  The primitives of
  the crypto crates (\<open>ring\<close>, \<open>p256\<close>, \<open>p384\<close>, \<open>ed25519_dalek\<close>) are the fields of a record that
  every definition takes as an argument; nothing is assumed of them.
\<close>

section \<open>Primitives\<close>

record crypto =
  c_rsa_pkcs1_sha256 :: "bytes \<Rightarrow> bytes \<Rightarrow> bytes \<Rightarrow> bytes \<Rightarrow> bool" \<comment> \<open>modulus, exponent, message, signature\<close>
  c_p256_der :: "bytes \<Rightarrow> bytes \<Rightarrow> bytes \<Rightarrow> bool" \<comment> \<open>SEC1 key, message, DER signature\<close>
  c_p256_fixed :: "bytes \<Rightarrow> bytes \<Rightarrow> bytes \<Rightarrow> bool"
  c_p384_der :: "bytes \<Rightarrow> bytes \<Rightarrow> bytes \<Rightarrow> bool"
  c_p384_fixed :: "bytes \<Rightarrow> bytes \<Rightarrow> bytes \<Rightarrow> bool"
  c_ed25519 :: "bytes \<Rightarrow> bytes \<Rightarrow> bytes \<Rightarrow> bool"
  c_sha1 :: "bytes \<Rightarrow> bytes"
  c_sha256 :: "bytes \<Rightarrow> bytes"
  c_sha384 :: "bytes \<Rightarrow> bytes"

section \<open>Types and constants\<close>

datatype validation_result = VR_Secure | VR_Insecure | VR_Bogus string | VR_Indeterminate

datatype dnssec_status = Secure | Insecure | Bogus | Indeterminate

record validation_stats =
  vs_dnskey_cache_hits :: u16
  vs_dnskey_fetches :: u16
  vs_ds_cache_hits :: u16
  vs_ds_fetches :: u16
  vs_elapsed_ms :: u64

definition MAX_CHAIN_DEPTH :: nat where "MAX_CHAIN_DEPTH = 10"
definition ROOT_KSK_ALGORITHM :: u8 where "ROOT_KSK_ALGORITHM = 8"
definition ROOT_KSK_FLAGS :: u16 where "ROOT_KSK_FLAGS = 257"

definition ROOT_KSK_2017_PUBLIC_KEY :: bytes where
  "ROOT_KSK_2017_PUBLIC_KEY =
   [0x03, 0x01, 0x00, 0x01, 0xac, 0xff, 0xb4, 0x09, 0xbc, 0xc9, 0x39, 0xf8, 0x31, 0xf7, 0xa1, 0xe5,
    0xec, 0x88, 0xf7, 0xa5, 0x92, 0x55, 0xec, 0x53, 0x04, 0x0b, 0xe4, 0x32, 0x02, 0x73, 0x90, 0xa4,
    0xce, 0x89, 0x6d, 0x6f, 0x90, 0x86, 0xf3, 0xc5, 0xe1, 0x77, 0xfb, 0xfe, 0x11, 0x81, 0x63, 0xaa,
    0xec, 0x7a, 0xf1, 0x46, 0x2c, 0x47, 0x94, 0x59, 0x44, 0xc4, 0xe2, 0xc0, 0x26, 0xbe, 0x5e, 0x98,
    0xbb, 0xcd, 0xed, 0x25, 0x97, 0x82, 0x72, 0xe1, 0xe3, 0xe0, 0x79, 0xc5, 0x09, 0x4d, 0x57, 0x3f,
    0x0e, 0x83, 0xc9, 0x2f, 0x02, 0xb3, 0x2d, 0x35, 0x13, 0xb1, 0x55, 0x0b, 0x82, 0x69, 0x29, 0xc8,
    0x0d, 0xd0, 0xf9, 0x2c, 0xac, 0x96, 0x6d, 0x17, 0x76, 0x9f, 0xd5, 0x86, 0x7b, 0x64, 0x7c, 0x3f,
    0x38, 0x02, 0x9a, 0xbd, 0xc4, 0x81, 0x52, 0xeb, 0x8f, 0x20, 0x71, 0x59, 0xec, 0xc5, 0xd2, 0x32,
    0xc7, 0xc1, 0x53, 0x7c, 0x79, 0xf4, 0xb7, 0xac, 0x28, 0xff, 0x11, 0x68, 0x2f, 0x21, 0x68, 0x1b,
    0xf6, 0xd6, 0xab, 0xa5, 0x55, 0x03, 0x2b, 0xf6, 0xf9, 0xf0, 0x36, 0xbe, 0xb2, 0xaa, 0xa5, 0xb3,
    0x77, 0x8d, 0x6e, 0xeb, 0xfb, 0xa6, 0xbf, 0x9e, 0xa1, 0x91, 0xbe, 0x4a, 0xb0, 0xca, 0xea, 0x75,
    0x9e, 0x2f, 0x77, 0x3a, 0x1f, 0x90, 0x29, 0xc7, 0x3e, 0xcb, 0x8d, 0x57, 0x35, 0xb9, 0x32, 0x1d,
    0xb0, 0x85, 0xf1, 0xb8, 0xe2, 0xd8, 0x03, 0x8f, 0xe2, 0x94, 0x19, 0x92, 0x54, 0x8c, 0xee, 0x0d,
    0x67, 0xdd, 0x45, 0x47, 0xe1, 0x1d, 0xd6, 0x3a, 0xf9, 0xc9, 0xfc, 0x1c, 0x54, 0x66, 0xfb, 0x68,
    0x4c, 0xf0, 0x09, 0xd7, 0x19, 0x7c, 0x2c, 0xf7, 0x9e, 0x79, 0x2a, 0xb5, 0x01, 0xe6, 0xa8, 0xa1,
    0xca, 0x51, 0x9a, 0xf2, 0xcb, 0x9b, 0x5f, 0x63, 0x67, 0xe9, 0x4c, 0x0d, 0x47, 0x50, 0x24, 0x51,
    0x35, 0x7b, 0xe1, 0xb5]"

definition ROOT_KSK_2024_PUBLIC_KEY :: bytes where
  "ROOT_KSK_2024_PUBLIC_KEY =
   [0x03, 0x01, 0x00, 0x01, 0xaf, 0x7a, 0x8d, 0xeb, 0xa4, 0x9d, 0x99, 0x5a, 0x79, 0x2a, 0xef, 0xc8,
    0x02, 0x63, 0xe9, 0x91, 0xef, 0xdb, 0xc8, 0x61, 0x38, 0xa9, 0x31, 0xde, 0xb2, 0xc6, 0x5d, 0x56,
    0x82, 0xea, 0xb5, 0xd3, 0xb0, 0x37, 0x38, 0xe3, 0xdf, 0xdc, 0x89, 0xd9, 0x6d, 0xa6, 0x4c, 0x86,
    0xc0, 0x22, 0x4d, 0x9c, 0xe0, 0x25, 0x14, 0xd2, 0x85, 0xda, 0x30, 0x68, 0xb1, 0x90, 0x54, 0xe5,
    0xe7, 0x87, 0xb2, 0x96, 0x90, 0x58, 0xe9, 0x8e, 0x12, 0x56, 0x6c, 0x8c, 0x80, 0x8c, 0x40, 0xc0,
    0xb7, 0x69, 0xe1, 0xdb, 0x1a, 0x24, 0xa1, 0xbd, 0x9b, 0x31, 0xe3, 0x03, 0x18, 0x4a, 0x31, 0xfc,
    0x7b, 0xb5, 0x6b, 0x85, 0xbb, 0xba, 0x8a, 0xbc, 0x02, 0xcd, 0x50, 0x40, 0xa4, 0x44, 0xa3, 0x6d,
    0x47, 0x69, 0x59, 0x69, 0x84, 0x9e, 0x16, 0xad, 0x85, 0x6b, 0xb5, 0x8e, 0x8f, 0xac, 0x88, 0x55,
    0x22, 0x44, 0x00, 0x31, 0x9b, 0xda, 0xb2, 0x24, 0xd8, 0x3f, 0xc0, 0xe6, 0x6a, 0xab, 0x32, 0xff,
    0x74, 0xbf, 0xea, 0xf0, 0xf9, 0x1c, 0x45, 0x4e, 0x68, 0x50, 0xa1, 0x29, 0x52, 0x07, 0xbb, 0xd4,
    0xcd, 0xde, 0x8f, 0x6f, 0xfb, 0x08, 0xfa, 0xa9, 0x75, 0x5c, 0x2e, 0x32, 0x84, 0xef, 0xa0, 0x1f,
    0x99, 0x39, 0x3e, 0x18, 0x78, 0x6c, 0xb1, 0x32, 0xf1, 0xe6, 0x6e, 0xbc, 0x65, 0x17, 0x31, 0x8e,
    0x1c, 0xe8, 0xa3, 0xb7, 0x33, 0x7e, 0xbb, 0x54, 0xd0, 0x35, 0xab, 0x57, 0xd9, 0x70, 0x6e, 0xcd,
    0x93, 0x50, 0xd4, 0xaf, 0xac, 0xd8, 0x25, 0xe4, 0x3c, 0x86, 0x68, 0xee, 0xce, 0x89, 0x81, 0x9c,
    0xaf, 0x68, 0x17, 0xaf, 0x62, 0xdc, 0x4f, 0xbd, 0x82, 0xf0, 0xe3, 0x3f, 0x66, 0x47, 0xb2, 0xb6,
    0xbd, 0xa1, 0x75, 0xf1, 0x46, 0x07, 0xf5, 0x9f, 0x46, 0x35, 0x45, 0x1e, 0x6b, 0x27, 0xdf, 0x28,
    0x2e, 0xf7, 0x3d, 0x87]"

definition anchor_record :: "bytes \<Rightarrow> resource_record" where
  "anchor_record public_key =
     \<lparr>rr_name = [0], rr_type = 48, rr_class = 1, rr_ttl = 172800,
      rr_rdlength = of_nat (length public_key) + 4,
      rr_rdata = bytes_of_u16 ROOT_KSK_FLAGS @ [3, ROOT_KSK_ALGORITHM] @ public_key,
      rr_parsed = Some (RD_DNSKEY ROOT_KSK_FLAGS 3 ROOT_KSK_ALGORITHM public_key)\<rparr>"

definition TRUST_ANCHORS :: "resource_record list" where
  "TRUST_ANCHORS = map anchor_record [ROOT_KSK_2017_PUBLIC_KEY, ROOT_KSK_2024_PUBLIC_KEY]"

section \<open>Key tags and signatures\<close>

fun key_tag_sum :: "nat \<Rightarrow> u32 \<Rightarrow> bytes \<Rightarrow> u32" where
  "key_tag_sum i ac [] = ac"
| "key_tag_sum i ac (byte # rest) =
     key_tag_sum (i + 1) (if i mod 2 = 0 then ac + push_bit 8 (ucast byte) else ac + ucast byte) rest"

definition compute_key_tag :: "u16 \<Rightarrow> u8 \<Rightarrow> u8 \<Rightarrow> bytes \<Rightarrow> u16" where
  "compute_key_tag flags protocol algorithm public_key =
     (let rdata = [ucast (drop_bit 8 flags), ucast (flags AND 0xff), protocol, algorithm] @ public_key;
          ac = key_tag_sum 0 0 rdata;
          ac = ac + (drop_bit 16 ac AND 0xffff)
      in ucast (ac AND 0xffff))"

text \<open>The RFC 3110 key format: exponent and modulus.\<close>

definition rsa_key_parts :: "bytes \<Rightarrow> (bytes \<times> bytes) option" where
  "rsa_key_parts public_key =
     (if public_key = [] then None
      else if public_key ! 0 = 0 \<and> length public_key < 3 then None
      else
        let (exp_len, exp_start) =
              (if public_key ! 0 = 0 then (unat (be16 (public_key ! 1) (public_key ! 2)), 3)
               else (unat (public_key ! 0), 1)) in
        if length public_key < exp_start + exp_len then None
        else
          let exponent = take exp_len (drop exp_start public_key);
              modulus = drop (exp_start + exp_len) public_key in
          if modulus = [] then None else Some (exponent, modulus))"

definition verify_rsa_sha256 :: "crypto \<Rightarrow> bytes \<Rightarrow> bytes \<Rightarrow> bytes \<Rightarrow> bool" where
  "verify_rsa_sha256 C public_key signed_data sig =
     (case rsa_key_parts public_key of
        None \<Rightarrow> False
      | Some (exponent, modulus) \<Rightarrow> c_rsa_pkcs1_sha256 C modulus exponent signed_data sig)"

definition verify_ecdsa_p256 :: "crypto \<Rightarrow> bytes \<Rightarrow> bytes \<Rightarrow> bytes \<Rightarrow> bool" where
  "verify_ecdsa_p256 C public_key signed_data sig =
     (if length public_key \<noteq> 64 then
        (if length public_key = 65 \<and> public_key ! 0 = 4 then c_p256_der C public_key signed_data sig
         else False)
      else c_p256_fixed C (4 # public_key) signed_data sig)"

definition verify_ecdsa_p384 :: "crypto \<Rightarrow> bytes \<Rightarrow> bytes \<Rightarrow> bytes \<Rightarrow> bool" where
  "verify_ecdsa_p384 C public_key signed_data sig =
     (if length public_key \<noteq> 96 then
        (if length public_key = 97 \<and> public_key ! 0 = 4 then c_p384_der C public_key signed_data sig
         else False)
      else c_p384_fixed C (4 # public_key) signed_data sig)"

definition verify_ed25519 :: "crypto \<Rightarrow> bytes \<Rightarrow> bytes \<Rightarrow> bytes \<Rightarrow> bool" where
  "verify_ed25519 C public_key signed_data sig =
     (length public_key = 32 \<and> length sig = 64 \<and> c_ed25519 C public_key signed_data sig)"

definition verify_signature :: "crypto \<Rightarrow> u8 \<Rightarrow> bytes \<Rightarrow> bytes \<Rightarrow> bytes \<Rightarrow> bool" where
  "verify_signature C algorithm public_key signed_data sig =
     (if algorithm = 8 then verify_rsa_sha256 C public_key signed_data sig
      else if algorithm = 13 then verify_ecdsa_p256 C public_key signed_data sig
      else if algorithm = 14 then verify_ecdsa_p384 C public_key signed_data sig
      else if algorithm = 15 then verify_ed25519 C public_key signed_data sig
      else False)"

section \<open>DER encoding of an RSA key\<close>

definition asn1_length :: "nat \<Rightarrow> bytes" where
  "asn1_length len =
     (if len < 128 then [of_nat len]
      else if len < 256 then [0x81, of_nat len]
      else [0x82, of_nat (len div 256), of_nat (len mod 256)])"

definition asn1_integer :: "bytes \<Rightarrow> bytes" where
  "asn1_integer bs =
     (let stripped = (case find_index (\<lambda>b. b \<noteq> 0) bs of Some pos \<Rightarrow> drop pos bs | None \<Rightarrow> [0]);
          needs_pad = (stripped ! 0 AND 0x80 \<noteq> 0);
          len = length stripped + (if needs_pad then 1 else 0)
      in [0x02] @ asn1_length len @ (if needs_pad then [0] else []) @ stripped)"

definition rsa_dnskey_to_der :: "bytes \<Rightarrow> bytes option" where
  "rsa_dnskey_to_der public_key =
     (case rsa_key_parts public_key of
        None \<Rightarrow> None
      | Some (exponent, modulus) \<Rightarrow>
          let mod_der = asn1_integer modulus; exp_der = asn1_integer exponent in
          Some ([0x30] @ asn1_length (length mod_der + length exp_der) @ mod_der @ exp_der))"

section \<open>Names in canonical form and DS digests\<close>

text \<open>The lowercasing loop of \<open>name_to_wire\<close>; no result stands for the panic of a slice out of range.\<close>

function lower_labels :: "bytes \<Rightarrow> bytes option" where
  "lower_labels [] = Some []"
| "lower_labels (len # rest) =
     (if len = 0 then Some (len # rest)
      else if length rest < unat len then None
      else map_option (\<lambda>tail. len # map ascii_lower (take (unat len) rest) @ tail)
             (lower_labels (drop (unat len) rest)))"
  by pat_completeness auto
termination
  by (relation "measure length") auto

definition name_to_wire :: "string \<Rightarrow> bytes" where
  "name_to_wire name =
     (let encoded = (case encode_domain_name name of Ok e \<Rightarrow> e | _ \<Rightarrow> []) in
      case lower_labels encoded of Some w \<Rightarrow> w | None \<Rightarrow> [])"

fun same_dnskey_data :: "rdata option \<Rightarrow> rdata option \<Rightarrow> bool" where
  "same_dnskey_data (Some (RD_DNSKEY fa pa aa ak)) (Some (RD_DNSKEY fb pb ba bk)) \<longleftrightarrow> aa = ba \<and> ak = bk"
| "same_dnskey_data a b \<longleftrightarrow> False"

definition same_dnskey :: "resource_record \<Rightarrow> resource_record \<Rightarrow> bool" where
  "same_dnskey a b = same_dnskey_data (rr_parsed a) (rr_parsed b)"

fun verify_ds_data :: "crypto \<Rightarrow> rdata option \<Rightarrow> rdata option \<Rightarrow> string \<Rightarrow> bool" where
  "verify_ds_data C (Some (RD_DS ds_tag ds_algo digest_type digest))
       (Some (RD_DNSKEY flags protocol dk_algo public_key)) owner =
     (if compute_key_tag flags protocol dk_algo public_key \<noteq> ds_tag \<or> dk_algo \<noteq> ds_algo then False
      else
        let dnskey_rdata = [ucast (drop_bit 8 flags), ucast (flags AND 0xff), protocol, dk_algo] @ public_key;
            inp = name_to_wire owner @ dnskey_rdata in
        if digest_type = 2 then c_sha256 C inp = digest
        else if digest_type = 4 then c_sha384 C inp = digest
        else False)"
| "verify_ds_data C ds dk owner = False"

definition verify_ds :: "crypto \<Rightarrow> resource_record \<Rightarrow> resource_record \<Rightarrow> string \<Rightarrow> bool" where
  "verify_ds C ds dnskey owner = verify_ds_data C (rr_parsed ds) (rr_parsed dnskey) owner"

definition validate_dnskeys_against_ds :: "crypto \<Rightarrow> resource_record list \<Rightarrow> resource_record list \<Rightarrow> bool" where
  "validate_dnskeys_against_ds C dnskeys ds_records =
     (if dnskeys = [] \<or> ds_records = [] then False
      else list_all (\<lambda>ds. list_ex (\<lambda>dk. verify_ds C ds dk []) dnskeys) ds_records)"

definition validate_dnskeys_against_root_anchor :: "resource_record list \<Rightarrow> bool" where
  "validate_dnskeys_against_root_anchor dnskeys =
     list_ex (\<lambda>dk. list_ex (\<lambda>ta. same_dnskey dk ta) TRUST_ANCHORS) dnskeys"

section \<open>Key tags\<close>

text \<open>The sum of RFC 4034, appendix B, without a machine word.\<close>

fun word_sum :: "nat \<Rightarrow> bytes \<Rightarrow> nat" where
  "word_sum i [] = 0"
| "word_sum i (b # bs) = (if i mod 2 = 0 then 256 * unat b else unat b) + word_sum (i + 1) bs"

definition rfc_key_tag :: "bytes \<Rightarrow> nat" where
  "rfc_key_tag rdata = (let s = word_sum 0 rdata in (s + s div 65536) mod 65536)"

lemma unat_u8_le: "unat (b :: u8) \<le> 255"
  using unat_u8_less [of b] by linarith

lemma word_sum_bound: "word_sum i bs \<le> 65280 * length bs"
proof (induction bs arbitrary: i)
  case (Cons b bs)
  show ?case using Cons [of "i + 1"] unat_u8_le [of b] by auto
qed simp

lemma key_tag_sum_nat:
  "unat ac + word_sum i bs < 2 ^ 32 \<Longrightarrow> unat (key_tag_sum i ac bs) = unat ac + word_sum i bs"
proof (induction bs arbitrary: i ac)
  case (Cons b bs)
  have b: "unat (push_bit 8 (ucast b) :: u32) = 256 * unat b" "unat (ucast b :: u32) = unat b"
    using unat_u8_le [of b]
    by (simp_all only: unsigned_push_bit_eq unsigned_ucast_eq)
      (simp_all add: push_bit_eq_mult take_bit_eq_mod)
  define x :: u32 where "x = (if i mod 2 = 0 then push_bit 8 (ucast b) else ucast b)"
  have x: "unat x = (if i mod 2 = 0 then 256 * unat b else unat b)" using b by (simp add: x_def)
  have "unat (ac + x) = unat ac + unat x"
    using Cons.prems x by (subst unat_word_ariths) simp
  moreover have "key_tag_sum i ac (b # bs) = key_tag_sum (i + 1) (ac + x) bs"
    by (simp add: x_def)
  ultimately show ?case using Cons.IH [of "ac + x" "i + 1"] Cons.prems x by simp
qed simp

lemma low_u16: "unat (ucast (w AND 0xffff :: u32) :: u16) = unat w mod 65536"
proof -
  have "(0xffff :: u32) = mask 16" by (simp add: mask_eq_exp_minus_1)
  then have "w AND 0xffff = take_bit 16 w" by (simp add: take_bit_eq_mask)
  then have "unat (ucast (w AND 0xffff) :: u16) = take_bit 16 (take_bit 16 (unat w))"
    by (simp only: unsigned_ucast_eq unsigned_take_bit_eq) simp
  then show ?thesis by (simp add: take_bit_eq_mod)
qed

lemma high_u16: "unat (drop_bit 16 w AND 0xffff :: u32) = unat w div 65536"
proof -
  have "(0xffff :: u32) = mask 16" by (simp add: mask_eq_exp_minus_1)
  then have "drop_bit 16 w AND 0xffff = take_bit 16 (drop_bit 16 w)" by (simp add: take_bit_eq_mask)
  then have "unat (drop_bit 16 w AND 0xffff) = take_bit 16 (drop_bit 16 (unat w))"
    by (simp only: unsigned_take_bit_eq unsigned_drop_bit_eq) (simp add: take_bit_eq_mod drop_bit_eq_div)
  moreover have "unat w div 65536 < 65536" using unat_u32_less [of w] by linarith
  ultimately show ?thesis by (simp add: take_bit_eq_mod drop_bit_eq_div)
qed

lemma low_u8: "ucast (w AND 0xff :: u16) = (ucast w :: u8)"
proof -
  have "(0xff :: u16) = mask 8" by (simp add: mask_eq_exp_minus_1)
  then have "w AND 0xff = take_bit 8 w" by (simp only: take_bit_eq_mask)
  then show ?thesis by (simp only:) (rule bit_word_eqI, simp add: bit_ucast_iff bit_take_bit_iff)
qed

section \<open>DER\<close>

text \<open>The value of a big-endian byte string.\<close>

definition be_value :: "bytes \<Rightarrow> nat" where
  "be_value bs = foldl (\<lambda>n b. 256 * n + unat b) 0 bs"

lemma be_value_zero_prefix: "be_value (0 # bs) = be_value bs"
  by (simp add: be_value_def)

lemma be_value_strip:
  "be_value (drop n bs) = be_value bs" if "\<forall>b \<in> set (take n bs). b = 0"
  using that
proof (induction n arbitrary: bs)
  case (Suc n)
  then show ?case by (cases bs) (auto simp: be_value_zero_prefix)
qed simp

lemma be_value_zeros: "\<forall>b \<in> set bs. b = 0 \<Longrightarrow> be_value bs = 0"
  by (induction bs) (simp_all add: be_value_def)

lemma find_index_None: "find_index P xs = None \<longleftrightarrow> (\<forall>x \<in> set xs. \<not> P x)"
  by (induction xs) auto

lemma find_index_Some:
  "find_index P xs = Some i \<longleftrightarrow> i < length xs \<and> P (xs ! i) \<and> (\<forall>x \<in> set (take i xs). \<not> P x)"
proof (induction xs arbitrary: i)
  case (Cons x xs)
  then show ?case by (cases i) auto
qed simp

definition stripped_int :: "bytes \<Rightarrow> bytes" where
  "stripped_int bs = (case find_index (\<lambda>b. b \<noteq> 0) bs of Some pos \<Rightarrow> drop pos bs | None \<Rightarrow> [0])"

lemma stripped_int_props:
  "stripped_int bs \<noteq> []" "be_value (stripped_int bs) = be_value bs"
  "stripped_int bs ! 0 = 0 \<Longrightarrow> stripped_int bs = [0]"
proof -
  show "stripped_int bs \<noteq> []"
    by (auto simp: stripped_int_def find_index_Some split: option.split)
  show "be_value (stripped_int bs) = be_value bs"
    by (auto simp: stripped_int_def find_index_Some find_index_None be_value_strip be_value_zeros
        split: option.split)
  show "stripped_int bs ! 0 = 0 \<Longrightarrow> stripped_int bs = [0]"
    by (cases "find_index (\<lambda>b. b \<noteq> 0) bs") (auto simp: stripped_int_def find_index_Some)
qed

lemma odd_div_128: "n \<le> 255 \<Longrightarrow> odd (n div 128) \<longleftrightarrow> \<not> n < (128 :: nat)"
proof (cases "n < 128")
  case False
  assume "n \<le> 255"
  with False have "n div 128 = 1" by (intro div_nat_eqI) simp_all
  with False show ?thesis by simp
qed simp

lemma high_bit_u8: "(b :: u8) AND 0x80 = 0 \<longleftrightarrow> unat b < 128"
proof -
  have p: "(0x80 :: u8) = 2 ^ 7" by simp
  have "bit b 7 \<longleftrightarrow> odd (unat b div 128)"
    using bit_unsigned_iff [of b 7, where ?'a = nat] by (simp add: bit_iff_odd)
  then show ?thesis
    unfolding p and_exp_eq_0_iff_not_bit using odd_div_128 [OF unat_u8_le, of b] by simp
qed

section \<open>Canonical names\<close>

lemma lower_labels_wire:
  "valid_labels ls \<Longrightarrow> lower_labels (wire_name ls) = Some (wire_name (map (map ascii_lower) ls))"
proof (induction ls)
  case Nil
  then show ?case by (simp add: wire_name_def)
next
  case (Cons l ls)
  then have "0 < length l" "length l \<le> 63" by (simp_all add: valid_labels_def valid_label_def)
  then have "unat (of_nat (length l) :: u8) = length l" "(of_nat (length l) :: u8) \<noteq> 0"
    by (simp_all add: word_of_nat_eq_0_iff nat_dvd_not_less)
  with Cons show ?case by (simp add: wire_name_def wire_labels_def valid_labels_def)
qed

lemma lower_labels_encoded: "encode_domain_name name = Ok e \<Longrightarrow> lower_labels e = Some e"
  using valid_labels_map_same_length [of as_bytes "\<lambda>l. map ascii_lower (as_bytes l)"]
  by (auto simp: encode_domain_name_Ok_iff lower_labels_wire o_def)

text \<open>The encoder writes lower case already: the loop changes nothing and stays in range.\<close>

lemma name_to_wire_eq:
  "name_to_wire name = (case encode_domain_name name of Ok e \<Rightarrow> e | _ \<Rightarrow> [])"
  by (cases "encode_domain_name name") (simp_all add: name_to_wire_def lower_labels_encoded)

text \<open>No addition of the sum wraps around: every partial sum is the one of natural numbers.\<close>

lemma key_tag_sum_exact:
  assumes "length rdata \<le> 65539"
  shows "unat (key_tag_sum 0 0 (take k rdata)) = word_sum 0 (take k rdata)"
    and "unat (key_tag_sum 0 0 rdata + (drop_bit 16 (key_tag_sum 0 0 rdata) AND 0xffff)) =
      word_sum 0 rdata + word_sum 0 rdata div 65536"
proof -
  have s: "word_sum 0 (take k rdata) \<le> 65280 * 65539" for k
    using word_sum_bound [of 0 "take k rdata"] assms by simp
  show ac: "unat (key_tag_sum 0 0 (take k rdata)) = word_sum 0 (take k rdata)" for k
    using key_tag_sum_nat [of 0 0 "take k rdata"] s [of k] by simp
  show "unat (key_tag_sum 0 0 rdata + (drop_bit 16 (key_tag_sum 0 0 rdata) AND 0xffff)) =
      word_sum 0 rdata + word_sum 0 rdata div 65536"
    using s [of "length rdata"] ac [of "length rdata"] by (subst unat_word_ariths) (simp only: take_all_iff order.refl take_all high_u16, simp)
qed

lemma compute_key_tag_nat:
  assumes "length public_key \<le> 65535"
  shows "unat (compute_key_tag flags protocol algorithm public_key) =
     rfc_key_tag (bytes_of_u16 flags @ [protocol, algorithm] @ public_key)"
proof -
  let ?rdata = "bytes_of_u16 flags @ [protocol, algorithm] @ public_key"
  have rd: "[ucast (drop_bit 8 flags), ucast (flags AND 0xff), protocol, algorithm] @ public_key = ?rdata"
    by (simp add: bytes_of_u16_def low_u8)
  show ?thesis
    unfolding compute_key_tag_def rd Let_def low_u16 rfc_key_tag_def
    using key_tag_sum_exact(2) [of ?rdata] assms by simp
qed

lemma word_sum_pair: "word_sum 0 (b # b' # bs) = 256 * unat b + unat b' + word_sum 0 bs"
proof -
  have "word_sum (Suc (Suc i)) bs = word_sum i bs" for i
    by (induction bs arbitrary: i) (auto simp: mod_Suc)
  then show ?thesis by simp
qed

section \<open>Properties\<close>

text \<open>
  C35. For a public key of at most 65535 bytes no addition to the 32-bit accumulator overflows: after
  every byte, and after the carry is added, it holds the sum of natural numbers.  The computed tag is the
  one of RFC 4034, appendix B, over the DNSKEY RDATA.
\<close>

theorem key_tag_is_rfc4034:
  fixes flags :: u16 and protocol algorithm :: u8
  assumes "length public_key \<le> 65535"
  defines "rdata \<equiv> bytes_of_u16 flags @ [protocol, algorithm] @ public_key"
  shows "(\<forall>k. unat (key_tag_sum 0 0 (take k rdata)) = word_sum 0 (take k rdata)) \<and>
    unat (key_tag_sum 0 0 rdata + (drop_bit 16 (key_tag_sum 0 0 rdata) AND 0xffff)) =
      word_sum 0 rdata + word_sum 0 rdata div 65536 \<and>
    unat (compute_key_tag flags protocol algorithm public_key) = rfc_key_tag rdata"
  using key_tag_sum_exact [of rdata] compute_key_tag_nat [OF assms(1)] assms(1) by (simp add: rdata_def)

theorem key_tag_is_rfc4034_witness:
  "unat (compute_key_tag 256 3 8 [1, 2, 3]) = rfc_key_tag (bytes_of_u16 256 @ [3, 8] @ [1, 2, 3])"
  using key_tag_is_rfc4034 [of "[1, 2, 3]" 256 3 8] by simp

text \<open>
  The two pinned root keys are KSK-2017 and KSK-2024: their key tags are 20326 and 38696.  The
  DNSKEY of \<open>trust_anchor.rs\<close> has another tag, 15348.
\<close>

theorem trust_anchor_key_tags:
  "map (\<lambda>key. compute_key_tag ROOT_KSK_FLAGS 3 ROOT_KSK_ALGORITHM key)
     [ROOT_KSK_2017_PUBLIC_KEY, ROOT_KSK_2024_PUBLIC_KEY] = [20326, 38696] \<and>
   rfc_key_tag ROOT_DNSKEY_RDATA = 15348"
proof -
  have tag: "compute_key_tag f p a k = t"
    if "length k \<le> 65535" "rfc_key_tag (bytes_of_u16 f @ [p, a] @ k) = unat t" for f p a k t
    using compute_key_tag_nat [OF that(1), of f p a] that(2) by (simp add: word_unat_eq_iff)
  have "compute_key_tag ROOT_KSK_FLAGS 3 ROOT_KSK_ALGORITHM ROOT_KSK_2017_PUBLIC_KEY = 20326"
    by (rule tag) (simp_all add: ROOT_KSK_2017_PUBLIC_KEY_def ROOT_KSK_FLAGS_def ROOT_KSK_ALGORITHM_def
        rfc_key_tag_def bytes_of_u16_def word_sum_pair del: word_sum.simps(2))
  moreover have "compute_key_tag ROOT_KSK_FLAGS 3 ROOT_KSK_ALGORITHM ROOT_KSK_2024_PUBLIC_KEY = 38696"
    by (rule tag) (simp_all add: ROOT_KSK_2024_PUBLIC_KEY_def ROOT_KSK_FLAGS_def ROOT_KSK_ALGORITHM_def
        rfc_key_tag_def bytes_of_u16_def word_sum_pair del: word_sum.simps(2))
  moreover have "rfc_key_tag ROOT_DNSKEY_RDATA = 15348"
    by (simp add: ROOT_DNSKEY_RDATA_def rfc_key_tag_def word_sum_pair del: word_sum.simps(2))
  ultimately show ?thesis by simp
qed

text \<open>
  The DER form of an integer is its tag, the length of the contents and contents that are not
  negative, as short as possible, and denote the same number as the given bytes.
\<close>

theorem asn1_integer_canonical:
  "\<exists>c. asn1_integer bs = 0x02 # asn1_length (length c) @ c \<and> be_value c = be_value bs \<and>
     c \<noteq> [] \<and> unat (c ! 0) < 128 \<and>
     (if 1 < length c \<and> c ! 0 = 0 then 128 \<le> unat (c ! 1) else True)"
proof -
  let ?s = "stripped_int bs"
  let ?c = "(if unat (?s ! 0) < 128 then [] else [0]) @ ?s"
  have "asn1_integer bs = 0x02 # asn1_length (length ?c) @ ?c"
    by (simp add: asn1_integer_def high_bit_u8 Let_def flip: stripped_int_def)
  moreover have "be_value ?c = be_value bs" by (simp add: be_value_zero_prefix stripped_int_props(2))
  moreover have "?c \<noteq> []" "unat (?c ! 0) < 128"
    using stripped_int_props(1) [of bs] by auto
  moreover have "if 1 < length ?c \<and> ?c ! 0 = 0 then 128 \<le> unat (?c ! 1) else True"
    using stripped_int_props(3) [of bs] by auto
  ultimately show ?thesis by blast
qed

text \<open>
  Checking keys against DS records without an owner name takes the digest over the root name:
  keys are accepted only if every DS digest is that of the root's DNSKEY RDATA.
\<close>

lemma ds_check_uses_root_name:
  assumes "validate_dnskeys_against_ds C dnskeys ds_records" "ds \<in> set ds_records"
  shows "\<exists>dk \<in> set dnskeys. verify_ds C ds dk ''.''"
proof -
  have "name_to_wire [] = name_to_wire ''.''"
    by (simp add: name_to_wire_eq encode_domain_name_def trim_end_matches_def)
  then have "verify_ds_data C a b [] = verify_ds_data C a b ''.''" for a b
    by (cases "(C, a, b, [] :: string)" rule: verify_ds_data.cases) (auto simp: Let_def)
  then show ?thesis
    using assms by (auto simp: validate_dnskeys_against_ds_def verify_ds_def list_all_iff list_ex_iff
        split: if_splits)
qed

end
