(* ===== verification/Dnssec_Canonical.thy ===== *)
theory Dnssec_Canonical
  imports Dnssec_Crypto "HOL-Library.List_Lexorder" "HOL-Library.Multiset"
begin

text \<open>
  Canonical form, signed data and the signature gate of \<open>src/src/dnssec/mod.rs\<close>: the bytes an RRSIG
  signs, the validity window, and the checks built on them.  The current time is an argument, the
  seconds since the epoch.
\<close>

section \<open>Canonical records\<close>

fun record_rdata_canonical_of :: "rdata option \<Rightarrow> bytes" where
  "record_rdata_canonical_of (Some (RD_A addr)) = octets4 addr"
| "record_rdata_canonical_of (Some (RD_AAAA addr)) = octets6 addr"
| "record_rdata_canonical_of (Some (RD_NS host)) = name_to_wire (labels_to_string host)"
| "record_rdata_canonical_of (Some (RD_CNAME host)) = name_to_wire (labels_to_string host)"
| "record_rdata_canonical_of (Some (RD_PTR host)) = name_to_wire (labels_to_string host)"
| "record_rdata_canonical_of (Some (RD_MX preference exchange)) =
     bytes_of_u16 preference @ name_to_wire (labels_to_string exchange)"
| "record_rdata_canonical_of (Some (RD_DNSKEY flags protocol algorithm public_key)) =
     bytes_of_u16 flags @ [protocol, algorithm] @ public_key"
| "record_rdata_canonical_of (Some (RD_DS key_tag algorithm digest_type digest)) =
     bytes_of_u16 key_tag @ [algorithm, digest_type] @ digest"
| "record_rdata_canonical_of (Some (RD_NSEC next_domain type_bit_maps)) =
     name_to_wire (labels_to_string next_domain) @ type_bit_maps"
| "record_rdata_canonical_of (Some (RD_SOA mname rname serial refresh retry expire minimum)) =
     name_to_wire (labels_to_string mname) @ name_to_wire (labels_to_string rname) @
     bytes_of_u32 serial @ bytes_of_u32 refresh @ bytes_of_u32 retry @ bytes_of_u32 expire @
     bytes_of_u32 minimum"
| "record_rdata_canonical_of (Some (RD_TXT strings)) =
     concat (map (\<lambda>s. of_nat (length s) # as_bytes s) strings)"
| "record_rdata_canonical_of (Some (RD_Unknown original)) = original"
| "record_rdata_canonical_of _ = []"

definition record_rdata_canonical :: "resource_record \<Rightarrow> bytes" where
  "record_rdata_canonical record = record_rdata_canonical_of (rr_parsed record)"

definition record_to_canonical_wire :: "resource_record \<Rightarrow> u32 \<Rightarrow> bytes" where
  "record_to_canonical_wire record original_ttl =
     (let rdata = record_rdata_canonical record in
      name_to_wire (labels_to_string (rr_name record)) @ bytes_of_u16 (rr_type record) @
      bytes_of_u16 (rr_class record) @ bytes_of_u32 original_ttl @
      bytes_of_u16 (of_nat (length rdata)) @ rdata)"

fun build_signed_data_of :: "rdata option \<Rightarrow> resource_record list \<Rightarrow> bytes" where
  "build_signed_data_of (Some (RD_RRSIG type_covered algorithm labels original_ttl expiration
       inception key_tag signer_name signature)) rrset =
     bytes_of_u16 type_covered @ [algorithm, labels] @ bytes_of_u32 original_ttl @
     bytes_of_u32 expiration @ bytes_of_u32 inception @ bytes_of_u16 key_tag @
     name_to_wire (labels_to_string signer_name) @
     concat (sort (map (\<lambda>r. record_to_canonical_wire r original_ttl) rrset))"
| "build_signed_data_of _ rrset = []"

definition build_signed_data :: "resource_record \<Rightarrow> resource_record list \<Rightarrow> bytes" where
  "build_signed_data rrsig rrset = build_signed_data_of (rr_parsed rrsig) rrset"

section \<open>RRsets\<close>

definition is_rrsig :: "resource_record \<Rightarrow> bool" where
  "is_rrsig r \<longleftrightarrow> (case rr_parsed r of Some (RD_RRSIG _ _ _ _ _ _ _ _ _) \<Rightarrow> True | _ \<Rightarrow> False)"

definition is_dnskey :: "resource_record \<Rightarrow> bool" where
  "is_dnskey r \<longleftrightarrow> (case rr_parsed r of Some (RD_DNSKEY _ _ _ _) \<Rightarrow> True | _ \<Rightarrow> False)"

definition is_ds :: "resource_record \<Rightarrow> bool" where
  "is_ds r \<longleftrightarrow> (case rr_parsed r of Some (RD_DS _ _ _ _) \<Rightarrow> True | _ \<Rightarrow> False)"

definition is_nsec :: "resource_record \<Rightarrow> bool" where
  "is_nsec r \<longleftrightarrow> (case rr_parsed r of Some (RD_NSEC _ _) \<Rightarrow> True | _ \<Rightarrow> False)"

type_synonym rrset_group = "bytes \<times> u16 \<times> resource_record list"

fun push_group :: "resource_record \<Rightarrow> rrset_group list \<Rightarrow> rrset_group list" where
  "push_group rec [] = [(rr_name rec, rr_type rec, [rec])]"
| "push_group rec ((d, t, rs) # groups) =
     (if d = rr_name rec \<and> t = rr_type rec then (d, t, rs @ [rec]) # groups
      else (d, t, rs) # push_group rec groups)"

fun group_loop :: "resource_record list \<Rightarrow> rrset_group list \<Rightarrow> rrset_group list" where
  "group_loop [] groups = groups"
| "group_loop (rec # records) groups =
     (if is_rrsig rec then group_loop records groups else group_loop records (push_group rec groups))"

definition group_rrsets :: "resource_record list \<Rightarrow> rrset_group list" where
  "group_rrsets records = group_loop records []"

fun covers_rrset :: "bytes \<Rightarrow> u16 \<Rightarrow> rdata option \<Rightarrow> bool" where
  "covers_rrset name qtype (Some (RD_RRSIG type_covered _ _ _ _ _ _ signer_name _)) \<longleftrightarrow>
     signer_name = name \<and> type_covered = qtype"
| "covers_rrset name qtype _ \<longleftrightarrow> False"

definition matching_rrsigs_for ::
  "resource_record list \<Rightarrow> bytes \<Rightarrow> u16 \<Rightarrow> resource_record list" where
  "matching_rrsigs_for all_rrsigs name qtype =
     filter (\<lambda>r. covers_rrset name qtype (rr_parsed r)) all_rrsigs"

section \<open>The signature gate\<close>

definition is_rrsig_time_valid :: "nat \<Rightarrow> u32 \<Rightarrow> u32 \<Rightarrow> bool" where
  "is_rrsig_time_valid unix_secs expiration inception =
     (let fudge = 300; now = (of_nat unix_secs :: u32);
          inception_ok = (now - inception < push_bit 31 1);
          expiration_ok = (expiration - now < push_bit 31 1)
      in (inception_ok \<or> now + fudge \<ge> inception) \<and> expiration_ok)"

fun rrsig_verified_of ::
  "crypto \<Rightarrow> nat \<Rightarrow> rdata option \<Rightarrow> rdata option \<Rightarrow> bytes \<Rightarrow> bool" where
  "rrsig_verified_of C now (Some (RD_RRSIG _ algorithm _ _ expiration inception key_tag _ signature))
       (Some (RD_DNSKEY flags protocol dk_algo public_key)) signed_data \<longleftrightarrow>
     dk_algo = algorithm \<and> compute_key_tag flags protocol dk_algo public_key = key_tag \<and>
     is_rrsig_time_valid now expiration inception \<and>
     verify_signature C algorithm public_key signed_data signature"
| "rrsig_verified_of C now _ _ signed_data \<longleftrightarrow> False"

definition rrsig_verified_by ::
  "crypto \<Rightarrow> nat \<Rightarrow> resource_record \<Rightarrow> resource_record \<Rightarrow> resource_record list \<Rightarrow> bool" where
  "rrsig_verified_by C now rrsig dk rrset =
     rrsig_verified_of C now (rr_parsed rrsig) (rr_parsed dk) (build_signed_data rrsig rrset)"

fun rrsig_covers_type :: "u16 \<Rightarrow> rdata option \<Rightarrow> bool" where
  "rrsig_covers_type t (Some (RD_RRSIG type_covered _ _ _ _ _ _ _ _)) \<longleftrightarrow> type_covered = t"
| "rrsig_covers_type t _ \<longleftrightarrow> False"

definition verify_rrset_signed ::
  "crypto \<Rightarrow> nat \<Rightarrow> resource_record list \<Rightarrow> u16 \<Rightarrow> resource_record list \<Rightarrow> bool" where
  "verify_rrset_signed C now records rrset_type signing_keys =
     (let rrset = filter (\<lambda>r. rr_type r = rrset_type) records in
      if rrset = [] then False
      else list_ex (\<lambda>r. rrsig_covers_type rrset_type (rr_parsed r) \<and>
             list_ex (\<lambda>dk. rrsig_verified_by C now r dk rrset) signing_keys) records)"

fun try_keys :: "crypto \<Rightarrow> u8 \<Rightarrow> u16 \<Rightarrow> bytes \<Rightarrow> bytes \<Rightarrow> resource_record list \<Rightarrow> bool" where
  "try_keys C algorithm key_tag signed_data signature [] = False"
| "try_keys C algorithm key_tag signed_data signature (dk # dnskeys) =
     (case rr_parsed dk of
        Some (RD_DNSKEY flags protocol dk_algo public_key) \<Rightarrow>
          if dk_algo \<noteq> algorithm then try_keys C algorithm key_tag signed_data signature dnskeys
          else if compute_key_tag flags protocol dk_algo public_key \<noteq> key_tag
          then try_keys C algorithm key_tag signed_data signature dnskeys
          else if verify_signature C algorithm public_key signed_data signature then True
          else try_keys C algorithm key_tag signed_data signature dnskeys
      | _ \<Rightarrow> try_keys C algorithm key_tag signed_data signature dnskeys)"

definition validate_rrset ::
  "crypto \<Rightarrow> nat \<Rightarrow> resource_record \<Rightarrow> resource_record list \<Rightarrow> resource_record list \<Rightarrow> validation_result" where
  "validate_rrset C now rrsig records dnskeys =
     (case rr_parsed rrsig of
        Some (RD_RRSIG type_covered algorithm labels original_ttl expiration inception key_tag
          signer_name signature) \<Rightarrow>
          if \<not> is_rrsig_time_valid now expiration inception
          then VR_Bogus ''RRSIG time window invalid''
          else if try_keys C algorithm key_tag (build_signed_data rrsig records) signature dnskeys
          then VR_Secure
          else VR_Bogus ''No matching DNSKEY found for RRSIG''
      | _ \<Rightarrow> VR_Indeterminate)"

section \<open>Zone names\<close>

definition parent_zone_str :: "string \<Rightarrow> string" where
  "parent_zone_str zone =
     (if zone = ''.'' \<or> zone = [] then ''.''
      else case find_index (\<lambda>c. c = CHR ''.'') zone of
             Some pos \<Rightarrow> drop (pos + 1) zone
           | None \<Rightarrow> ''.'')"

definition is_root_zone :: "bytes \<Rightarrow> bool" where
  "is_root_zone name \<longleftrightarrow> length name = 1 \<and> name ! 0 = 0"

definition parent_zone :: "bytes \<Rightarrow> bytes option" where
  "parent_zone name =
     (if is_root_zone name then None
      else if length name \<le> 1 then Some [0]
      else
        let first_label_len = unat (name ! 0) in
        if 1 + first_label_len \<ge> length name then Some [0]
        else
          let parent = drop (1 + first_label_len) name in
          if parent = [] \<or> (length parent = 1 \<and> parent ! 0 = 0) then Some [0] else Some parent)"

fun signer_covers_owner :: "string \<Rightarrow> rdata option \<Rightarrow> bool" where
  "signer_covers_owner nsec_zone (Some (RD_RRSIG type_covered _ _ _ _ _ _ signer_name _)) \<longleftrightarrow>
     type_covered = 47 \<and>
     (let signer = labels_to_string signer_name in
      ends_with (CHR ''.'' # signer) nsec_zone \<or> nsec_zone = signer)"
| "signer_covers_owner nsec_zone _ \<longleftrightarrow> False"

text \<open>The loop over the NSEC records computes \<open>has_valid_rrsig\<close> for each and drops it.\<close>

definition validate_negative_dnssec ::
  "resource_record list \<Rightarrow> resource_record list \<Rightarrow> resource_record list \<Rightarrow> resource_record list \<Rightarrow>
     resource_record list \<Rightarrow> bytes \<Rightarrow> u16 \<Rightarrow> validation_result" where
  "validate_negative_dnssec soa_records nsec_records nsec3_records rrsigs dnskeys qname qtype =
     (if nsec_records \<noteq> [] then
        let has_valid_rrsigs = map (\<lambda>nsec. list_ex (\<lambda>rrsig.
              signer_covers_owner (labels_to_string (rr_name nsec)) (rr_parsed rrsig)) rrsigs) nsec_records
        in VR_Secure
      else if nsec3_records \<noteq> [] then VR_Secure
      else if rrsigs \<noteq> [] then VR_Indeterminate
      else VR_Indeterminate)"

section \<open>Signed data\<close>

text \<open>What the signed data sees of a record: its owner, type, class and parsed RDATA.\<close>

definition signed_part :: "resource_record \<Rightarrow> resource_record" where
  "signed_part r = r\<lparr>rr_ttl := 0, rr_rdlength := 0, rr_rdata := []\<rparr>"

lemma canonical_wire_signed_part:
  "record_to_canonical_wire (signed_part r) ttl = record_to_canonical_wire r ttl"
  by (simp add: signed_part_def record_to_canonical_wire_def record_rdata_canonical_def)

lemma sort_mset_eq: "mset xs = mset ys \<Longrightarrow> sort xs = sort ys" for xs ys :: "'a::linorder list"
  by (metis mset_sort properties_for_sort sorted_sort)

lemma canonical_wires_mset:
  assumes "mset (map signed_part rs) = mset (map signed_part rs')"
  shows "mset (map (\<lambda>r. record_to_canonical_wire r ttl) rs) =
         mset (map (\<lambda>r. record_to_canonical_wire r ttl) rs')"
proof -
  have "mset (map (\<lambda>r. record_to_canonical_wire r ttl) qs) =
      image_mset (\<lambda>r. record_to_canonical_wire r ttl) (mset (map signed_part qs))" for qs
    by (simp add: canonical_wire_signed_part multiset.map_comp o_def)
  with assms show ?thesis by metis
qed

lemma signed_data_cong:
  assumes "mset (map signed_part rs) = mset (map signed_part rs')"
  shows "build_signed_data rrsig rs = build_signed_data rrsig rs'"
  using sort_mset_eq [OF canonical_wires_mset [OF assms]]
  by (cases "(rr_parsed rrsig, rs)" rule: build_signed_data_of.cases) (simp_all add: build_signed_data_def)

section \<open>Grouping\<close>

definition group_key :: "rrset_group \<Rightarrow> bytes \<times> u16" where
  "group_key g = (fst g, fst (snd g))"

definition groups_of :: "resource_record list \<Rightarrow> rrset_group list \<Rightarrow> bool" where
  "groups_of records groups \<longleftrightarrow> distinct (map group_key groups) \<and>
     list_all (\<lambda>(d, t, rs). rs = filter (\<lambda>r. rr_name r = d \<and> rr_type r = t) records \<and> rs \<noteq> []) groups \<and>
     set (map group_key groups) = (\<lambda>r. (rr_name r, rr_type r)) ` set records"

lemma push_group_new:
  "(rr_name rec, rr_type rec) \<notin> set (map group_key groups) \<Longrightarrow>
     push_group rec groups = groups @ [(rr_name rec, rr_type rec, [rec])]"
  by (induction rec groups rule: push_group.induct) (auto simp: group_key_def)

lemma push_group_old:
  "distinct (map group_key groups) \<Longrightarrow> (rr_name rec, rr_type rec) \<in> set (map group_key groups) \<Longrightarrow>
     push_group rec groups =
       map (\<lambda>(d, t, rs). (d, t, if d = rr_name rec \<and> t = rr_type rec then rs @ [rec] else rs)) groups"
proof (induction rec groups rule: push_group.induct)
  case (2 rec d t rs groups)
  show ?case
  proof (cases "d = rr_name rec \<and> t = rr_type rec")
    case True
    with "2.prems" have "map (\<lambda>(d, t, rs). (d, t, if d = rr_name rec \<and> t = rr_type rec then rs @ [rec] else rs)) groups = groups"
      by (intro map_idI) (auto simp: group_key_def image_iff)
    with True show ?thesis by simp
  next
    case False
    with "2.prems" "2.IH" show ?thesis by (auto simp: group_key_def)
  qed
qed simp

lemma groups_of_push:
  assumes "groups_of records groups"
  shows "groups_of (records @ [rec]) (push_group rec groups)"
proof (cases "(rr_name rec, rr_type rec) \<in> set (map group_key groups)")
  case True
  have "map group_key (push_group rec groups) = map group_key groups"
    using push_group_old [OF _ True] assms by (simp add: groups_of_def group_key_def case_prod_unfold)
  moreover have "list_all (\<lambda>(d, t, rs). rs = filter (\<lambda>r. rr_name r = d \<and> rr_type r = t) (records @ [rec]) \<and> rs \<noteq> [])
      (push_group rec groups)"
    using push_group_old [OF _ True] assms by (fastforce simp: groups_of_def list_all_iff split: if_splits)
  ultimately show ?thesis using assms True by (auto simp: groups_of_def)
next
  case False
  then have "(rr_name rec, rr_type rec) \<notin> (\<lambda>r. (rr_name r, rr_type r)) ` set records"
    using assms by (simp only: groups_of_def) blast
  then have "filter (\<lambda>r. rr_name r = rr_name rec \<and> rr_type r = rr_type rec) records = []"
    unfolding filter_empty_conv by (metis (no_types, lifting) image_eqI)
  with False assms show ?thesis
    by (auto simp: push_group_new groups_of_def list_all_iff group_key_def)
qed

lemma group_loop_groups:
  "groups_of records groups \<Longrightarrow>
     groups_of (records @ filter (\<lambda>r. \<not> is_rrsig r) rs) (group_loop rs groups)"
proof (induction rs arbitrary: records groups)
  case (Cons r rs)
  show ?case
  proof (cases "is_rrsig r")
    case False
    with Cons.IH [OF groups_of_push [OF Cons.prems, of r]] show ?thesis by simp
  qed (use Cons in simp)
qed simp

lemma group_rrsets_groups: "groups_of (filter (\<lambda>r. \<not> is_rrsig r) records) (group_rrsets records)"
  using group_loop_groups [of "[]" "[]" records] by (simp add: group_rrsets_def groups_of_def)

section \<open>The gate and the public entry point\<close>

lemma try_keys_iff:
  assumes "rr_parsed rrsig = Some (RD_RRSIG tc algorithm lb ttl expiration inception key_tag sn signature)"
    and "is_rrsig_time_valid now expiration inception"
  shows "try_keys C algorithm key_tag (build_signed_data rrsig rrset) signature keys \<longleftrightarrow>
     list_ex (\<lambda>dk. rrsig_verified_by C now rrsig dk rrset) keys"
proof (induction keys)
  case (Cons dk keys)
  show ?case
  proof (cases "\<exists>f p a k. rr_parsed dk = Some (RD_DNSKEY f p a k)")
    case True
    with Cons assms show ?thesis by (auto simp: rrsig_verified_by_def)
  next
    case False
    then have "\<not> rrsig_verified_by C now rrsig dk rrset"
      by (cases "(C, now, rr_parsed rrsig, rr_parsed dk, build_signed_data rrsig rrset)" rule: rrsig_verified_of.cases)
        (auto simp: rrsig_verified_by_def)
    with False Cons show ?thesis by (auto split: option.split rdata.split)
  qed
qed simp

lemma gate_needs_time:
  "rrsig_verified_by C now rrsig dk rrset \<Longrightarrow>
     \<exists>tc a l t e i k n s. rr_parsed rrsig = Some (RD_RRSIG tc a l t e i k n s) \<and> is_rrsig_time_valid now e i"
  by (cases "(C, now, rr_parsed rrsig, rr_parsed dk, build_signed_data rrsig rrset)" rule: rrsig_verified_of.cases)
    (auto simp: rrsig_verified_by_def)

lemma validate_rrset_Secure:
  assumes "validate_rrset C now rrsig records keys = VR_Secure"
  shows "\<exists>tc a l t e i k n s. rr_parsed rrsig = Some (RD_RRSIG tc a l t e i k n s) \<and> is_rrsig_time_valid now e i"
proof (cases "rr_parsed rrsig")
  case (Some d)
  then show ?thesis using assms by (cases d) (auto simp: validate_rrset_def split: if_splits)
qed (use assms in \<open>simp add: validate_rrset_def\<close>)

lemma validate_rrset_iff:
  "validate_rrset C now rrsig records keys = VR_Secure \<longleftrightarrow>
     list_ex (\<lambda>dk. rrsig_verified_by C now rrsig dk records) keys"
proof (cases "\<exists>tc a l t e i k n s. rr_parsed rrsig = Some (RD_RRSIG tc a l t e i k n s) \<and> is_rrsig_time_valid now e i")
  case True
  then show ?thesis by (auto simp: validate_rrset_def try_keys_iff split: if_splits)
next
  case False
  have "\<not> list_ex (\<lambda>dk. rrsig_verified_by C now rrsig dk records) keys"
  proof
    assume "list_ex (\<lambda>dk. rrsig_verified_by C now rrsig dk records) keys"
    then obtain dk where "rrsig_verified_by C now rrsig dk records" by (auto simp: list_ex_iff)
    from gate_needs_time [OF this] show False by (rule notE [OF False])
  qed
  moreover have "validate_rrset C now rrsig records keys \<noteq> VR_Secure"
  proof
    assume "validate_rrset C now rrsig records keys = VR_Secure"
    from validate_rrset_Secure [OF this] show False by (rule notE [OF False])
  qed
  ultimately show ?thesis by simp
qed

section \<open>The validity window\<close>

lemma unat_diff_u32:
  "unat (a - b :: u32) = (if unat b \<le> unat a then unat a - unat b else unat a + 2 ^ 32 - unat b)"
  by (subst unat_sub_if') simp

lemma time_window:
  assumes now: "unix_secs + 300 < 2 ^ 32"
    and inc: "unat inception < unix_secs + 2 ^ 31" "unix_secs < unat inception + 2 ^ 31"
    and expir: "unat expiration < unix_secs + 2 ^ 31" "unix_secs < unat expiration + 2 ^ 31"
  shows "is_rrsig_time_valid unix_secs expiration inception \<longleftrightarrow>
     unat inception \<le> unix_secs + 300 \<and> unix_secs \<le> unat expiration"
proof -
  let ?now = "of_nat unix_secs :: u32"
  have n: "unat ?now = unix_secs" "unat (?now + 300) = unix_secs + 300" "unat (push_bit 31 1 :: u32) = 2 ^ 31"
    using now by (simp_all add: unat_word_ariths)
  have "?now - inception < push_bit 31 1 \<longleftrightarrow> unat inception \<le> unix_secs"
    unfolding word_less_nat_alt unat_diff_u32 n using inc by auto
  moreover have "expiration - ?now < push_bit 31 1 \<longleftrightarrow> unix_secs \<le> unat expiration"
    unfolding word_less_nat_alt unat_diff_u32 n using expir by auto
  moreover have "inception \<le> ?now + 300 \<longleftrightarrow> unat inception \<le> unix_secs + 300"
    unfolding word_le_nat_alt n ..
  ultimately show ?thesis by (auto simp: is_rrsig_time_valid_def Let_def)
qed

section \<open>Parents\<close>

lemma parent_zone_wire:
  assumes "valid_labels (l # ls)"
  shows "parent_zone (wire_name (l # ls)) = Some (wire_name ls)"
proof -
  have l: "0 < length l" "unat (of_nat (length l) :: u8) = length l"
    using assms by (auto simp: valid_labels_def valid_label_def)
  have w: "wire_name (l # ls) = of_nat (length l) # l @ wire_name ls"
    by (simp add: wire_name_def wire_labels_def)
  have "wire_name ls \<noteq> []" by (simp add: wire_name_def)
  moreover have "wire_name ls = [0]" if "length (wire_name ls) = 1" "wire_name ls ! 0 = 0"
    using that by (cases "wire_name ls") auto
  ultimately show ?thesis using l by (auto simp: parent_zone_def is_root_zone_def w Let_def)
qed

lemma parent_zone_root: "parent_zone (wire_name []) = None"
  by (simp add: parent_zone_def is_root_zone_def wire_name_def)

fun climb :: "nat \<Rightarrow> bytes \<Rightarrow> bytes option" where
  "climb 0 name = Some name"
| "climb (Suc n) name = (case parent_zone name of None \<Rightarrow> None | Some p \<Rightarrow> climb n p)"

lemma climb_wire: "valid_labels ls \<Longrightarrow> n \<le> length ls \<Longrightarrow> climb n (wire_name ls) = Some (wire_name (drop n ls))"
proof (induction n arbitrary: ls)
  case (Suc n)
  then obtain l ls' where "ls = l # ls'" by (cases ls) auto
  with Suc parent_zone_wire [of l ls'] show ?case by (simp add: valid_labels_def)
qed simp

lemma climb_past_root: "valid_labels ls \<Longrightarrow> climb (Suc (length ls)) (wire_name ls) = None"
proof (induction ls)
  case Nil
  then show ?case using parent_zone_root by simp
next
  case (Cons l ls)
  then show ?case using parent_zone_wire [of l ls] by (simp add: valid_labels_def)
qed

section \<open>Properties\<close>

text \<open>
  C34. The data an RRSIG is checked against does not depend on the order of the records, on their
  TTLs or on their raw RDATA: two RRsets with the same owners, types, classes and parsed RDATA give
  the same bytes.
\<close>

theorem signed_data_order_independent:
  assumes "mset (map signed_part rrset) = mset (map signed_part rrset')"
  shows "build_signed_data rrsig rrset = build_signed_data rrsig rrset'"
  using assms by (rule signed_data_cong)

definition example_rr :: "u32 \<Rightarrow> u8 \<Rightarrow> resource_record" where
  "example_rr ttl b =
     \<lparr>rr_name = [1, 97, 0], rr_type = 1, rr_class = 1, rr_ttl = ttl, rr_rdlength = 4,
      rr_rdata = [10, 0, 0, b], rr_parsed = Some (RD_A (Ipv4 10 0 0 b))\<rparr>"

definition example_rrsig :: resource_record where
  "example_rrsig =
     \<lparr>rr_name = [1, 97, 0], rr_type = 46, rr_class = 1, rr_ttl = 60, rr_rdlength = 0, rr_rdata = [],
      rr_parsed = Some (RD_RRSIG 1 8 1 60 1700086400 1700000200 20326 [1, 97, 0] [1, 2, 3])\<rparr>"

theorem signed_data_order_independent_witness:
  "build_signed_data example_rrsig [example_rr 60 1, example_rr 70 2] =
   build_signed_data example_rrsig [example_rr 5 2, example_rr 80 1]"
  by (rule signed_data_order_independent) (simp add: signed_part_def example_rr_def)

text \<open>
  Grouping yields one group per owner and type of the records that are not signatures, in it
  exactly those records, in order.
\<close>

theorem group_rrsets_partition:
  "groups_of (filter (\<lambda>r. \<not> is_rrsig r) records) (group_rrsets records)"
  by (rule group_rrsets_groups)

text \<open>
  The check used by the resolver and the check used by the chain of trust agree: an RRset is
  reported secure exactly when one of the keys has the algorithm and tag of the signature, the
  signature is within its validity window, and it verifies over the signed data.
\<close>

theorem validate_rrset_is_gate:
  "validate_rrset C now rrsig records dnskeys = VR_Secure \<longleftrightarrow>
     list_ex (\<lambda>dk. rrsig_verified_by C now rrsig dk records) dnskeys"
  by (rule validate_rrset_iff)

text \<open>
  As long as the times lie within half the range of the 32-bit clock of each other, a signature
  is accepted from 300 seconds before its inception until its expiration.
\<close>

theorem rrsig_window:
  assumes "unix_secs + 300 < 2 ^ 32"
    and "unat inception < unix_secs + 2 ^ 31" "unix_secs < unat inception + 2 ^ 31"
    and "unat expiration < unix_secs + 2 ^ 31" "unix_secs < unat expiration + 2 ^ 31"
  shows "is_rrsig_time_valid unix_secs expiration inception \<longleftrightarrow>
     unat inception \<le> unix_secs + 300 \<and> unix_secs \<le> unat expiration"
  by (rule time_window [OF assms])

theorem rrsig_window_witness:
  "is_rrsig_time_valid 1700000000 1700086400 1700000200 \<and> \<not> is_rrsig_time_valid 1700086401 1700086400 1700000200"
  using rrsig_window [of 1700000000 1700000200 1700086400] rrsig_window [of 1700086401 1700000200 1700086400]
  by simp

text \<open>
  A negative answer with an NSEC or NSEC3 record is reported secure whatever its signatures and
  keys are.
\<close>

theorem negative_answer_not_verified:
  "validate_negative_dnssec soa_records nsec_records nsec3_records rrsigs dnskeys qname qtype =
     (if nsec_records = [] \<and> nsec3_records = [] then VR_Indeterminate else VR_Secure)"
  by (auto simp: validate_negative_dnssec_def)

text \<open>
  Going from a zone to its parent drops one label: after as many steps as the name has labels
  the walk is at the root, which has no parent.
\<close>

theorem parent_walk_reaches_root:
  assumes "valid_labels ls"
  shows "climb (length ls) (wire_name ls) = Some [0] \<and> climb (Suc (length ls)) (wire_name ls) = None"
  using climb_wire [OF assms, of "length ls"] climb_past_root [OF assms]
  by (simp add: wire_name_def del: climb.simps(2))

theorem parent_walk_reaches_root_witness:
  "climb 2 (wire_name [[97], [98, 99]]) = Some [0] \<and> climb 3 (wire_name [[97], [98, 99]]) = None"
  using parent_walk_reaches_root [of "[[97], [98, 99]]"]
  by (simp add: valid_labels_def valid_label_def eval_nat_numeral del: climb.simps)

end
