(* ===== verification/Dnssec_Denial.thy ===== *)
theory Dnssec_Denial
  imports Dnssec_Canonical Dns_Cache
begin

text \<open>
  Denial of existence of \<open>src/src/dnssec/mod.rs\<close>: type bitmaps, the canonical order of names, the
  gaps NSEC and NSEC3 records describe, and \<open>validate_denial\<close>.  The cache of the resolver is passed
  as its state; the clock readings of the cache lookups and the Unix time of the signature checks
  are arguments, one for each RRset looked at.
\<close>

section \<open>Type bitmaps\<close>

function bitmap_loop :: "u8 \<Rightarrow> nat \<Rightarrow> u8 \<Rightarrow> bytes \<Rightarrow> bool" where
  "bitmap_loop target_window byte_offset bit_mask (window # len # rest) =
     (let bmap_len = unat len in
      if length rest < bmap_len then False
      else if window = target_window \<and> byte_offset < bmap_len
      then rest ! byte_offset AND bit_mask \<noteq> 0
      else bitmap_loop target_window byte_offset bit_mask (drop bmap_len rest))"
| "bitmap_loop target_window byte_offset bit_mask [] = False"
| "bitmap_loop target_window byte_offset bit_mask [x] = False"
  by pat_completeness auto
termination
  by (relation "measure (\<lambda>(w, off, m, bs). length bs)") auto

definition type_bitmap_contains :: "bytes \<Rightarrow> u16 \<Rightarrow> bool" where
  "type_bitmap_contains bitmap qtype =
     (let target_window = ucast (qtype div 256) :: u8;
          target_bit = ucast (qtype mod 256) :: u8;
          byte_offset = unat (target_bit div 8);
          bit_mask = drop_bit (unat (target_bit mod 8)) 0x80
      in bitmap_loop target_window byte_offset bit_mask bitmap)"

section \<open>The order of names\<close>

datatype cmp_ordering = Cmp_Less | Cmp_Equal | Cmp_Greater

definition cmp_of :: "'a::linorder \<Rightarrow> 'a \<Rightarrow> cmp_ordering" where
  "cmp_of x y = (if x < y then Cmp_Less else if x = y then Cmp_Equal else Cmp_Greater)"

definition name_parts :: "string \<Rightarrow> string list" where
  "name_parts s = filter (\<lambda>l. l \<noteq> []) (split_on CHR ''.'' s)"

definition lower_bytes :: "string \<Rightarrow> bytes" where
  "lower_bytes s = map ascii_lower (as_bytes s)"

definition eq_ignore_ascii_case :: "string \<Rightarrow> string \<Rightarrow> bool" where
  "eq_ignore_ascii_case a b \<longleftrightarrow> lower_bytes a = lower_bytes b"

fun cmp_zip :: "string list \<Rightarrow> string list \<Rightarrow> cmp_ordering option" where
  "cmp_zip (la # as) (lb # bs) =
     (case cmp_of (lower_bytes la) (lower_bytes lb) of
        Cmp_Equal \<Rightarrow> cmp_zip as bs
      | other \<Rightarrow> Some other)"
| "cmp_zip as bs = None"

definition canonical_dns_name_order :: "string \<Rightarrow> string \<Rightarrow> cmp_ordering" where
  "canonical_dns_name_order a b =
     (case cmp_zip (rev (name_parts a)) (rev (name_parts b)) of
        Some r \<Rightarrow> r
      | None \<Rightarrow> cmp_of (length (name_parts a)) (length (name_parts b)))"

definition nsec_covers_name :: "string \<Rightarrow> string \<Rightarrow> string \<Rightarrow> bool" where
  "nsec_covers_name owner nxt qname =
     (let on = canonical_dns_name_order owner nxt;
          qo = canonical_dns_name_order qname owner;
          qn = canonical_dns_name_order qname nxt
      in if on = Cmp_Greater \<or> on = Cmp_Equal then qo = Cmp_Greater \<or> qn = Cmp_Less
         else qo = Cmp_Greater \<and> qn = Cmp_Less)"

fun encloser_loop :: "resource_record list \<Rightarrow> string list \<Rightarrow> string option" where
  "encloser_loop zone_nsecs [] = None"
| "encloser_loop zone_nsecs (l # labels) =
     (let candidate = join_with ''.'' (l # labels) in
      if list_ex (\<lambda>r. is_nsec r \<and> eq_ignore_ascii_case (labels_to_string (rr_name r)) candidate) zone_nsecs
      then Some candidate else encloser_loop zone_nsecs labels)"

definition closest_encloser :: "string \<Rightarrow> resource_record list \<Rightarrow> string option" where
  "closest_encloser qname zone_nsecs = encloser_loop zone_nsecs (name_parts qname)"

definition nsec_proves_nodata :: "string \<Rightarrow> string \<Rightarrow> bytes \<Rightarrow> u16 \<Rightarrow> bool" where
  "nsec_proves_nodata owner qname bitmap qtype \<longleftrightarrow>
     eq_ignore_ascii_case owner qname \<and> \<not> type_bitmap_contains bitmap qtype \<and>
     \<not> type_bitmap_contains bitmap 5"

section \<open>NSEC3\<close>

definition MAX_NSEC3_ITERATIONS :: u16 where "MAX_NSEC3_ITERATIONS = 500"

fun nsec3_iterate :: "crypto \<Rightarrow> bytes \<Rightarrow> nat \<Rightarrow> bytes \<Rightarrow> bytes" where
  "nsec3_iterate C salt 0 hash = hash"
| "nsec3_iterate C salt (Suc n) hash = nsec3_iterate C salt n (c_sha1 C (hash @ salt))"

definition nsec3_hash :: "crypto \<Rightarrow> string \<Rightarrow> u8 \<Rightarrow> u16 \<Rightarrow> bytes \<Rightarrow> bytes option" where
  "nsec3_hash C name algorithm iterations salt =
     (if algorithm \<noteq> 1 then None
      else if iterations > MAX_NSEC3_ITERATIONS then None
      else Some (nsec3_iterate C salt (unat iterations) (c_sha1 C (name_to_wire name @ salt))))"

definition b32_value :: "u8 \<Rightarrow> u8" where
  "b32_value ch =
     (if 48 \<le> ch \<and> ch \<le> 57 then ch - 48
      else if 65 \<le> ch \<and> ch \<le> 86 then ch - 55
      else if 97 \<le> ch \<and> ch \<le> 118 then ch - 87
      else 0xff)"

fun b32_loop :: "u64 \<Rightarrow> nat \<Rightarrow> bytes \<Rightarrow> bytes \<Rightarrow> bytes option" where
  "b32_loop bits bit_count output [] = Some output"
| "b32_loop bits bit_count output (ch # chs) =
     (if ch = 61 then Some output
      else if ch \<ge> 128 then None
      else
        let val = b32_value ch in
        if val = 0xff then None
        else
          let bits = push_bit 5 bits OR ucast val; bit_count = bit_count + 5 in
          if bit_count \<ge> 8
          then let bit_count = bit_count - 8 in
               b32_loop (bits AND (push_bit bit_count 1 - 1)) bit_count
                 (output @ [ucast (drop_bit bit_count bits)]) chs
          else b32_loop bits bit_count output chs)"

definition base32hex_decode :: "string \<Rightarrow> bytes option" where
  "base32hex_decode inp = b32_loop 0 0 [] (as_bytes inp)"

definition nsec3_owner_hash :: "string \<Rightarrow> bytes option" where
  "nsec3_owner_hash domain = base32hex_decode (hd (split_on CHR ''.'' domain))"

definition nsec3_hash_in_range :: "bytes \<Rightarrow> bytes \<Rightarrow> bytes \<Rightarrow> bool" where
  "nsec3_hash_in_range owner_hash next_hash target_hash =
     (if owner_hash < next_hash then owner_hash < target_hash \<and> target_hash < next_hash
      else owner_hash < target_hash \<or> target_hash < next_hash)"

fun nsec_next :: "rdata option \<Rightarrow> bytes option" where
  "nsec_next (Some (RD_NSEC next_domain type_bit_maps)) = Some next_domain"
| "nsec_next _ = None"

fun nsec_bitmap :: "rdata option \<Rightarrow> bytes option" where
  "nsec_bitmap (Some (RD_NSEC next_domain type_bit_maps)) = Some type_bit_maps"
| "nsec_bitmap _ = None"

definition nsec3_any_covers :: "(bytes \<times> resource_record) list \<Rightarrow> bytes \<Rightarrow> bool" where
  "nsec3_any_covers decoded target =
     list_ex (\<lambda>(oh, r).
       case nsec_next (rr_parsed r) of
         Some next_domain \<Rightarrow>
           let next_hashed_owner =
             (case nsec3_owner_hash (labels_to_string next_domain) of Some h \<Rightarrow> h | None \<Rightarrow> [])
           in nsec3_hash_in_range oh next_hashed_owner target
       | None \<Rightarrow> False) decoded"

section \<open>Signatures of the authority section\<close>

definition key_verifies :: "crypto \<Rightarrow> u8 \<Rightarrow> u16 \<Rightarrow> bytes \<Rightarrow> bytes \<Rightarrow> resource_record \<Rightarrow> bool" where
  "key_verifies C algorithm key_tag signed_data signature dk =
     (case rr_parsed dk of
        Some (RD_DNSKEY flags protocol dk_algo public_key) \<Rightarrow>
          if dk_algo \<noteq> algorithm then False
          else if compute_key_tag flags protocol dk_algo public_key \<noteq> key_tag then False
          else verify_signature C algorithm public_key signed_data signature
      | _ \<Rightarrow> False)"

fun verify_groups ::
  "crypto \<Rightarrow> 'c cache_store \<Rightarrow> (nat \<Rightarrow> nat \<Rightarrow> nat) \<Rightarrow> (nat \<Rightarrow> nat) \<Rightarrow> resource_record list \<Rightarrow> nat \<Rightarrow>
     rrset_group list \<Rightarrow> 'c dns_cache \<Rightarrow> bool \<times> 'c dns_cache" where
  "verify_groups C L clocks now all_rrsigs g [] c = (True, c)"
| "verify_groups C L clocks now all_rrsigs g ((name, qtype, rrset) # groups) c =
     (case find (\<lambda>r. covers_rrset name qtype (rr_parsed r)) all_rrsigs of
        None \<Rightarrow> (False, c)
      | Some rrsig \<Rightarrow>
          (case rr_parsed rrsig of
             Some (RD_RRSIG type_covered algorithm labels original_ttl expiration inception key_tag
               signer_name signature) \<Rightarrow>
               if \<not> is_rrsig_time_valid (now g) expiration inception then (False, c)
               else (case cache_lookup L (clocks g) signer_name 48 1 c of
                  (None, c) \<Rightarrow> (False, c)
                | (Some (dnskeys, _), c) \<Rightarrow>
                    if list_ex (key_verifies C algorithm key_tag (build_signed_data rrsig rrset) signature) dnskeys
                    then verify_groups C L clocks now all_rrsigs (g + 1) groups c
                    else (False, c))
           | _ \<Rightarrow> verify_groups C L clocks now all_rrsigs (g + 1) groups c))"

definition verify_authority_rrsigs ::
  "crypto \<Rightarrow> 'c cache_store \<Rightarrow> (nat \<Rightarrow> nat \<Rightarrow> nat) \<Rightarrow> (nat \<Rightarrow> nat) \<Rightarrow> resource_record list \<Rightarrow>
     resource_record list \<Rightarrow> u16 \<Rightarrow> 'c dns_cache \<Rightarrow> bool \<times> 'c dns_cache" where
  "verify_authority_rrsigs C L clocks now authorities all_rrsigs denial_type c =
     (let denial_records = filter (\<lambda>r. rr_type r = denial_type) authorities;
          denial_rrsets = group_rrsets denial_records;
          (ok, c) = verify_groups C L clocks now all_rrsigs 0 denial_rrsets c
      in (ok \<and> denial_rrsets \<noteq> [], c))"

section \<open>Denial of existence\<close>

definition nsec_name_covered :: "resource_record list \<Rightarrow> string \<Rightarrow> bool" where
  "nsec_name_covered nsecs qname =
     list_ex (\<lambda>r. case nsec_next (rr_parsed r) of
         Some next_domain \<Rightarrow>
           nsec_covers_name (labels_to_string (rr_name r)) (labels_to_string next_domain) qname
       | None \<Rightarrow> False) nsecs"

definition nsec_wildcard_denied :: "resource_record list \<Rightarrow> string \<Rightarrow> bool" where
  "nsec_wildcard_denied nsecs qname =
     (case closest_encloser qname nsecs of
        Some ce \<Rightarrow>
          let wildcard = ''*.'' @ ce in
          list_ex (\<lambda>r. case nsec_next (rr_parsed r) of
              Some next_domain \<Rightarrow>
                nsec_covers_name (labels_to_string (rr_name r)) (labels_to_string next_domain) wildcard \<or>
                eq_ignore_ascii_case (labels_to_string (rr_name r)) wildcard
            | None \<Rightarrow> False) nsecs
      | None \<Rightarrow> True)"

definition nsec_nodata_proven :: "resource_record list \<Rightarrow> string \<Rightarrow> u16 \<Rightarrow> bool" where
  "nsec_nodata_proven nsecs qname qtype =
     list_ex (\<lambda>r. case nsec_bitmap (rr_parsed r) of
         Some type_bit_maps \<Rightarrow>
           nsec_proves_nodata (labels_to_string (rr_name r)) qname type_bit_maps qtype
       | None \<Rightarrow> False) nsecs"

fun nsec3_nxdomain_loop ::
  "crypto \<Rightarrow> (bytes \<times> resource_record) list \<Rightarrow> string list \<Rightarrow> bytes option list \<Rightarrow> nat list \<Rightarrow> bool" where
  "nsec3_nxdomain_loop C decoded labels ancestor_hashes [] = False"
| "nsec3_nxdomain_loop C decoded labels ancestor_hashes (i # is) =
     (let continue = nsec3_nxdomain_loop C decoded labels ancestor_hashes is in
      case ancestor_hashes ! i of
        None \<Rightarrow> continue
      | Some ce_hash \<Rightarrow>
          if \<not> list_ex (\<lambda>(oh, r). oh = ce_hash) decoded then continue
          else case ancestor_hashes ! (i - 1) of
                 None \<Rightarrow> continue
               | Some nc_hash \<Rightarrow>
                   if \<not> nsec3_any_covers decoded nc_hash then continue
                   else case nsec3_hash C (''*.'' @ join_with ''.'' (drop i labels)) 1 0 [] of
                          None \<Rightarrow> continue
                        | Some wc_hash \<Rightarrow> if nsec3_any_covers decoded wc_hash then True else continue)"

definition denial_by_nsec3 ::
  "crypto \<Rightarrow> resource_record list \<Rightarrow> string \<Rightarrow> u16 \<Rightarrow> bool \<Rightarrow> dnssec_status" where
  "denial_by_nsec3 C nsec3s qname qtype is_nxdomain =
     (case nsec3_hash C qname 1 0 [] of
        None \<Rightarrow> Indeterminate
      | Some qname_hash \<Rightarrow>
          let decoded = List.map_filter (\<lambda>r.
                if is_nsec r
                then (case nsec3_owner_hash (labels_to_string (rr_name r)) of
                        Some h \<Rightarrow> Some (h, r) | None \<Rightarrow> None)
                else None) nsec3s in
          if is_nxdomain then
            let labels = name_parts qname;
                ancestor_hashes = map (\<lambda>i. nsec3_hash C (join_with ''.'' (drop i labels)) 1 0 []) [0..<length labels]
            in if nsec3_nxdomain_loop C decoded labels ancestor_hashes [1..<length labels] then Secure else Bogus
          else if list_ex (\<lambda>(oh, r). case nsec_bitmap (rr_parsed r) of
                    Some type_bit_maps \<Rightarrow>
                      oh = qname_hash \<and> \<not> type_bitmap_contains type_bit_maps qtype \<and>
                      \<not> type_bitmap_contains type_bit_maps 5
                  | None \<Rightarrow> False) decoded
          then Secure else Bogus)"

definition validate_denial ::
  "crypto \<Rightarrow> 'c cache_store \<Rightarrow> (nat \<Rightarrow> nat \<Rightarrow> nat) \<Rightarrow> (nat \<Rightarrow> nat) \<Rightarrow> resource_record list \<Rightarrow>
     resource_record list \<Rightarrow> string \<Rightarrow> u16 \<Rightarrow> bool \<Rightarrow> 'c dns_cache \<Rightarrow> dnssec_status \<times> 'c dns_cache" where
  "validate_denial C L clocks now authorities all_rrsigs qname qtype is_nxdomain c =
     (let nsecs = filter is_nsec authorities in
      if nsecs \<noteq> [] then
        (let (ok, c) = verify_authority_rrsigs C L clocks now authorities all_rrsigs 47 c in
         if \<not> ok then (Indeterminate, c)
         else if is_nxdomain \<and> nsec_name_covered nsecs qname \<and> nsec_wildcard_denied nsecs qname
         then (Secure, c)
         else if \<not> is_nxdomain \<and> nsec_nodata_proven nsecs qname qtype then (Secure, c)
         else (Bogus, c))
      else
        (let nsec3s = filter is_nsec authorities in
         if nsec3s \<noteq> [] then
           (let (ok, c) = verify_authority_rrsigs C L clocks now authorities all_rrsigs 50 c in
            if \<not> ok then (Indeterminate, c)
            else if is_nsec (hd nsec3s) then (denial_by_nsec3 C nsec3s qname qtype is_nxdomain, c)
            else (Indeterminate, c))
         else (Indeterminate, c)))"

section \<open>Bitmaps against their specification\<close>

text \<open>The wire form of a list of windows, and the types it lists (RFC 4034, section 4.1.2).\<close>

definition bitmap_wire :: "(u8 \<times> bytes) list \<Rightarrow> bytes" where
  "bitmap_wire ws = concat (map (\<lambda>(w, bs). w # of_nat (length bs) # bs) ws)"

definition bitmap_lists :: "(u8 \<times> bytes) list \<Rightarrow> nat \<Rightarrow> bool" where
  "bitmap_lists ws n = list_ex (\<lambda>(w, bs). unat w = n div 256 \<and> n mod 256 div 8 < length bs \<and>
     bit (bs ! (n mod 256 div 8)) (7 - n mod 8)) ws"

lemma mask_bit: "k < 8 \<Longrightarrow> (b :: u8) AND drop_bit k 0x80 = 0 \<longleftrightarrow> \<not> bit b (7 - k)"
proof -
  assume "k < 8"
  then have "k \<in> {0, 1, 2, 3, 4, 5, 6, 7}" by auto
  then have "drop_bit k (0x80 :: u8) = 2 ^ (7 - k)" by (auto simp: drop_bit_eq_div)
  then show ?thesis by (simp only: and_exp_eq_0_iff_not_bit)
qed

lemma window_split:
  "unat (ucast (t div 256 :: u16) :: u8) = unat t div 256"
  "unat ((ucast (t mod 256 :: u16) :: u8) div 8) = unat t mod 256 div 8"
  "unat ((ucast (t mod 256 :: u16) :: u8) mod 8) = unat t mod 8"
proof -
  have d: "unat (t div 256) = unat t div 256" "unat (t mod 256) = unat t mod 256"
    by (simp_all add: unat_div unat_mod)
  have lt: "unat t div 256 < 256" using unat_u16_less [of t] by linarith
  have u: "unat (ucast w :: u8) = unat w" if "unat w < 256" for w :: u16
    using that by (simp add: unsigned_ucast_eq take_bit_nat_eq_self)
  show "unat (ucast (t div 256 :: u16) :: u8) = unat t div 256" using u [of "t div 256"] d lt by simp
  have m: "unat (ucast (t mod 256 :: u16) :: u8) = unat t mod 256" using u [of "t mod 256"] d by simp
  show "unat ((ucast (t mod 256 :: u16) :: u8) div 8) = unat t mod 256 div 8"
    using m by (simp add: unat_div)
  show "unat ((ucast (t mod 256 :: u16) :: u8) mod 8) = unat t mod 8"
    using m by (simp add: unat_mod mod_mod_cancel)
qed

lemma bitmap_loop_wire:
  assumes "distinct (map fst ws)" "list_all (\<lambda>(w, bs). length bs < 256) ws" "k < 8"
  shows "bitmap_loop w off (drop_bit k 0x80) (bitmap_wire ws) \<longleftrightarrow>
     list_ex (\<lambda>(w', bs). w' = w \<and> off < length bs \<and> bit (bs ! off) (7 - k)) ws"
  using assms(1,2)
proof (induction ws)
  case Nil
  then show ?case by (simp add: bitmap_wire_def)
next
  case (Cons p ws)
  obtain w' bs where p: "p = (w', bs)" by fastforce
  have split: "bitmap_wire ((w', bs) # ws) = w' # of_nat (length bs) # bs @ bitmap_wire ws"
    by (simp add: bitmap_wire_def)
  have len: "unat (of_nat (length bs) :: u8) = length bs" using Cons.prems(2) p by simp
  show ?case
  proof (cases "w' = w \<and> off < length bs")
    case True
    then have "\<not> list_ex (\<lambda>(w', bs). w' = w \<and> off < length bs \<and> bit (bs ! off) (7 - k)) ws"
      using Cons.prems(1) p by (force simp: list_ex_iff)
    moreover have "bitmap_loop w off (drop_bit k 0x80) (bitmap_wire (p # ws)) \<longleftrightarrow> bit (bs ! off) (7 - k)"
      unfolding p split using True len mask_bit [OF assms(3), of "bs ! off"] by (simp add: nth_append)
    ultimately show ?thesis using True p by simp
  next
    case False
    then have "bitmap_loop w off (drop_bit k 0x80) (bitmap_wire (p # ws)) \<longleftrightarrow>
        bitmap_loop w off (drop_bit k 0x80) (bitmap_wire ws)"
      unfolding p split using len by auto
    with Cons False p show ?thesis by auto
  qed
qed

section \<open>The order of names\<close>

text \<open>Names in the canonical order: labels from the right, in lower case.\<close>

definition canon_key :: "string \<Rightarrow> bytes list" where
  "canon_key s = map lower_bytes (rev (name_parts s))"

lemma cmp_of_simps:
  "cmp_of x y = Cmp_Less \<longleftrightarrow> x < y" "cmp_of x y = Cmp_Equal \<longleftrightarrow> x = y" "cmp_of x y = Cmp_Greater \<longleftrightarrow> y < x"
  by (auto simp: cmp_of_def)

lemma cmp_zip_lex:
  "(case cmp_zip as bs of Some r \<Rightarrow> r | None \<Rightarrow> cmp_of (length as) (length bs)) =
     cmp_of (map lower_bytes as) (map lower_bytes bs)"
proof (induction as bs rule: cmp_zip.induct)
  case (1 la as lb bs)
  show ?case
  proof (cases "lower_bytes la = lower_bytes lb")
    case True
    then have "cmp_of (map lower_bytes (la # as)) (map lower_bytes (lb # bs)) =
        cmp_of (map lower_bytes as) (map lower_bytes bs)"
      by (simp add: cmp_of_def)
    moreover have "cmp_of (length (la # as)) (length (lb # bs)) = cmp_of (length as) (length bs)"
      by (simp add: cmp_of_def)
    moreover have "cmp_of (lower_bytes la) (lower_bytes lb) = Cmp_Equal" using True by (simp add: cmp_of_def)
    ultimately show ?thesis using 1 by (simp split: option.splits)
  next
    case False
    then show ?thesis by (auto simp: cmp_of_def)
  qed
qed (auto simp: cmp_of_def neq_Nil_conv)

lemma canonical_order_key: "canonical_dns_name_order a b = cmp_of (canon_key a) (canon_key b)"
  using cmp_zip_lex [of "rev (name_parts a)" "rev (name_parts b)"]
  by (simp add: canonical_dns_name_order_def canon_key_def split: option.splits)

lemma nsec_covers_key:
  "nsec_covers_name owner nxt q \<longleftrightarrow>
     (if canon_key owner < canon_key nxt
      then canon_key owner < canon_key q \<and> canon_key q < canon_key nxt
      else canon_key owner < canon_key q \<or> canon_key q < canon_key nxt)"
  by (auto simp: nsec_covers_name_def canonical_order_key cmp_of_simps Let_def)

section \<open>Base32hex\<close>

definition b32_digit :: "u8 \<Rightarrow> bool" where
  "b32_digit ch \<longleftrightarrow> (48 \<le> ch \<and> ch \<le> 57) \<or> (65 \<le> ch \<and> ch \<le> 86) \<or> (97 \<le> ch \<and> ch \<le> 118)"

definition digits_value :: "nat \<Rightarrow> bytes \<Rightarrow> nat" where
  "digits_value n chs = foldl (\<lambda>n ch. 32 * n + unat (b32_value ch)) n chs"

lemma b32_digit_value:
  assumes "b32_digit ch"
  shows "unat (b32_value ch) < 32" "b32_value ch \<noteq> 0xff" "ch \<noteq> 61" "\<not> ch \<ge> 128"
proof -
  show "unat (b32_value ch) < 32"
    using assms unat_sub [of 48 ch] unat_sub [of 55 ch] unat_sub [of 87 ch]
    by (auto simp: b32_digit_def b32_value_def word_le_nat_alt)
  then show "b32_value ch \<noteq> 0xff" by auto
  show "ch \<noteq> 61" "\<not> ch \<ge> 128" using assms by (auto simp: b32_digit_def word_le_nat_alt)
qed

lemma be_value_snoc: "be_value (bs @ [b]) = 256 * be_value bs + unat b"
  by (simp add: be_value_def)

lemma unat_u64_shift5:
  assumes "unat (bits :: u64) < 128" "unat (v :: u8) < 32"
  shows "unat (push_bit 5 bits OR ucast v) = 32 * unat bits + unat v"
proof -
  have "push_bit 5 bits AND ucast v = 0"
  proof (rule bit_word_eqI)
    fix n
    have "\<not> bit v n" if "5 \<le> n"
    proof -
      have "v = take_bit 5 v" using assms(2) by (simp add: take_bit_eq_mod unat_mod word_unat_eq_iff)
      then show ?thesis using that by (metis bit_take_bit_iff not_less)
    qed
    then show "bit (push_bit 5 bits AND ucast v) n = bit (0 :: u64) n"
      by (auto simp: bit_and_iff bit_push_bit_iff bit_ucast_iff)
  qed
  then have "push_bit 5 bits OR ucast v = push_bit 5 bits + ucast v"
    by (simp add: disjunctive_add_eq_or)
  moreover have "unat (push_bit 5 bits) = 32 * unat bits" "unat (ucast v :: u64) = unat v"
    using assms unat_u8_le [of v]
    by (simp_all only: unsigned_push_bit_eq unsigned_ucast_eq) (simp_all add: push_bit_eq_mult take_bit_eq_mod)
  ultimately show ?thesis using assms by (simp add: unat_word_ariths)
qed

lemma unat_u64_low: "c < 64 \<Longrightarrow> unat (bits AND (push_bit c 1 - 1) :: u64) = unat bits mod 2 ^ c"
proof -
  assume "c < 64"
  have "push_bit c 1 - 1 = (mask c :: u64)" by (simp add: mask_eq_exp_minus_1 push_bit_eq_mult)
  then have "bits AND (push_bit c 1 - 1) = take_bit c bits" by (simp only: take_bit_eq_mask)
  then show ?thesis by (simp only: unsigned_take_bit_eq) (simp add: take_bit_eq_mod)
qed

lemma unat_u64_high:
  "unat bits div 2 ^ c < 256 \<Longrightarrow> unat (ucast (drop_bit c bits :: u64) :: u8) = unat bits div 2 ^ c"
proof -
  assume "unat bits div 2 ^ c < 256"
  moreover have "unat bits mod 2 ^ 64 = unat bits"
    using unsigned_less [of bits, where ?'a = nat] by simp
  ultimately show ?thesis
    by (simp only: unsigned_ucast_eq unsigned_drop_bit_eq) (simp add: drop_bit_eq_div take_bit_eq_mod)
qed

lemma b32_loop_value:
  assumes "list_all b32_digit chs" "cnt < 8" "unat bits < 2 ^ cnt"
  shows "\<exists>out'. b32_loop bits cnt out chs = Some out' \<and>
     length out' = length out + (cnt + 5 * length chs) div 8 \<and>
     be_value out' = digits_value (be_value out * 2 ^ cnt + unat bits) chs div
       2 ^ ((cnt + 5 * length chs) mod 8)"
  using assms
proof (induction chs arbitrary: bits cnt out)
  case Nil
  then show ?case by (simp add: digits_value_def)
next
  case (Cons ch chs)
  note v = b32_digit_value [of ch]
  have ch: "b32_digit ch" using Cons.prems(1) by simp
  define acc where "acc = be_value out * 2 ^ cnt + unat bits"
  define bits' :: u64 where "bits' = push_bit 5 bits OR ucast (b32_value ch)"
  have "(2 :: nat) ^ cnt \<le> 2 ^ 7" using Cons.prems(2) by (intro power_increasing) simp_all
  then have bits': "unat bits' = 32 * unat bits + unat (b32_value ch)"
    unfolding bits'_def using Cons.prems(3) v(1) [OF ch] by (intro unat_u64_shift5) simp_all
  have val: "digits_value acc (ch # chs) = digits_value (32 * acc + unat (b32_value ch)) chs"
    by (simp add: digits_value_def)
  have small: "unat bits' < 2 ^ (cnt + 5)"
  proof -
    have "unat bits + 1 \<le> 2 ^ cnt" using Cons.prems(3) by simp
    then have "32 * (unat bits + 1) \<le> 2 ^ (cnt + 5)" by (simp add: power_add)
    with bits' v(1) [OF ch] show ?thesis by simp
  qed
  show ?case
  proof (cases "8 \<le> cnt + 5")
    case True
    define c where "c = cnt + 5 - 8"
    have c: "c < 8" "cnt + 5 = c + 8" using True Cons.prems(2) by (auto simp: c_def)
    let ?b = "ucast (drop_bit c bits') :: u8"
    have hi: "unat ?b = unat bits' div 2 ^ c"
      using small by (intro unat_u64_high) (simp add: c(2) power_add less_mult_imp_div_less mult.commute)
    have lo: "unat (bits' AND (push_bit c 1 - 1)) = unat bits' mod 2 ^ c" using c(1) by (intro unat_u64_low) simp
    have "be_value (out @ [?b]) * 2 ^ c + unat (bits' AND (push_bit c 1 - 1)) = be_value out * 2 ^ (c + 8) + unat bits'"
      unfolding be_value_snoc hi lo by (simp add: power_add algebra_simps) 
    also have "\<dots> = 32 * acc + unat (b32_value ch)"
      using bits' c(2) by (simp add: acc_def algebra_simps flip: c(2)) (simp add: power_add)
    finally have acc': "be_value (out @ [?b]) * 2 ^ c + unat (bits' AND (push_bit c 1 - 1)) = 32 * acc + unat (b32_value ch)" .
    have step: "b32_loop bits cnt out (ch # chs) = b32_loop (bits' AND (push_bit c 1 - 1)) c (out @ [?b]) chs"
      using v [OF ch] True by (simp add: bits'_def c_def Let_def)
    have "cnt + 5 * length (ch # chs) = 8 + (c + 5 * length chs)" using c(2) by simp
    then have "(cnt + 5 * length (ch # chs)) div 8 = 1 + (c + 5 * length chs) div 8"
      "(cnt + 5 * length (ch # chs)) mod 8 = (c + 5 * length chs) mod 8" by simp_all
    with Cons.IH [of c "bits' AND (push_bit c 1 - 1)" "out @ [?b]"] Cons.prems(1) c(1) lo show ?thesis
      unfolding step acc' val acc_def [symmetric] by simp
  next
    case False
    have step: "b32_loop bits cnt out (ch # chs) = b32_loop bits' (cnt + 5) out chs"
      using v [OF ch] False by (simp add: bits'_def Let_def)
    have "be_value out * 2 ^ (cnt + 5) + unat bits' = 32 * acc + unat (b32_value ch)"
      by (simp add: acc_def bits' power_add algebra_simps)
    moreover have "cnt + 5 * length (ch # chs) = cnt + 5 + 5 * length chs" by simp
    ultimately show ?thesis
      using Cons.IH [of "cnt + 5" bits' out] Cons.prems(1) False small
      unfolding step val acc_def [symmetric] by (simp add: add.assoc)
  qed
qed

section \<open>Cached keys are not parsed\<close>

context cache_lru
begin

lemma lookup_unparsed:
  assumes "cache_inv L ok t c" "cache_lookup L clock name rtype rclass c = (Some (recs, m), c')"
  shows "\<forall>r \<in> set recs. rr_parsed r = None"
proof
  fix r assume r: "r \<in> set recs"
  have okc: "ok (c_entries c)" and st: "store_ok L ok t (c_entries c)"
    using assms(1) by (auto simp: cache_inv_def store_ok_def)
  obtain vec where vec: "lru_look L (c_entries c) (name, rtype, rclass) = Some vec"
    "fst (drain_entries clock 0 vec) \<noteq> []"
    and recs: "recs = fst (fresh_records clock (length vec) 0xffffffff (fst (drain_entries clock 0 vec)))"
    using lookup_Some [OF okc assms(2)] by metis
  let ?fresh = "fst (drain_entries clock 0 vec)"
  have vok: "vec_ok t (name, rtype, rclass) ?fresh"
    using vec_ok_subseq [OF store_ok_look [OF st vec(1)] drain_entries_fresh_subseq vec(2)] .
  obtain j where j: "j < length ?fresh"
      "r = (ce_record (?fresh ! j))\<lparr>rr_ttl := ttl_remaining (clock (length vec + j)) (?fresh ! j)\<rparr>"
    using r recs fresh_record_from by blast
  then show "rr_parsed r = None"
    using vok nth_mem [OF j(1)] by (auto simp: vec_ok_def entry_ok_def)
qed

lemma verify_groups_fails:
  assumes "cache_inv L ok t c" "groups \<noteq> []"
  shows "\<not> fst (verify_groups C L clocks now all_rrsigs g groups c)"
proof -
  obtain name qtype rrset rest where groups: "groups = (name, qtype, rrset) # rest"
    using assms(2) by (metis list.exhaust prod_cases3)
  show ?thesis
  proof (cases "find (\<lambda>r. covers_rrset name qtype (rr_parsed r)) all_rrsigs")
    case (Some rrsig)
    then have "covers_rrset name qtype (rr_parsed rrsig)" by (auto simp: find_Some_iff)
    then obtain tc a lb ttl e i kt sn sg where p: "rr_parsed rrsig = Some (RD_RRSIG tc a lb ttl e i kt sn sg)"
      by (cases "(name, qtype, rr_parsed rrsig)" rule: covers_rrset.cases) auto
    have "\<not> list_ex (key_verifies C a kt (build_signed_data rrsig rrset) sg) keys"
      if "cache_lookup L (clocks g) sn 48 1 c = (Some (keys, m), c')" for keys m c'
      using lookup_unparsed [OF assms(1) that] by (auto simp: list_ex_iff key_verifies_def)
    with Some p groups show ?thesis by (auto split: prod.split option.split)
  qed (simp add: groups)
qed

lemma verify_authority_fails:
  "cache_inv L ok t c \<Longrightarrow> \<not> fst (verify_authority_rrsigs C L clocks now authorities rrsigs ty c)"
  using verify_groups_fails by (fastforce simp: verify_authority_rrsigs_def Let_def case_prod_unfold)

lemma denial_indeterminate:
  "cache_inv L ok t c \<Longrightarrow>
     fst (validate_denial C L clocks now authorities rrsigs qname qtype nx c) = Indeterminate"
  using verify_authority_fails by (simp add: validate_denial_def Let_def case_prod_unfold)

end

section \<open>Properties\<close>

text \<open>
  C33. Looking a type up in a well-formed bitmap finds it exactly when its bit is set in its window.
\<close>

theorem type_bitmap_lookup:
  assumes "distinct (map fst ws)" "list_all (\<lambda>(w, bs). length bs < 256) ws"
  shows "type_bitmap_contains (bitmap_wire ws) qtype \<longleftrightarrow> bitmap_lists ws (unat qtype)"
proof -
  have "unat qtype mod 8 < 8" by simp
  note loop = bitmap_loop_wire [OF assms this]
  have win: "w' = ucast (qtype div 256) \<longleftrightarrow> unat w' = unat qtype div 256" for w' :: u8
    using window_split(1) [of qtype] by (metis word_unat_eq_iff)
  show ?thesis
    unfolding type_bitmap_contains_def Let_def window_split(2,3) loop bitmap_lists_def win ..
qed

theorem type_bitmap_lookup_witness:
  "type_bitmap_contains (bitmap_wire [(0, [0x40, 0x01])]) 1 \<and>
   \<not> type_bitmap_contains (bitmap_wire [(0, [0x40, 0x01])]) 28"
  using type_bitmap_lookup [of "[(0, [0x40, 0x01])]" 1] type_bitmap_lookup [of "[(0, [0x40, 0x01])]" 28]
  by (simp add: bitmap_lists_def bit_iff_odd)

text \<open>
  C32. The canonical order of names is the lexicographic order of their lower-case labels from the
  right; an NSEC record covers exactly the names strictly between its owner and its next name in
  that order, round the end of the zone when the next name is not behind the owner, and so never its
  own owner or next name.
\<close>

theorem nsec_covers_gap:
  "canonical_dns_name_order a b = cmp_of (canon_key a) (canon_key b) \<and>
   (nsec_covers_name owner nxt q \<longleftrightarrow>
     (if canon_key owner < canon_key nxt
      then canon_key owner < canon_key q \<and> canon_key q < canon_key nxt
      else canon_key owner < canon_key q \<or> canon_key q < canon_key nxt)) \<and>
   \<not> nsec_covers_name owner nxt owner \<and> \<not> nsec_covers_name owner nxt nxt"
  by (auto simp: canonical_order_key nsec_covers_key)

text \<open>
  Decoding \<open>n\<close> base32hex digits gives the first \<open>5 n div 8\<close> bytes of the number they denote.
\<close>

theorem base32hex_decode_value:
  assumes "list_all b32_digit (as_bytes digits)"
  shows "\<exists>out. base32hex_decode digits = Some out \<and> length out = 5 * length digits div 8 \<and>
     be_value out = digits_value 0 (as_bytes digits) div 2 ^ (5 * length digits mod 8)"
  using b32_loop_value [OF assms, of 0 0 "[]"]
  by (auto simp: base32hex_decode_def be_value_def as_bytes_def)

theorem base32hex_decode_value_witness:
  "\<exists>out. base32hex_decode ''0p9mhav'' = Some out \<and> length out = 4 \<and>
     be_value out = digits_value 0 (as_bytes ''0p9mhav'') div 8"
  using base32hex_decode_value [of "''0p9mhav''"] by (simp add: b32_digit_def as_bytes_def)

text \<open>
  Denial of existence is never proven: the keys the NSEC signatures are checked with come from
  the cache, which stores records without their parsed form, so in every state of a cache the
  result is indeterminate.
\<close>

theorem denial_never_decided:
  assumes "cache_lru L cap ok" "cache_run L n t c"
  shows "fst (validate_denial C L clocks now authorities all_rrsigs qname qtype is_nxdomain c) = Indeterminate"
  using cache_lru.denial_indeterminate [OF assms(1)] cache_lru.run_inv [OF assms] by blast

definition accept_all :: crypto where
  "accept_all = \<lparr>c_rsa_pkcs1_sha256 = \<lambda>n e m s. True, c_p256_der = \<lambda>k m s. True,
      c_p256_fixed = \<lambda>k m s. True, c_p384_der = \<lambda>k m s. True, c_p384_fixed = \<lambda>k m s. True,
      c_ed25519 = \<lambda>k m s. True, c_sha1 = id, c_sha256 = id, c_sha384 = id\<rparr>"

definition example_nsec :: resource_record where
  "example_nsec =
     \<lparr>rr_name = [1, 97, 0], rr_type = 47, rr_class = 1, rr_ttl = 60, rr_rdlength = 3, rr_rdata = [1, 99, 0],
      rr_parsed = Some (RD_NSEC [1, 99, 0] [])\<rparr>"

theorem denial_never_decided_witness:
  "fst (validate_denial accept_all list_lru (\<lambda>g i. 9) (\<lambda>g. 1700000000) [example_nsec]
      [example_rrsig] ''b'' 1 True example_cache) = Indeterminate"
  by (rule denial_never_decided [OF list_cache_lru example_cache_run])

end
