(* ===== verification/Actions.thy ===== *)
theory Actions
  imports Dns_Data
begin

text \<open>
  State-passing actions: the asynchronous methods of the sources that read and change shared state.
  An action maps a state to an outcome and the new state; \<open>act_bind\<close> is sequencing with the \<open>?\<close>
  operator, \<open>act_try\<close> gives the outcome of an action as a value, for the places where the sources
  match on it.  A panic or a loop that does not end is passed on by both.

  \<open>yields P m Q\<close> is the contract of an action: from a state where \<open>P\<close> holds, if it returns a value,
  then \<open>P\<close> holds again and \<open>Q\<close> holds of the value.
\<close>

section \<open>Sequencing\<close>

type_synonym ('s, 'r) act = "'s \<Rightarrow> 'r dns_result \<times> 's"

definition act_return :: "'r \<Rightarrow> ('s, 'r) act" where
  "act_return x s = (Ok x, s)"

definition act_bind :: "('s, 'r) act \<Rightarrow> ('r \<Rightarrow> ('s, 'q) act) \<Rightarrow> ('s, 'q) act" where
  "act_bind m f s =
     (case m s of
        (Ok x, s) \<Rightarrow> f x s
      | (Err e, s) \<Rightarrow> (Err e, s)
      | (Panic, s) \<Rightarrow> (Panic, s)
      | (Diverge, s) \<Rightarrow> (Diverge, s))"

definition act_lift :: "'r dns_result \<Rightarrow> ('s, 'r) act" where
  "act_lift r s = (r, s)"

definition act_modify :: "('s \<Rightarrow> 'r \<times> 's) \<Rightarrow> ('s, 'r) act" where
  "act_modify f s = (let (x, s) = f s in (Ok x, s))"

text \<open>\<open>match result { Ok(x) => .., Err(e) => .. }\<close>.\<close>

definition act_try :: "('s, 'r) act \<Rightarrow> ('s, dns_error + 'r) act" where
  "act_try m s =
     (case m s of
        (Ok x, s) \<Rightarrow> (Ok (Inr x), s)
      | (Err e, s) \<Rightarrow> (Ok (Inl e), s)
      | (Panic, s) \<Rightarrow> (Panic, s)
      | (Diverge, s) \<Rightarrow> (Diverge, s))"

text \<open>\<open>result.ok()\<close>: an error becomes nothing.\<close>

fun ok_of :: "'r dns_result \<Rightarrow> 'r option dns_result" where
  "ok_of (Ok x) = Ok (Some x)"
| "ok_of (Err e) = Ok None"
| "ok_of Panic = Panic"
| "ok_of Diverge = Diverge"

lemma act_bind_Ok:
  "act_bind m f s = (Ok x, s') \<longleftrightarrow> (\<exists>y s1. m s = (Ok y, s1) \<and> f y s1 = (Ok x, s'))"
  by (auto simp: act_bind_def split: prod.splits outcome.splits)

lemma act_bind_eq: "m s = (Ok y, s1) \<Longrightarrow> act_bind m f s = f y s1"
  by (simp add: act_bind_def)

lemma act_return_Ok: "act_return x s = (Ok y, s') \<longleftrightarrow> y = x \<and> s' = s"
  by (auto simp: act_return_def)

lemma act_try_Ok:
  "act_try m s = (Ok r, s') \<longleftrightarrow>
     (\<exists>x. r = Inr x \<and> m s = (Ok x, s')) \<or> (\<exists>e. r = Inl e \<and> m s = (Err e, s'))"
  by (auto simp: act_try_def split: prod.splits outcome.splits)

lemma act_bind_return [simp]: "act_bind (act_return x) f = f x"
  by (simp add: fun_eq_iff act_bind_def act_return_def)

lemma act_bind_assoc: "act_bind (act_bind m f) g = act_bind m (\<lambda>x. act_bind (f x) g)"
  by (auto simp: fun_eq_iff act_bind_def split: prod.split outcome.split)

section \<open>Contracts\<close>

definition yields :: "('s \<Rightarrow> bool) \<Rightarrow> ('s, 'r) act \<Rightarrow> ('r \<Rightarrow> bool) \<Rightarrow> bool" where
  "yields P m Q \<longleftrightarrow> (\<forall>s r s'. P s \<longrightarrow> m s = (Ok r, s') \<longrightarrow> P s' \<and> Q r)"

lemma yieldsI: "(\<And>s r s'. P s \<Longrightarrow> m s = (Ok r, s') \<Longrightarrow> P s' \<and> Q r) \<Longrightarrow> yields P m Q"
  by (auto simp: yields_def)

lemma yieldsD: "yields P m Q \<Longrightarrow> P s \<Longrightarrow> m s = (Ok r, s') \<Longrightarrow> P s' \<and> Q r"
  by (auto simp: yields_def)

lemma yields_bind: "yields P m R \<Longrightarrow> (\<And>x. R x \<Longrightarrow> yields P (f x) Q) \<Longrightarrow> yields P (act_bind m f) Q"
  unfolding yields_def act_bind_Ok by metis

lemma yields_return: "Q x \<Longrightarrow> yields P (act_return x) Q"
  by (simp add: yields_def act_return_Ok)

lemma yields_lift: "(\<And>x. r = Ok x \<Longrightarrow> Q x) \<Longrightarrow> yields P (act_lift r) Q"
  by (simp add: yields_def act_lift_def)

lemma yields_mono: "yields P m R \<Longrightarrow> (\<And>x. R x \<Longrightarrow> Q x) \<Longrightarrow> yields P m Q"
  by (auto simp: yields_def)

section \<open>Actions that always return\<close>

definition ends_ok :: "('s, 'r) act \<Rightarrow> bool" where
  "ends_ok m \<longleftrightarrow> (\<forall>s. \<exists>r s'. m s = (Ok r, s'))"

lemma ends_ok_bind: "ends_ok m \<Longrightarrow> (\<And>x. ends_ok (f x)) \<Longrightarrow> ends_ok (act_bind m f)"
  unfolding ends_ok_def by (metis act_bind_eq)

lemma ends_ok_return [simp]: "ends_ok (act_return x)"
  by (simp add: ends_ok_def act_return_def)

lemma ends_ok_modify [simp]: "ends_ok (act_modify f)"
  by (simp add: ends_ok_def act_modify_def case_prod_unfold Let_def)

section \<open>Actions that keep an invariant\<close>

named_theorems keeps

definition preserves :: "('s \<Rightarrow> bool) \<Rightarrow> ('s, 'r) act \<Rightarrow> bool" where
  "preserves P m \<longleftrightarrow> (\<forall>s. P s \<longrightarrow> P (snd (m s)))"

lemma preservesD: "preserves P m \<Longrightarrow> P s \<Longrightarrow> m s = (r, s') \<Longrightarrow> P s'"
  by (auto simp: preserves_def dest: spec [of _ s])

lemma preserves_bind [keeps]: "preserves P m \<Longrightarrow> (\<And>x. preserves P (f x)) \<Longrightarrow> preserves P (act_bind m f)"
proof (unfold preserves_def, intro allI impI)
  fix s assume m: "\<forall>s. P s \<longrightarrow> P (snd (m s))" and f: "\<And>x. \<forall>s. P s \<longrightarrow> P (snd (f x s))" and "P s"
  then have "P (snd (m s))" by blast
  with f show "P (snd (act_bind m f s))"
    by (cases "m s"; cases "fst (m s)") (auto simp: act_bind_def)
qed

lemma preserves_return [keeps]: "preserves P (act_return x)"
  by (simp add: preserves_def act_return_def)

lemma preserves_lift [keeps]: "preserves P (act_lift r)"
  by (simp add: preserves_def act_lift_def)

lemma preserves_try [keeps]: "preserves P m \<Longrightarrow> preserves P (act_try m)"
  unfolding preserves_def act_try_def by (simp add: case_prod_unfold split: outcome.split)

lemma preserves_modify: "(\<And>s. P s \<Longrightarrow> P (snd (f s))) \<Longrightarrow> preserves P (act_modify f)"
  by (simp add: preserves_def act_modify_def case_prod_unfold Let_def)

lemma preserves_if [keeps]: "preserves P m \<Longrightarrow> preserves P m' \<Longrightarrow> preserves P (if b then m else m')"
  by simp

lemma preserves_option [keeps]:
  "preserves P m \<Longrightarrow> (\<And>x. preserves P (f x)) \<Longrightarrow> preserves P (case v of None \<Rightarrow> m | Some x \<Rightarrow> f x)"
  by (simp split: option.split)

lemma preserves_prod [keeps]: "(\<And>x y. preserves P (f x y)) \<Longrightarrow> preserves P (case v of (x, y) \<Rightarrow> f x y)"
  by (simp split: prod.split)

lemma preserves_sum [keeps]:
  "(\<And>x. preserves P (f x)) \<Longrightarrow> (\<And>x. preserves P (g x)) \<Longrightarrow> preserves P (case v of Inl x \<Rightarrow> f x | Inr x \<Rightarrow> g x)"
  by (simp split: sum.split)

lemma preserves_list [keeps]:
  "preserves P m \<Longrightarrow> (\<And>x xs. preserves P (f x xs)) \<Longrightarrow> preserves P (case v of [] \<Rightarrow> m | x # xs \<Rightarrow> f x xs)"
  by (simp split: list.split)

section \<open>Actions that end\<close>

definition halts :: "('s, 'r) act \<Rightarrow> bool" where
  "halts m \<longleftrightarrow> (\<forall>s. fst (m s) \<noteq> Diverge)"

named_theorems halting

lemma halts_bind [halting]: "halts m \<Longrightarrow> (\<And>x. halts (f x)) \<Longrightarrow> halts (act_bind m f)"
proof (unfold halts_def, intro allI)
  fix s assume m: "\<forall>s. fst (m s) \<noteq> Diverge" and f: "\<And>x. \<forall>s. fst (f x s) \<noteq> Diverge"
  from m have "fst (m s) \<noteq> Diverge" by blast
  with f show "fst (act_bind m f s) \<noteq> Diverge" by (cases "m s"; cases "fst (m s)") (auto simp: act_bind_def)
qed

lemma halts_return [halting]: "halts (act_return x)"
  by (simp add: halts_def act_return_def)

lemma halts_lift: "r \<noteq> Diverge \<Longrightarrow> halts (act_lift r)"
  by (simp add: halts_def act_lift_def)

lemma halts_error [halting]: "halts (act_lift (Err e))"
  by (simp add: halts_lift)

lemma halts_modify [halting]: "halts (act_modify f)"
  by (simp add: halts_def act_modify_def case_prod_unfold Let_def)

lemma halts_try [halting]: "halts m \<Longrightarrow> halts (act_try m)"
  by (simp add: halts_def act_try_def case_prod_unfold split: outcome.split)

lemma halts_if [halting]: "halts m \<Longrightarrow> halts m' \<Longrightarrow> halts (if b then m else m')"
  by simp

lemma halts_option [halting]: "halts m \<Longrightarrow> (\<And>x. halts (f x)) \<Longrightarrow> halts (case v of None \<Rightarrow> m | Some x \<Rightarrow> f x)"
  by (simp split: option.split)

lemma halts_prod [halting]: "(\<And>x y. halts (f x y)) \<Longrightarrow> halts (case v of (x, y) \<Rightarrow> f x y)"
  by (simp split: prod.split)

lemma halts_sum [halting]:
  "(\<And>x. halts (f x)) \<Longrightarrow> (\<And>x. halts (g x)) \<Longrightarrow> halts (case v of Inl x \<Rightarrow> f x | Inr x \<Rightarrow> g x)"
  by (simp split: sum.split)

lemma halts_list [halting]:
  "halts m \<Longrightarrow> (\<And>x xs. halts (f x xs)) \<Longrightarrow> halts (case v of [] \<Rightarrow> m | x # xs \<Rightarrow> f x xs)"
  by (simp split: list.split)

lemma halts_bindI:
  assumes "halts m" "\<And>x s s'. m s = (Ok x, s') \<Longrightarrow> halts (f x)" shows "halts (act_bind m f)"
proof (unfold halts_def, intro allI)
  fix s
  have "fst (m s) \<noteq> Diverge" using assms(1) by (simp add: halts_def)
  then show "fst (act_bind m f s) \<noteq> Diverge"
    using assms(2) [of s] by (cases "m s"; cases "fst (m s)") (auto simp: act_bind_def halts_def)
qed

section \<open>Actions that fail in known ways\<close>

text \<open>\<open>fails m F\<close>: whenever the action fails, \<open>F\<close> holds of the error.\<close>

definition fails :: "('s, 'r) act \<Rightarrow> (dns_error \<Rightarrow> bool) \<Rightarrow> bool" where
  "fails m F \<longleftrightarrow> (\<forall>s e. fst (m s) = Err e \<longrightarrow> F e)"

named_theorems failing

lemma failsD: "fails m F \<Longrightarrow> m s = (Err e, s') \<Longrightarrow> F e"
  by (metis fails_def fst_conv)

lemma fails_bind [failing]:
  assumes "fails m F" "\<And>x. fails (f x) F" shows "fails (act_bind m f) F"
proof (unfold fails_def, intro allI impI)
  fix s e assume "fst (act_bind m f s) = Err e"
  with assms show "F e" by (cases "m s"; cases "fst (m s)") (auto simp: act_bind_def fails_def dest: spec [of _ s])
qed

lemma fails_return [failing]: "fails (act_return x) F"
  by (simp add: fails_def act_return_def)

lemma fails_lift: "(\<And>e. r = Err e \<Longrightarrow> F e) \<Longrightarrow> fails (act_lift r) F"
  by (simp add: fails_def act_lift_def)

lemma fails_modify [failing]: "fails (act_modify f) F"
  by (simp add: fails_def act_modify_def case_prod_unfold Let_def)

lemma fails_try [failing]: "fails (act_try m) F"
  by (simp add: fails_def act_try_def case_prod_unfold split: outcome.split)

lemma fails_if [failing]: "fails m F \<Longrightarrow> fails m' F \<Longrightarrow> fails (if b then m else m') F"
  by simp

lemma fails_option [failing]:
  "fails m F \<Longrightarrow> (\<And>x. fails (f x) F) \<Longrightarrow> fails (case v of None \<Rightarrow> m | Some x \<Rightarrow> f x) F"
  by (simp split: option.split)

lemma fails_prod [failing]: "(\<And>x y. fails (f x y) F) \<Longrightarrow> fails (case v of (x, y) \<Rightarrow> f x y) F"
  by (simp split: prod.split)

lemma fails_sum [failing]:
  "(\<And>x. fails (f x) F) \<Longrightarrow> (\<And>x. fails (g x) F) \<Longrightarrow> fails (case v of Inl x \<Rightarrow> f x | Inr x \<Rightarrow> g x) F"
  by (simp split: sum.split)

lemma fails_list [failing]:
  "fails m F \<Longrightarrow> (\<And>x xs. fails (f x xs) F) \<Longrightarrow> fails (case v of [] \<Rightarrow> m | x # xs \<Rightarrow> f x xs) F"
  by (simp split: list.split)

lemma fails_bind_try:
  assumes "fails m F" "\<And>x. fails (f (Inr x)) F" "\<And>e. F e \<Longrightarrow> fails (f (Inl e)) F"
  shows "fails (act_bind (act_try m) f) F"
proof (unfold fails_def, intro allI impI)
  fix s e assume e: "fst (act_bind (act_try m) f s) = Err e"
  show "F e"
  proof (cases "m s")
    case (Pair r s')
    then show ?thesis
      using e assms(2) assms(3) failsD [OF assms(1), of s _ s']
      by (cases r) (auto simp: act_bind_def act_try_def fails_def)
  qed
qed

section \<open>Actions that succeed\<close>

text \<open>
  Total correctness: from every state with \<open>P\<close> the action returns a value, and \<open>Q\<close> holds of it and of
  the state it leaves.
\<close>

definition ensures :: "('s \<Rightarrow> bool) \<Rightarrow> ('s, 'r) act \<Rightarrow> ('r \<Rightarrow> 's \<Rightarrow> bool) \<Rightarrow> bool" where
  "ensures P m Q \<longleftrightarrow> (\<forall>s. P s \<longrightarrow> (\<exists>x s'. m s = (Ok x, s') \<and> Q x s'))"

lemma ensuresD: "ensures P m Q \<Longrightarrow> P s \<Longrightarrow> \<exists>x s'. m s = (Ok x, s') \<and> Q x s'"
  by (simp add: ensures_def)

lemma ensures_bind: "ensures P m R \<Longrightarrow> (\<And>x. ensures (R x) (f x) Q) \<Longrightarrow> ensures P (act_bind m f) Q"
  unfolding ensures_def by (metis act_bind_eq)

lemma ensures_return: "(\<And>s. P s \<Longrightarrow> Q x s) \<Longrightarrow> ensures P (act_return x) Q"
  by (simp add: ensures_def act_return_def)

lemma ensures_lift: "r = Ok x \<Longrightarrow> (\<And>s. P s \<Longrightarrow> Q x s) \<Longrightarrow> ensures P (act_lift r) Q"
  by (simp add: ensures_def act_lift_def)

lemma ensures_modify: "(\<And>s. P s \<Longrightarrow> Q (fst (f s)) (snd (f s))) \<Longrightarrow> ensures P (act_modify f) Q"
  by (simp add: ensures_def act_modify_def case_prod_unfold Let_def)

lemma ensures_try: "ensures P m Q \<Longrightarrow> ensures P (act_try m) (\<lambda>r s. \<exists>x. r = Inr x \<and> Q x s)"
  by (fastforce simp: ensures_def act_try_def)

lemma ensures_weaken: "ensures P m Q \<Longrightarrow> (\<And>s. P' s \<Longrightarrow> P s) \<Longrightarrow> (\<And>x s. Q x s \<Longrightarrow> Q' x s) \<Longrightarrow> ensures P' m Q'"
  unfolding ensures_def by blast

lemma ensures_fixed: "(b \<Longrightarrow> ensures P m Q) \<Longrightarrow> ensures (\<lambda>s. b \<and> P s) m Q"
  by (auto simp: ensures_def)

lemma ensures_Some:
  "(\<And>y. ensures (R y) (f y) Q) \<Longrightarrow> ensures (\<lambda>s. \<exists>y. x = Some y \<and> R y s) (case x of None \<Rightarrow> m | Some y \<Rightarrow> f y) Q"
  by (auto simp: ensures_def)

end
