(* ===== verification/Dnssec_Chain.thy ===== *)
theory Dnssec_Chain
  imports Dnssec_Denial Actions
begin

text \<open>
  The chain of trust of \<open>src/src/dnssec/mod.rs\<close>: fetching DNSKEY and DS records through the cache
  and over UDP, the walk from a zone to a trust anchor, and the validation of a response.

  What lies outside the program is a record of operations on a world: the random query identifier,
  one exchange of datagrams with a server (a payload, a failure, or no return at all, since the
  receive has no timeout), and the readings of the two clocks.  An action maps a state (the cache,
  the statistics, the world) to an outcome and the new state.  The Unix time is read once for each
  RRset checked.
\<close>

section \<open>State and world\<close>

record ('a, 'w) dns_env =
  env_random :: "'w \<Rightarrow> u16 \<times> 'w"
  env_exchange :: "bytes \<Rightarrow> 'a \<Rightarrow> 'w \<Rightarrow> bytes option dns_result \<times> 'w"
  env_clocks :: "'w \<Rightarrow> (nat \<Rightarrow> nat \<Rightarrow> nat) \<times> 'w"
  env_unix :: "'w \<Rightarrow> (nat \<Rightarrow> nat) \<times> 'w"

record ('c, 'w) val_state =
  v_cache :: "'c dns_cache"
  v_stats :: validation_stats
  v_world :: 'w

type_synonym ('c, 'w, 'r) action = "(('c, 'w) val_state, 'r) act"

definition act_world :: "('w \<Rightarrow> 'r \<times> 'w) \<Rightarrow> ('c, 'w, 'r) action" where
  "act_world f s = (let (x, w) = f (v_world s) in (Ok x, s\<lparr>v_world := w\<rparr>))"

definition act_cache :: "('c dns_cache \<Rightarrow> 'r \<times> 'c dns_cache) \<Rightarrow> ('c, 'w, 'r) action" where
  "act_cache f s = (let (x, c) = f (v_cache s) in (Ok x, s\<lparr>v_cache := c\<rparr>))"

definition act_stats :: "(validation_stats \<Rightarrow> validation_stats) \<Rightarrow> ('c, 'w, unit) action" where
  "act_stats f s = (Ok (), s\<lparr>v_stats := f (v_stats s)\<rparr>)"

definition act_exchange ::
  "('a, 'w) dns_env \<Rightarrow> bytes \<Rightarrow> 'a \<Rightarrow> ('c, 'w, bytes option) action" where
  "act_exchange E query_bytes server s =
     (let (r, w) = env_exchange E query_bytes server (v_world s) in (r, s\<lparr>v_world := w\<rparr>))"

section \<open>Fetching\<close>

definition udp_query ::
  "('a, 'w) dns_env \<Rightarrow> bytes \<Rightarrow> 'a \<Rightarrow> u16 \<Rightarrow> ('c, 'w, message option) action" where
  "udp_query E query_bytes server expected_id =
     act_bind (act_exchange E query_bytes server) (\<lambda>r.
       case r of
         None \<Rightarrow> act_return None
       | Some datagram \<Rightarrow>
           let buf = take 8192 datagram in
           if length buf \<ge> 2 \<and> be16 (buf ! 0) (buf ! 1) = expected_id
           then act_lift (ok_of (decode_message buf))
           else act_return None)"

definition query_message :: "bytes \<Rightarrow> u16 \<Rightarrow> u16 \<Rightarrow> u16 \<Rightarrow> message" where
  "query_message encoded rtype rclass i =
     \<lparr>m_header = new_query i False,
      m_questions = [\<lparr>q_name = encoded, q_type = rtype, q_class = rclass\<rparr>],
      m_answers = [], m_authorities = [],
      m_additionals = [to_resource_record ((opt_new True)\<lparr>opt_udp_payload_size := 4096\<rparr>)]\<rparr>"

definition dnssec_build_query ::
  "('a, 'w) dns_env \<Rightarrow> string \<Rightarrow> u16 \<Rightarrow> u16 \<Rightarrow> ('c, 'w, bytes option) action" where
  "dnssec_build_query E name rtype rclass =
     act_bind (act_lift (ok_of (encode_domain_name name))) (\<lambda>r.
       case r of
         None \<Rightarrow> act_return None
       | Some encoded \<Rightarrow>
           act_bind (act_world (env_random E)) (\<lambda>i.
             act_lift (ok_of (encode_message (query_message encoded rtype rclass i)))))"

fun query_loop ::
  "('a, 'w) dns_env \<Rightarrow> bytes \<Rightarrow> u16 \<Rightarrow> u16 \<Rightarrow> 'a list \<Rightarrow> ('c, 'w, resource_record list) action" where
  "query_loop E query_bytes expected_id rtype [] = act_return []"
| "query_loop E query_bytes expected_id rtype (server # servers) =
     act_bind (udp_query E query_bytes server expected_id) (\<lambda>r.
       case r of
         None \<Rightarrow> query_loop E query_bytes expected_id rtype servers
       | Some msg \<Rightarrow>
           let records = filter (\<lambda>r. rr_type r = rtype) (m_answers msg) in
           if records \<noteq> [] then act_return records
           else query_loop E query_bytes expected_id rtype servers)"

definition query_rtype ::
  "('a, 'w) dns_env \<Rightarrow> string \<Rightarrow> u16 \<Rightarrow> u16 \<Rightarrow> 'a list \<Rightarrow> ('c, 'w, resource_record list) action" where
  "query_rtype E zone rtype rclass servers =
     act_bind (dnssec_build_query E zone rtype rclass) (\<lambda>r.
       case r of
         None \<Rightarrow> act_return []
       | Some query_bytes \<Rightarrow>
           query_loop E query_bytes (be16 (query_bytes ! 0) (query_bytes ! 1)) rtype servers)"

text \<open>The first step of both fetchers: the shared cache.\<close>

definition cached_records ::
  "('a, 'w) dns_env \<Rightarrow> 'c cache_store \<Rightarrow> string \<Rightarrow> u16 \<Rightarrow> ('c, 'w, resource_record list option) action" where
  "cached_records E L zone rtype =
     (case encode_domain_name zone of
        Ok encoded \<Rightarrow>
          act_bind (act_world (env_clocks E)) (\<lambda>clocks.
          act_bind (act_cache (cache_lookup L (clocks 0) encoded rtype 1)) (\<lambda>r.
          act_return (map_option fst r)))
      | _ \<Rightarrow> act_return None)"

definition store_records ::
  "('a, 'w) dns_env \<Rightarrow> 'c cache_store \<Rightarrow> string \<Rightarrow> (validation_stats \<Rightarrow> validation_stats) \<Rightarrow>
     resource_record list \<Rightarrow> ('c, 'w, unit) action" where
  "store_records E L zone count_hit records =
     (if records \<noteq> [] \<and> (case encode_domain_name zone of Ok _ \<Rightarrow> True | _ \<Rightarrow> False)
      then act_bind (act_world (env_clocks E)) (\<lambda>clocks.
           act_bind (act_cache (\<lambda>c. ((), insert_records L (clocks 0) 0 records c))) (\<lambda>_.
           act_stats count_hit))
      else act_return ())"

definition fetch_dnskeys ::
  "('a, 'w) dns_env \<Rightarrow> 'c cache_store \<Rightarrow> 'a list \<Rightarrow> string \<Rightarrow> ('c, 'w, resource_record list) action" where
  "fetch_dnskeys E L root_hints zone =
     act_bind (cached_records E L zone 48) (\<lambda>hit.
       case hit of
         Some records \<Rightarrow> act_return records
       | None \<Rightarrow>
           act_bind (act_stats (\<lambda>st. st\<lparr>vs_dnskey_fetches := vs_dnskey_fetches st + 1\<rparr>)) (\<lambda>_.
           act_bind (query_rtype E zone 48 1 root_hints) (\<lambda>records.
           act_bind (store_records E L zone
             (\<lambda>st. st\<lparr>vs_dnskey_cache_hits := vs_dnskey_cache_hits st + 1\<rparr>) records) (\<lambda>_.
           act_return records))))"

definition fetch_ds ::
  "('a, 'w) dns_env \<Rightarrow> 'c cache_store \<Rightarrow> 'a list \<Rightarrow> string \<Rightarrow> ('c, 'w, resource_record list) action" where
  "fetch_ds E L root_hints child =
     act_bind (cached_records E L child 43) (\<lambda>hit.
       case hit of
         Some records \<Rightarrow> act_return records
       | None \<Rightarrow>
           act_bind (act_stats (\<lambda>st. st\<lparr>vs_ds_fetches := vs_ds_fetches st + 1\<rparr>)) (\<lambda>_.
           act_bind (query_rtype E child 43 1 root_hints) (\<lambda>records.
           act_bind (store_records E L child
             (\<lambda>st. st\<lparr>vs_ds_cache_hits := vs_ds_cache_hits st + 1\<rparr>) records) (\<lambda>_.
           act_return records))))"

section \<open>The chain\<close>

definition signed_now ::
  "('a, 'w) dns_env \<Rightarrow> crypto \<Rightarrow> resource_record list \<Rightarrow> u16 \<Rightarrow> resource_record list \<Rightarrow> ('c, 'w, bool) action" where
  "signed_now E C records rrset_type signing_keys =
     act_bind (act_world (env_unix E)) (\<lambda>now.
       act_return (verify_rrset_signed C (now 0) records rrset_type signing_keys))"

definition ds_matched_keys ::
  "crypto \<Rightarrow> string \<Rightarrow> resource_record list \<Rightarrow> resource_record list \<Rightarrow> resource_record list" where
  "ds_matched_keys C zone zone_records ds_response =
     filter (\<lambda>dk. list_ex (\<lambda>ds. verify_ds C ds dk zone) (filter is_ds ds_response))
       (filter is_dnskey zone_records)"

definition anchor_present :: "resource_record list \<Rightarrow> resource_record list \<Rightarrow> bool" where
  "anchor_present zone_records trust_anchors \<longleftrightarrow>
     list_ex (\<lambda>dk. list_ex (\<lambda>ta. same_dnskey dk ta) trust_anchors) (filter is_dnskey zone_records)"

function validate_chain ::
  "('a, 'w) dns_env \<Rightarrow> 'c cache_store \<Rightarrow> crypto \<Rightarrow> 'a list \<Rightarrow> resource_record list \<Rightarrow> nat \<Rightarrow> string \<Rightarrow>
     resource_record list \<Rightarrow> ('c, 'w, dnssec_status) action" where
  "validate_chain E L C root_hints trust_anchors depth zone zone_records =
     (if depth > MAX_CHAIN_DEPTH then act_return Indeterminate
      else if anchor_present zone_records trust_anchors then
        act_bind (signed_now E C zone_records 48 trust_anchors) (\<lambda>signed.
          act_return (if signed then Secure else Bogus))
      else if zone = ''.'' \<or> zone = [] then act_return Indeterminate
      else
        act_bind (fetch_ds E L root_hints zone) (\<lambda>ds_response.
        if filter is_ds ds_response = [] then act_return Insecure
        else
          let ksks = ds_matched_keys C zone zone_records ds_response in
          if ksks = [] then act_return Bogus
          else
            act_bind (signed_now E C zone_records 48 ksks) (\<lambda>signed.
            if \<not> signed then act_return Bogus
            else
              let parent = parent_zone_str zone in
              act_bind (fetch_dnskeys E L root_hints parent) (\<lambda>parent_records.
              if parent_records = [] then act_return Indeterminate
              else
                act_bind (validate_chain E L C root_hints trust_anchors (depth + 1) parent parent_records)
                  (\<lambda>parent_status.
                if parent_status \<noteq> Secure then act_return parent_status
                else
                  act_bind (signed_now E C ds_response 43 parent_records) (\<lambda>ds_signed.
                  act_return (if ds_signed then Secure else Bogus)))))))"
  by pat_completeness auto
termination
  by (relation "measure (\<lambda>(E, L, C, rh, ta, depth, z, zr). Suc MAX_CHAIN_DEPTH - depth)") auto

declare validate_chain.simps [simp del]

section \<open>A response\<close>

datatype rrset_verdict = Verdict_Verified | Verdict_Bogus

datatype rrsig_outcome = Rrsig_Verified | Rrsig_ChainBogus | Rrsig_NoMatchingKey

datatype key_outcome = Key_Verified | Key_ChainBogus | Key_Skip

definition try_verify_with_key ::
  "('a, 'w) dns_env \<Rightarrow> 'c cache_store \<Rightarrow> crypto \<Rightarrow> 'a list \<Rightarrow> resource_record list \<Rightarrow>
     resource_record \<Rightarrow> resource_record \<Rightarrow> resource_record list \<Rightarrow> string \<Rightarrow> resource_record list \<Rightarrow>
     ('c, 'w, key_outcome) action" where
  "try_verify_with_key E L C root_hints trust_anchors dk rrsig rrset signer_name dnskey_response =
     act_bind (act_world (env_unix E)) (\<lambda>now.
     if \<not> rrsig_verified_by C (now 0) rrsig dk rrset then act_return Key_Skip
     else
       act_bind (validate_chain E L C root_hints trust_anchors 0 signer_name dnskey_response)
         (\<lambda>chain_status.
         act_return (case chain_status of
             Secure \<Rightarrow> Key_Verified | Bogus \<Rightarrow> Key_ChainBogus | _ \<Rightarrow> Key_Skip)))"

fun try_each_key ::
  "('a, 'w) dns_env \<Rightarrow> 'c cache_store \<Rightarrow> crypto \<Rightarrow> 'a list \<Rightarrow> resource_record list \<Rightarrow>
     resource_record \<Rightarrow> resource_record list \<Rightarrow> string \<Rightarrow> resource_record list \<Rightarrow> resource_record list \<Rightarrow>
     ('c, 'w, rrsig_outcome) action" where
  "try_each_key E L C root_hints trust_anchors rrsig rrset signer dnskey_response [] =
     act_return Rrsig_NoMatchingKey"
| "try_each_key E L C root_hints trust_anchors rrsig rrset signer dnskey_response (dk # dnskeys) =
     act_bind (try_verify_with_key E L C root_hints trust_anchors dk rrsig rrset signer dnskey_response)
       (\<lambda>outcome. case outcome of
           Key_Verified \<Rightarrow> act_return Rrsig_Verified
         | Key_ChainBogus \<Rightarrow> act_return Rrsig_ChainBogus
         | Key_Skip \<Rightarrow> try_each_key E L C root_hints trust_anchors rrsig rrset signer dnskey_response dnskeys)"

fun rrsig_signer :: "rdata option \<Rightarrow> bytes option" where
  "rrsig_signer (Some (RD_RRSIG _ _ _ _ _ _ _ signer_name _)) = Some signer_name"
| "rrsig_signer _ = None"

definition try_verify_rrsig ::
  "('a, 'w) dns_env \<Rightarrow> 'c cache_store \<Rightarrow> crypto \<Rightarrow> 'a list \<Rightarrow> resource_record list \<Rightarrow>
     resource_record \<Rightarrow> resource_record list \<Rightarrow> ('c, 'w, rrsig_outcome) action" where
  "try_verify_rrsig E L C root_hints trust_anchors rrsig rrset =
     (case rrsig_signer (rr_parsed rrsig) of
        None \<Rightarrow> act_return Rrsig_NoMatchingKey
      | Some signer_name \<Rightarrow>
          act_bind (fetch_dnskeys E L root_hints (labels_to_string signer_name)) (\<lambda>dnskey_response.
          let dnskeys = filter is_dnskey dnskey_response in
          if dnskeys = [] then act_return Rrsig_NoMatchingKey
          else try_each_key E L C root_hints trust_anchors rrsig rrset (labels_to_string signer_name)
                 dnskey_response dnskeys))"

fun verify_rrset ::
  "('a, 'w) dns_env \<Rightarrow> 'c cache_store \<Rightarrow> crypto \<Rightarrow> 'a list \<Rightarrow> resource_record list \<Rightarrow>
     resource_record list \<Rightarrow> resource_record list \<Rightarrow> ('c, 'w, rrset_verdict) action" where
  "verify_rrset E L C root_hints trust_anchors rrset [] = act_return Verdict_Bogus"
| "verify_rrset E L C root_hints trust_anchors rrset (rrsig # rrsigs) =
     act_bind (try_verify_rrsig E L C root_hints trust_anchors rrsig rrset) (\<lambda>outcome.
       case outcome of
         Rrsig_Verified \<Rightarrow> act_return Verdict_Verified
       | Rrsig_ChainBogus \<Rightarrow> act_return Verdict_Bogus
       | Rrsig_NoMatchingKey \<Rightarrow> verify_rrset E L C root_hints trust_anchors rrset rrsigs)"

fun signer_zones :: "string list \<Rightarrow> resource_record list \<Rightarrow> string list" where
  "signer_zones zones [] = zones"
| "signer_zones zones (r # rs) =
     (case rrsig_signer (rr_parsed r) of
        Some signer_name \<Rightarrow>
          let lower = str_lower (labels_to_string signer_name) in
          signer_zones (if lower \<in> set zones then zones else zones @ [lower]) rs
      | None \<Rightarrow> signer_zones zones rs)"

fun fetch_each ::
  "('a, 'w) dns_env \<Rightarrow> 'c cache_store \<Rightarrow> 'a list \<Rightarrow> string list \<Rightarrow> ('c, 'w, unit) action" where
  "fetch_each E L root_hints [] = act_return ()"
| "fetch_each E L root_hints (zone # zones) =
     act_bind (fetch_dnskeys E L root_hints zone) (\<lambda>_. fetch_each E L root_hints zones)"

definition prefetch_signer_dnskeys ::
  "('a, 'w) dns_env \<Rightarrow> 'c cache_store \<Rightarrow> 'a list \<Rightarrow> resource_record list \<Rightarrow> ('c, 'w, unit) action" where
  "prefetch_signer_dnskeys E L root_hints all_rrsigs = fetch_each E L root_hints (signer_zones [] all_rrsigs)"

fun check_rrsets ::
  "('a, 'w) dns_env \<Rightarrow> 'c cache_store \<Rightarrow> crypto \<Rightarrow> 'a list \<Rightarrow> resource_record list \<Rightarrow>
     resource_record list \<Rightarrow> rrset_group list \<Rightarrow> ('c, 'w, bool) action" where
  "check_rrsets E L C root_hints trust_anchors all_rrsigs [] = act_return True"
| "check_rrsets E L C root_hints trust_anchors all_rrsigs ((name, qtype, rrset) # groups) =
     (let matching_rrsigs = matching_rrsigs_for all_rrsigs name qtype in
      if matching_rrsigs = [] then check_rrsets E L C root_hints trust_anchors all_rrsigs groups
      else
        act_bind (verify_rrset E L C root_hints trust_anchors rrset matching_rrsigs) (\<lambda>verdict.
          if verdict = Verdict_Bogus then act_return False
          else check_rrsets E L C root_hints trust_anchors all_rrsigs groups))"

definition response_denial ::
  "('a, 'w) dns_env \<Rightarrow> 'c cache_store \<Rightarrow> crypto \<Rightarrow> message \<Rightarrow> resource_record list \<Rightarrow> ('c, 'w, dnssec_status) action" where
  "response_denial E L C response all_rrsigs =
     (let (qname, qtype_num) =
            (case m_questions response of q # _ \<Rightarrow> (q_name q, q_type q) | [] \<Rightarrow> ([0], 0));
          is_nxdomain = (h_rcode (m_header response) = 3)
      in act_bind (act_world (env_clocks E)) (\<lambda>clocks.
         act_bind (act_world (env_unix E)) (\<lambda>now.
         act_cache (validate_denial C L clocks now (m_authorities response) all_rrsigs
           (labels_to_string qname) qtype_num is_nxdomain))))"

definition response_status ::
  "('a, 'w) dns_env \<Rightarrow> 'c cache_store \<Rightarrow> crypto \<Rightarrow> 'a list \<Rightarrow> message \<Rightarrow> ('c, 'w, dnssec_status) action" where
  "response_status E L C root_hints response =
     (let all_rrsigs = filter is_rrsig
            (m_answers response @ m_authorities response @ m_additionals response) in
      if all_rrsigs = [] then act_return Insecure
      else
        act_bind (prefetch_signer_dnskeys E L root_hints all_rrsigs) (\<lambda>_.
        let rrsets = group_rrsets (m_answers response) in
        act_bind (check_rrsets E L C root_hints TRUST_ANCHORS all_rrsigs rrsets) (\<lambda>ok.
        if \<not> ok then act_return Bogus
        else if rrsets = [] then response_denial E L C response all_rrsigs
        else act_return Secure)))"

definition stats_zero :: validation_stats where
  "stats_zero = \<lparr>vs_dnskey_cache_hits = 0, vs_dnskey_fetches = 0, vs_ds_cache_hits = 0,
     vs_ds_fetches = 0, vs_elapsed_ms = 0\<rparr>"

text \<open>The statistics start at zero, and \<open>finish\<close> adds the elapsed time on every way out.\<close>

definition validate_response ::
  "('a, 'w) dns_env \<Rightarrow> 'c cache_store \<Rightarrow> crypto \<Rightarrow> 'a list \<Rightarrow> message \<Rightarrow> ('c, 'w, dnssec_status) action" where
  "validate_response E L C root_hints response =
     act_bind (act_world (env_clocks E)) (\<lambda>start.
     act_bind (act_stats (\<lambda>_. stats_zero)) (\<lambda>_.
     act_bind (response_status E L C root_hints response) (\<lambda>status.
     act_bind (act_world (env_clocks E)) (\<lambda>finish.
     act_bind (act_stats (\<lambda>st. st\<lparr>vs_elapsed_ms :=
       of_nat ((finish 0 0 - start 0 0) div 1000000)\<rparr>)) (\<lambda>_.
     act_return status)))))"

lemma signed_now_Ok:
  "signed_now E C records t keys s = (Ok b, s') \<Longrightarrow> \<exists>now. b = verify_rrset_signed C now records t keys"
  by (auto simp: signed_now_def act_bind_Ok act_return_Ok)

section \<open>Trust\<close>

text \<open>
  A zone's DNSKEY records are trusted if they contain a trust anchor and are signed by one, or if
  they are signed by a key among them that a DS record of the zone commits to, where the DS records
  are signed by trusted DNSKEY records of the parent.
\<close>

inductive trusted :: "crypto \<Rightarrow> resource_record list \<Rightarrow> string \<Rightarrow> resource_record list \<Rightarrow> bool"
  for C anchors where
  trusted_anchor: "anchor_present records anchors \<Longrightarrow> verify_rrset_signed C now records 48 anchors \<Longrightarrow>
     trusted C anchors zone records"
| trusted_child: "verify_rrset_signed C now records 48 (ds_matched_keys C zone records ds_response) \<Longrightarrow>
     trusted C anchors (parent_zone_str zone) parent_records \<Longrightarrow>
     verify_rrset_signed C now' ds_response 43 parent_records \<Longrightarrow>
     trusted C anchors zone records"

lemma validate_chain_SecureE:
  assumes "validate_chain E L C hints anchors depth zone records s = (Ok Secure, s')"
  obtains (anchor) now where "anchor_present records anchors" "verify_rrset_signed C now records 48 anchors"
    | (child) now ds pr s3 s4 now' where "\<not> depth > MAX_CHAIN_DEPTH" "\<not> anchor_present records anchors"
        "\<not> (zone = ''.'' \<or> zone = [])" "filter is_ds ds \<noteq> []" "ds_matched_keys C zone records ds \<noteq> []"
        "verify_rrset_signed C now records 48 (ds_matched_keys C zone records ds)" "pr \<noteq> []"
        "validate_chain E L C hints anchors (depth + 1) (parent_zone_str zone) pr s3 = (Ok Secure, s4)"
        "verify_rrset_signed C now' ds 43 pr"
proof -
  note chain = assms [unfolded validate_chain.simps [of E L C hints anchors depth zone records] Let_def]
  let ?p = "parent_zone_str zone"
  define up where "up ds pr = act_bind (validate_chain E L C hints anchors (depth + 1) ?p pr) (\<lambda>parent_status.
      if parent_status \<noteq> Secure then act_return parent_status
      else act_bind (signed_now E C ds 43 pr) (\<lambda>ds_signed. act_return (if ds_signed then Secure else Bogus)))"
    for ds pr
  have depth: "\<not> depth > MAX_CHAIN_DEPTH" using chain by (auto simp: act_return_Ok)
  show thesis
  proof (cases "anchor_present records anchors")
    case True
    then obtain b where "signed_now E C records 48 anchors s = (Ok b, s')" "b"
      using chain depth by (auto simp: act_bind_Ok act_return_Ok split: if_splits)
    with signed_now_Ok True anchor show thesis by metis
  next
    case False
    have root: "\<not> (zone = ''.'' \<or> zone = [])" using chain depth False by (auto simp: act_return_Ok)
    obtain ds s1 where ne: "filter is_ds ds \<noteq> []" "ds_matched_keys C zone records ds \<noteq> []"
      and rest: "act_bind (signed_now E C records 48 (ds_matched_keys C zone records ds)) (\<lambda>signed.
            if \<not> signed then act_return Bogus
            else act_bind (fetch_dnskeys E L hints ?p) (\<lambda>pr.
              if pr = [] then act_return Indeterminate else up ds pr)) s1 = (Ok Secure, s')"
      using chain depth False root unfolding up_def [symmetric]
      by (auto simp: act_bind_Ok [of "fetch_ds E L hints zone"] act_return_Ok split: if_splits)
    obtain s2 where sig: "signed_now E C records 48 (ds_matched_keys C zone records ds) s1 = (Ok True, s2)"
      and rest2: "act_bind (fetch_dnskeys E L hints ?p) (\<lambda>pr.
              if pr = [] then act_return Indeterminate else up ds pr) s2 = (Ok Secure, s')"
      using rest unfolding act_bind_Ok [of "signed_now E C records 48 _"]
      by (auto simp: act_return_Ok split: if_splits)
    obtain pr s3 where pr: "pr \<noteq> []" "up ds pr s3 = (Ok Secure, s')"
      using rest2 by (auto simp: act_bind_Ok act_return_Ok split: if_splits)
    then obtain s4 s5 where par: "validate_chain E L C hints anchors (depth + 1) ?p pr s3 = (Ok Secure, s4)"
      and dsig: "signed_now E C ds 43 pr s4 = (Ok True, s5)"
      by (auto simp: up_def act_bind_Ok act_return_Ok split: if_splits)
    from child [OF depth False root ne _ pr(1) par] signed_now_Ok [OF sig] signed_now_Ok [OF dsig]
    show thesis by metis
  qed
qed

lemma validate_chain_trusted:
  "validate_chain E L C hints anchors depth zone records s = (Ok Secure, s') \<Longrightarrow>
     trusted C anchors zone records"
proof (induction E L C hints anchors depth zone records arbitrary: s s' rule: validate_chain.induct)
  case (1 E L C hints anchors depth zone records)
  from "1.prems" show ?case
  proof (cases rule: validate_chain_SecureE)
    case (anchor now)
    then show ?thesis by (rule trusted_anchor)
  next
    case (child now ds pr s3 s4 now')
    then have "trusted C anchors (parent_zone_str zone) pr"
      using "1.IH" [OF child(1-4) refl child(5) _ refl child(7,8)] by simp
    with child show ?thesis by (auto intro: trusted_child)
  qed
qed

section \<open>Effort\<close>

text \<open>An action that fetches at most \<open>a\<close> DS and \<open>b\<close> DNSKEY record sets, however it ends.\<close>

definition fetches :: "nat \<Rightarrow> nat \<Rightarrow> ('c, 'w, 'r) action \<Rightarrow> bool" where
  "fetches a b m \<longleftrightarrow> (\<forall>s. \<exists>i j. i \<le> a \<and> j \<le> b \<and>
     vs_ds_fetches (v_stats (snd (m s))) = vs_ds_fetches (v_stats s) + of_nat i \<and>
     vs_dnskey_fetches (v_stats (snd (m s))) = vs_dnskey_fetches (v_stats s) + of_nat j)"

lemma fetches_mono: "fetches a b m \<Longrightarrow> a \<le> a' \<Longrightarrow> b \<le> b' \<Longrightarrow> fetches a' b' m"
  unfolding fetches_def by (meson order_trans)

lemma fetches_bind:
  assumes "fetches a b m" "\<And>x. fetches a' b' (f x)"
  shows "fetches (a + a') (b + b') (act_bind m f)"
  unfolding fetches_def
proof
  fix s
  obtain i j where ij: "i \<le> a" "j \<le> b"
    "vs_ds_fetches (v_stats (snd (m s))) = vs_ds_fetches (v_stats s) + of_nat i"
    "vs_dnskey_fetches (v_stats (snd (m s))) = vs_dnskey_fetches (v_stats s) + of_nat j"
    using assms(1) unfolding fetches_def by blast
  obtain r s1 where m: "m s = (r, s1)" by fastforce
  show "\<exists>i j. i \<le> a + a' \<and> j \<le> b + b' \<and>
     vs_ds_fetches (v_stats (snd (act_bind m f s))) = vs_ds_fetches (v_stats s) + of_nat i \<and>
     vs_dnskey_fetches (v_stats (snd (act_bind m f s))) = vs_dnskey_fetches (v_stats s) + of_nat j"
  proof (cases "\<exists>x. r = Ok x")
    case True
    then obtain x where Ok: "r = Ok x" by blast
    obtain k l where "k \<le> a'" "l \<le> b'"
      "vs_ds_fetches (v_stats (snd (f x s1))) = vs_ds_fetches (v_stats s1) + of_nat k"
      "vs_dnskey_fetches (v_stats (snd (f x s1))) = vs_dnskey_fetches (v_stats s1) + of_nat l"
      using assms(2) [of x] unfolding fetches_def by blast
    with ij m Ok show ?thesis
      by (intro exI [of _ "i + k"] exI [of _ "j + l"]) (simp add: act_bind_def)
  next
    case False
    then have "snd (act_bind m f s) = s1" using m by (cases r) (auto simp: act_bind_def)
    with ij m show ?thesis by (intro exI [of _ i] exI [of _ j]) simp
  qed
qed

lemma fetches_0I: "(\<And>s. v_stats (snd (m s)) = v_stats s) \<Longrightarrow> fetches 0 0 m"
  by (auto simp: fetches_def)

lemma fetches_return [simp]: "fetches a b (act_return x)"
  by (rule fetches_mono [OF fetches_0I]) (simp_all add: act_return_def)

lemma fetches_basic:
  "fetches 0 0 (act_world f)" "fetches 0 0 (act_cache g)" "fetches 0 0 (act_exchange E q srv)"
  "fetches 0 0 (act_lift r)"
  by (rule fetches_0I; simp add: act_world_def act_cache_def act_exchange_def act_lift_def case_prod_unfold Let_def)+

lemma fetches_bind0: "fetches 0 0 m \<Longrightarrow> (\<And>x. fetches a b (f x)) \<Longrightarrow> fetches a b (act_bind m f)"
  using fetches_bind [of 0 0 m a b f] by simp

lemma fetches_then: "fetches a b m \<Longrightarrow> (\<And>x. fetches 0 0 (f x)) \<Longrightarrow> fetches a b (act_bind m f)"
  using fetches_bind [of a b m 0 0 f] by simp

lemma fetches_udp_query: "fetches 0 0 (udp_query E q srv i)"
  by (auto simp: udp_query_def Let_def fetches_basic intro!: fetches_bind0 split: option.split)

lemma fetches_query_loop: "fetches 0 0 (query_loop E q i t servers)"
  by (induction servers) (auto simp: fetches_udp_query Let_def intro!: fetches_bind0 split: option.split)

lemma fetches_query_rtype: "fetches 0 0 (query_rtype E zone t c servers)"
  by (auto simp: query_rtype_def dnssec_build_query_def fetches_basic fetches_query_loop Let_def
      intro!: fetches_bind0 split: option.split)

lemma fetches_cached: "fetches 0 0 (cached_records E L zone t)"
  by (auto simp: cached_records_def fetches_basic intro!: fetches_bind0 split: outcome.split)

lemma fetches_store:
  fixes E :: "('a, 'w) dns_env" and L :: "'c cache_store"
  assumes "fetches 0 0 (act_stats g :: ('c, 'w, unit) action)" shows "fetches 0 0 (store_records E L zone g records)"
  using assms by (auto simp: store_records_def fetches_basic intro!: fetches_bind0)

lemma fetches_stats:
  "fetches 1 0 (act_stats (\<lambda>st. st\<lparr>vs_ds_fetches := vs_ds_fetches st + 1\<rparr>))"
  "fetches 0 1 (act_stats (\<lambda>st. st\<lparr>vs_dnskey_fetches := vs_dnskey_fetches st + 1\<rparr>))"
  "fetches 0 0 (act_stats (\<lambda>st. st\<lparr>vs_ds_cache_hits := vs_ds_cache_hits st + 1\<rparr>))"
  "fetches 0 0 (act_stats (\<lambda>st. st\<lparr>vs_dnskey_cache_hits := vs_dnskey_cache_hits st + 1\<rparr>))"
  by (auto simp: fetches_def act_stats_def intro!: exI [of _ "1 :: nat"])

lemma fetches_ds: "fetches 1 0 (fetch_ds E L hints zone)"
  unfolding fetch_ds_def
proof (rule fetches_bind0 [OF fetches_cached])
  fix hit :: "resource_record list option"
  show "fetches 1 0 (case hit of
      Some records \<Rightarrow> act_return records
    | None \<Rightarrow> act_bind (act_stats (\<lambda>st. st\<lparr>vs_ds_fetches := vs_ds_fetches st + 1\<rparr>)) (\<lambda>_.
        act_bind (query_rtype E zone 43 1 hints) (\<lambda>records.
        act_bind (store_records E L zone (\<lambda>st. st\<lparr>vs_ds_cache_hits := vs_ds_cache_hits st + 1\<rparr>) records)
          (\<lambda>_. act_return records))))"
    by (cases hit) (simp_all, intro fetches_then [OF fetches_stats(1), simplified]
        fetches_bind0 [OF fetches_query_rtype] fetches_bind0 [OF fetches_store [OF fetches_stats(3)]] fetches_return)
qed

lemma fetches_dnskeys: "fetches 0 1 (fetch_dnskeys E L hints zone)"
  unfolding fetch_dnskeys_def
proof (rule fetches_bind0 [OF fetches_cached])
  fix hit :: "resource_record list option"
  show "fetches 0 1 (case hit of
      Some records \<Rightarrow> act_return records
    | None \<Rightarrow> act_bind (act_stats (\<lambda>st. st\<lparr>vs_dnskey_fetches := vs_dnskey_fetches st + 1\<rparr>)) (\<lambda>_.
        act_bind (query_rtype E zone 48 1 hints) (\<lambda>records.
        act_bind (store_records E L zone (\<lambda>st. st\<lparr>vs_dnskey_cache_hits := vs_dnskey_cache_hits st + 1\<rparr>) records)
          (\<lambda>_. act_return records))))"
    by (cases hit) (simp_all, intro fetches_then [OF fetches_stats(2), simplified]
        fetches_bind0 [OF fetches_query_rtype] fetches_bind0 [OF fetches_store [OF fetches_stats(4)]] fetches_return)
qed

lemma fetches_signed: "fetches 0 0 (signed_now E C records t keys)"
  by (auto simp: signed_now_def fetches_basic intro!: fetches_bind0)

lemma fetches_chain:
  "fetches (Suc MAX_CHAIN_DEPTH - depth) (Suc MAX_CHAIN_DEPTH - depth)
     (validate_chain E L C hints anchors depth zone records)"
proof (induction E L C hints anchors depth zone records rule: validate_chain.induct)
  case (1 E L C hints anchors depth zone records)
  let ?n = "MAX_CHAIN_DEPTH - depth"
  show ?case
  proof (cases "depth > MAX_CHAIN_DEPTH \<or> anchor_present records anchors \<or> zone = ''.'' \<or> zone = []")
    case True
    then show ?thesis
      by (subst validate_chain.simps)
        (auto intro!: fetches_mono [OF fetches_then [OF fetches_signed]])
  next
    case False
    then have n: "Suc MAX_CHAIN_DEPTH - depth = Suc ?n" "Suc MAX_CHAIN_DEPTH - (depth + 1) = ?n" by auto
    have up: "fetches ?n ?n (validate_chain E L C hints anchors (depth + 1) (parent_zone_str zone) pr)"
      if "filter is_ds ds \<noteq> []" "ds_matched_keys C zone records ds \<noteq> []" "pr \<noteq> []" for ds pr
      using "1.IH" [OF _ _ _ that(1) refl that(2) _ refl that(3)] False n(2) by simp
    have parent: "fetches ?n (Suc ?n) (act_bind (fetch_dnskeys E L hints (parent_zone_str zone)) (\<lambda>pr.
        if pr = [] then act_return Indeterminate
        else act_bind (validate_chain E L C hints anchors (depth + 1) (parent_zone_str zone) pr) (\<lambda>st.
          if st \<noteq> Secure then act_return st
          else act_bind (signed_now E C ds 43 pr) (\<lambda>b. act_return (if b then Secure else Bogus)))))"
      if "filter is_ds ds \<noteq> []" "ds_matched_keys C zone records ds \<noteq> []" for ds
      by (rule fetches_bind [of 0 1 _ ?n ?n, OF fetches_dnskeys, unfolded add_0 plus_1_eq_Suc])
        (auto intro!: fetches_then [OF up [OF that, simplified]] fetches_then [OF fetches_signed])
    have fetch: "fetches (Suc ?n) (Suc ?n) (act_bind (fetch_ds E L hints zone) f)"
      if "\<And>ds. fetches ?n (Suc ?n) (f ds)" for f :: "resource_record list \<Rightarrow> ('a, 'b, dnssec_status) action"
      using fetches_bind [of 1 0 "fetch_ds E L hints zone" ?n "Suc ?n" f, OF fetches_ds that] by simp
    from False show ?thesis
      unfolding validate_chain.simps [of E L C hints anchors depth zone records] Let_def n(1)
      by (auto intro!: fetch fetches_bind0 [OF fetches_signed] parent)
  qed
qed

section \<open>Fetching without a server\<close>

text \<open>With no server to ask, fetching returns.\<close>

lemma query_message_sized: "sized_message (query_message e t c i)"
  by (simp add: query_message_def sized_message_def message_records_def to_resource_record_def rr_sized_def)

lemma encode_query_returns: "\<exists>r. ok_of (encode_message (query_message e t c i)) = Ok r"
proof (cases "length (message_wire (query_message e t c i)) \<le> MAX_DNS_MESSAGE_SIZE")
  case True
  then show ?thesis by (simp add: encode_message_fits [OF query_message_sized])
next
  case False
  with encode_message_overflow [OF query_message_sized, of e t c i] show ?thesis
    by (cases "encode_message (query_message e t c i)") auto
qed

lemma ends_ok_basic [simp]:
  "ends_ok (act_world f)" "ends_ok (act_cache g)" "ends_ok (act_stats h)"
  by (auto simp: ends_ok_def act_world_def act_cache_def act_stats_def case_prod_unfold Let_def)

lemma ends_ok_encode: "ends_ok (act_lift (ok_of (encode_domain_name name)))"
  using encode_domain_name_returns [of name]
  by (cases "encode_domain_name name") (simp_all add: ends_ok_def act_lift_def)

lemma ends_ok_fetch: "ends_ok (fetch_dnskeys E L [] zone)"
proof -
  have "ends_ok (act_lift (ok_of (encode_message (query_message e t c i))))" for e t c i
    using encode_query_returns [of e t c i] by (auto simp: ends_ok_def act_lift_def)
  then have "ends_ok (query_rtype E zone 48 1 [])"
    by (auto simp: query_rtype_def dnssec_build_query_def Let_def
        intro!: ends_ok_bind ends_ok_encode split: option.split)
  moreover have "ends_ok (cached_records E L zone 48)"
    by (auto simp: cached_records_def intro!: ends_ok_bind split: outcome.split)
  moreover have "ends_ok (store_records E L zone g rs)" for g rs
    by (auto simp: store_records_def intro!: ends_ok_bind)
  ultimately show ?thesis
    by (auto simp: fetch_dnskeys_def intro!: ends_ok_bind split: option.split)
qed

lemma ends_ok_prefetch: "ends_ok (prefetch_signer_dnskeys E L [] rrsigs)"
proof -
  have "ends_ok (fetch_each E L [] zones)" for zones
    by (induction zones) (auto intro!: ends_ok_bind ends_ok_fetch)
  then show ?thesis by (simp add: prefetch_signer_dnskeys_def)
qed

section \<open>No signature is ever verified\<close>

text \<open>
  The records a DNSKEY or DS fetch returns have no signature among them: a response is filtered by
  type, and the cache stores records unparsed.
\<close>

definition cache_sound :: "'c cache_store \<Rightarrow> ('c \<Rightarrow> bool) \<Rightarrow> ('c, 'w) val_state \<Rightarrow> bool" where
  "cache_sound L ok s \<longleftrightarrow> (\<exists>t. cache_inv L ok t (v_cache s))"

lemma yields_basic:
  "yields (cache_sound L ok) (act_world f) (\<lambda>_. True)" "yields (cache_sound L ok) (act_stats g) (\<lambda>_. True)"
  "yields (cache_sound L ok) (act_exchange E q srv) (\<lambda>_. True)"
  "yields (cache_sound L ok) (act_lift r) (\<lambda>x. r = Ok x)"
  by (auto simp: yields_def cache_sound_def act_world_def act_stats_def act_exchange_def act_lift_def
      case_prod_unfold Let_def)

lemma yields_cache:
  "(\<And>c t. cache_inv L ok t c \<Longrightarrow> (\<exists>t'. cache_inv L ok t' (snd (g c))) \<and> Q (fst (g c))) \<Longrightarrow>
     yields (cache_sound L ok) (act_cache g) Q"
  by (auto simp: yields_def cache_sound_def act_cache_def case_prod_unfold Let_def)

lemma decoded_rrsig_type: "decode_message data = Ok m \<Longrightarrow> r \<in> set (m_answers m) \<Longrightarrow> is_rrsig r \<Longrightarrow> rr_type r = 46"
proof -
  assume "decode_message data = Ok m" "r \<in> set (m_answers m)" and sig: "is_rrsig r"
  then have "rr_parsed_ok r"
    using decode_message_sound by (auto simp: parsed_message_ok_def message_records_def)
  with sig show ?thesis by (auto simp: rr_parsed_ok_def is_rrsig_def split: option.splits rdata.splits)
qed

definition unsigned_records :: "resource_record list \<Rightarrow> bool" where
  "unsigned_records records \<longleftrightarrow> list_all (\<lambda>r. \<not> is_rrsig r) records"

lemma unsigned_not_verified: "unsigned_records records \<Longrightarrow> \<not> verify_rrset_signed C now records t keys"
proof -
  have "rrsig_covers_type t p \<Longrightarrow> rr_parsed r = p \<Longrightarrow> is_rrsig r" for r p
    by (cases "(t, p)" rule: rrsig_covers_type.cases) (auto simp: is_rrsig_def)
  then show "unsigned_records records \<Longrightarrow> \<not> verify_rrset_signed C now records t keys"
    by (auto simp: unsigned_records_def verify_rrset_signed_def Let_def list_ex_iff list_all_iff)
qed

lemma yields_udp_query:
  "yields (cache_sound L ok) (udp_query E q srv i)
     (\<lambda>r. \<forall>m. r = Some m \<longrightarrow> (\<forall>r \<in> set (m_answers m). is_rrsig r \<longrightarrow> rr_type r = 46))"
proof -
  have "ok_of d = Ok (Some m) \<longleftrightarrow> d = Ok m" for d and m :: message by (cases d) auto
  then show ?thesis
    by (auto simp: udp_query_def Let_def dest!: decoded_rrsig_type split: option.split
        intro!: yields_bind [OF yields_basic(3)] yields_return yields_mono [OF yields_basic(4)])
qed

lemma yields_query_loop:
  "t \<noteq> 46 \<Longrightarrow> yields (cache_sound L ok) (query_loop E q i t servers) unsigned_records"
proof (induction servers)
  case Nil
  then show ?case by (simp add: yields_return unsigned_records_def)
next
  case (Cons server servers)
  then show ?case
    by (auto simp: unsigned_records_def list_all_iff Let_def split: option.split
        intro!: yields_bind [OF yields_udp_query] yields_return)
qed

lemma yields_query_rtype:
  "t \<noteq> 46 \<Longrightarrow> yields (cache_sound L ok) (query_rtype E zone t c servers) unsigned_records"
  unfolding query_rtype_def
proof (rule yields_bind [where R = "\<lambda>_. True"])
  show "yields (cache_sound L ok) (dnssec_build_query E zone t c) (\<lambda>_. True)"
    unfolding dnssec_build_query_def
    by (auto split: option.split intro!: yields_bind [OF yields_mono [OF yields_basic(4)]]
        yields_bind [OF yields_basic(1)] yields_return yields_mono [OF yields_basic(4)])
next
  fix r :: "bytes option"
  assume "t \<noteq> 46"
  then show "yields (cache_sound L ok) (case r of None \<Rightarrow> act_return []
      | Some q \<Rightarrow> query_loop E q (be16 (q ! 0) (q ! 1)) t servers) unsigned_records"
    by (auto simp: unsigned_records_def [of "[]"] split: option.split intro!: yields_query_loop yields_return)
qed

context cache_lru
begin

lemma insert_records_sound: "cache_inv L ok t c \<Longrightarrow> \<exists>t'. cache_inv L ok t' (insert_records L clock i recs c)"
proof (induction recs arbitrary: i c t)
  case (Cons r recs)
  have "cache_inv L ok (max t (clock i)) c" by (rule cache_inv_mono [OF Cons.prems]) simp
  from Cons.IH [OF insert_inv [OF this, of "clock i"]] show ?case by simp
qed auto

lemma yields_cached:
  "yields (cache_sound L ok) (cached_records E L zone t) (\<lambda>r. \<forall>rs. r = Some rs \<longrightarrow> unsigned_records rs)"
proof -
  have "yields (cache_sound L ok) (act_cache (cache_lookup L clock name t 1))
      (\<lambda>r. \<forall>rs. map_option fst r = Some rs \<longrightarrow> unsigned_records rs)" for clock name
  proof (rule yields_cache, intro conjI allI impI)
    fix c t' rs assume inv: "cache_inv L ok t' c"
    show "\<exists>t'. cache_inv L ok t' (snd (cache_lookup L clock name t 1 c))" using lookup_inv [OF inv] by blast
    assume "map_option fst (fst (cache_lookup L clock name t 1 c)) = Some rs"
    then obtain m c' where "cache_lookup L clock name t 1 c = (Some (rs, m), c')"
      by (cases "cache_lookup L clock name t 1 c") auto
    from lookup_unparsed [OF inv this] show "unsigned_records rs"
      by (auto simp: unsigned_records_def list_all_iff is_rrsig_def)
  qed
  then show ?thesis
    by (auto simp: cached_records_def split: outcome.split
        intro!: yields_bind [OF yields_basic(1)] yields_bind yields_return)
qed

lemma yields_store: "yields (cache_sound L ok) (store_records E L zone g recs) (\<lambda>_. True)"
proof -
  have "yields (cache_sound L ok) (act_cache (\<lambda>c. ((), insert_records L clock i recs c))) (\<lambda>_. True)" for clock i
    by (rule yields_cache) (auto intro: insert_records_sound)
  then show ?thesis
    by (auto simp: store_records_def intro!: yields_bind [OF yields_basic(1)] yields_bind yields_basic yields_return)
qed

lemma yields_fetch_dnskeys: "yields (cache_sound L ok) (fetch_dnskeys E L hints zone) unsigned_records"
  unfolding fetch_dnskeys_def
  by (rule yields_bind [OF yields_cached])
    (auto split: option.split intro!: yields_return yields_bind [OF yields_basic(2)]
      yields_bind [OF yields_query_rtype] yields_bind [OF yields_store])

lemma yields_fetch_ds: "yields (cache_sound L ok) (fetch_ds E L hints zone) unsigned_records"
  unfolding fetch_ds_def
  by (rule yields_bind [OF yields_cached])
    (auto split: option.split intro!: yields_return yields_bind [OF yields_basic(2)]
      yields_bind [OF yields_query_rtype] yields_bind [OF yields_store])

lemma yields_chain:
  assumes "unsigned_records records"
  shows "yields (cache_sound L ok) (validate_chain E L C hints anchors depth zone records) (\<lambda>st. st \<noteq> Secure)"
proof -
  have "yields (cache_sound L ok) (signed_now E C records t keys) Not" for t keys
    using unsigned_not_verified [OF assms]
    by (auto simp: signed_now_def intro!: yields_bind [OF yields_basic(1)] yields_return)
  then show ?thesis
    by (subst validate_chain.simps)
      (auto simp: Let_def intro!: yields_return yields_bind [OF yields_fetch_ds] yields_bind [where R = Not])
qed

lemma yields_try_each_key:
  assumes "unsigned_records records"
  shows "yields (cache_sound L ok) (try_each_key E L C hints anchors rrsig rrset signer records keys)
    (\<lambda>r. r \<noteq> Rrsig_Verified)"
proof (induction keys)
  case (Cons dk keys)
  have "yields (cache_sound L ok) (try_verify_with_key E L C hints anchors dk rrsig rrset signer records)
      (\<lambda>r. r \<noteq> Key_Verified)"
    by (auto simp: try_verify_with_key_def intro!: yields_bind [OF yields_basic(1)] yields_return
        yields_bind [OF yields_chain [OF assms]] split: dnssec_status.splits)
  then show ?case
    using Cons by (auto split: key_outcome.split intro!: yields_bind yields_return)
qed (simp add: yields_return)

lemma yields_verify_rrset:
  "yields (cache_sound L ok) (verify_rrset E L C hints anchors rrset rrsigs) (\<lambda>v. v = Verdict_Bogus)"
proof (induction rrsigs)
  case (Cons rrsig rrsigs)
  have "yields (cache_sound L ok) (try_verify_rrsig E L C hints anchors rrsig rrset) (\<lambda>r. r \<noteq> Rrsig_Verified)"
    by (auto simp: try_verify_rrsig_def Let_def split: option.split
        intro!: yields_return yields_bind [OF yields_fetch_dnskeys] yields_try_each_key)
  then show ?case
    using Cons by (auto split: rrsig_outcome.split intro!: yields_bind yields_return)
qed (simp add: yields_return)

lemma yields_check_rrsets:
  "yields (cache_sound L ok) (check_rrsets E L C hints anchors rrsigs groups)
     (\<lambda>b. b \<longleftrightarrow> list_all (\<lambda>(name, qtype, rrset). matching_rrsigs_for rrsigs name qtype = []) groups)"
proof (induction groups)
  case (Cons g groups)
  then show ?case
    by (cases g) (auto simp: Let_def intro!: yields_return yields_bind [OF yields_verify_rrset])
qed (simp add: yields_return)

lemma response_denial_result:
  assumes "cache_sound L ok s" "response_denial E L C response rrsigs s = (Ok st, s')"
  shows "st = Indeterminate"
proof -
  have keep: "v_cache s2 = v_cache s1" if "act_world f s1 = (Ok x, s2)" for f :: "'w \<Rightarrow> 'x \<times> 'w" and x s1 s2
    using that by (auto simp: act_world_def case_prod_unfold Let_def)
  obtain clocks now q t nx s1 s2 where "act_world (env_clocks E) s = (Ok clocks, s1)"
      "act_world (env_unix E) s1 = (Ok now, s2)"
      "act_cache (validate_denial C L clocks now (m_authorities response) rrsigs q t nx) s2 = (Ok st, s')"
    using assms(2) unfolding response_denial_def Let_def case_prod_unfold act_bind_Ok by blast
  moreover then have "v_cache s2 = v_cache s" using keep by metis
  ultimately show ?thesis
    using assms(1) denial_indeterminate by (auto simp: cache_sound_def act_cache_def case_prod_unfold Let_def)
qed

lemma yields_fetch_each: "yields (cache_sound L ok) (fetch_each E L hints zones) (\<lambda>_. True)"
  by (induction zones) (auto intro!: yields_return yields_bind [OF yields_fetch_dnskeys])

lemma response_status_secure:
  fixes response :: message
  defines "rrsigs \<equiv> filter is_rrsig (m_answers response @ m_authorities response @ m_additionals response)"
  assumes "cache_sound L ok s" "response_status E L C hints response s = (Ok st, s')"
  shows "st = Secure \<longleftrightarrow> rrsigs \<noteq> [] \<and> group_rrsets (m_answers response) \<noteq> [] \<and>
    list_all (\<lambda>(name, qtype, rrset). matching_rrsigs_for rrsigs name qtype = []) (group_rrsets (m_answers response))"
proof (cases "rrsigs = []")
  case True
  then show ?thesis
    using assms(3) unfolding response_status_def Let_def rrsigs_def [symmetric] by (simp add: act_return_Ok)
next
  case False
  let ?groups = "group_rrsets (m_answers response)"
  obtain u s1 b s2 where pre: "prefetch_signer_dnskeys E L hints rrsigs s = (Ok u, s1)"
    and chk: "check_rrsets E L C hints TRUST_ANCHORS rrsigs ?groups s1 = (Ok b, s2)"
    and res: "(if \<not> b then act_return Bogus else if ?groups = [] then response_denial E L C response rrsigs
        else act_return Secure) s2 = (Ok st, s')"
    using assms(3) False unfolding response_status_def Let_def rrsigs_def [symmetric]
    by (auto simp: act_bind_Ok)
  have "cache_sound L ok s1"
    using yieldsD [OF yields_fetch_each assms(2)] pre by (auto simp: prefetch_signer_dnskeys_def)
  from yieldsD [OF yields_check_rrsets this chk] res False show ?thesis
    by (auto simp: act_return_Ok dest: response_denial_result split: if_splits)
qed

end

section \<open>Properties\<close>

text \<open>
  C9. Whatever the network, the cache and the clock deliver, a zone is reported secure only if its
  DNSKEY records are trusted: there is a chain of DS records, each signed by the parent's trusted
  keys and each committing to a key that signs the child's DNSKEY records, up to DNSKEY records
  signed by a trust anchor.
\<close>

theorem chain_secure_is_trusted:
  assumes "validate_chain E L C root_hints trust_anchors depth zone zone_records s = (Ok Secure, s')"
  shows "trusted C trust_anchors zone zone_records"
  using assms by (rule validate_chain_trusted)

definition example_env :: "(unit, unit) dns_env" where
  "example_env = \<lparr>env_random = \<lambda>w. (7, w), env_exchange = \<lambda>q srv w. (Ok None, w),
     env_clocks = \<lambda>w. (\<lambda>g i. 9, w), env_unix = \<lambda>w. (\<lambda>g. 1700000300, w)\<rparr>"

definition example_key :: resource_record where
  "example_key = anchor_record [1, 3, 5]"

definition example_key_sig :: resource_record where
  "example_key_sig =
     \<lparr>rr_name = [0], rr_type = 46, rr_class = 1, rr_ttl = 60, rr_rdlength = 0, rr_rdata = [],
      rr_parsed = Some (RD_RRSIG 48 8 0 60 1700086400 1700000200 (compute_key_tag 257 3 8 [1, 3, 5]) [0] [1])\<rparr>"

definition example_state :: "(nat \<times> (cache_key \<times> cache_entry list) list, unit) val_state" where
  "example_state = \<lparr>v_cache = example_cache, v_stats = stats_zero, v_world = ()\<rparr>"

lemma example_signed: "verify_rrset_signed accept_all 1700000300 [example_key, example_key_sig] 48 [example_key]"
proof -
  have "is_rrsig_time_valid 1700000300 1700086400 1700000200"
    using time_window [of 1700000300 1700000200 1700086400] by simp
  then show ?thesis
    by (simp add: verify_rrset_signed_def example_key_def example_key_sig_def anchor_record_def
        rrsig_verified_by_def verify_signature_def verify_rsa_sha256_def rsa_key_parts_def accept_all_def
        ROOT_KSK_ALGORITHM_def ROOT_KSK_FLAGS_def)
qed

lemma example_chain:
  "validate_chain example_env list_lru accept_all [] [example_key] 0 ''.'' [example_key, example_key_sig]
     example_state = (Ok Secure, example_state)"
proof -
  have "anchor_present [example_key, example_key_sig] [example_key]"
    by (simp add: anchor_present_def is_dnskey_def same_dnskey_def example_key_def anchor_record_def)
  moreover have "signed_now example_env accept_all [example_key, example_key_sig] 48 [example_key] example_state =
      (Ok True, example_state)"
    using example_signed
    by (simp add: signed_now_def act_bind_def act_world_def example_env_def act_return_def example_state_def)
  ultimately show ?thesis
    by (subst validate_chain.simps) (simp add: act_bind_eq act_return_def)
qed

theorem chain_secure_is_trusted_witness:
  "trusted accept_all [example_key] ''.'' [example_key, example_key_sig]"
  by (rule chain_secure_is_trusted [OF example_chain])

text \<open>
  C39. However a validation ends, the walk from a zone makes at most eleven DS fetches and eleven
  DNSKEY fetches.
\<close>

theorem chain_effort_bounded:
  "\<exists>i j. i \<le> 11 \<and> j \<le> 11 \<and>
     vs_ds_fetches (v_stats (snd (validate_chain E L C root_hints trust_anchors 0 zone records s))) =
       vs_ds_fetches (v_stats s) + of_nat i \<and>
     vs_dnskey_fetches (v_stats (snd (validate_chain E L C root_hints trust_anchors 0 zone records s))) =
       vs_dnskey_fetches (v_stats s) + of_nat j"
  using fetches_chain [of 0 E L C root_hints trust_anchors zone records]
  by (simp add: fetches_def MAX_CHAIN_DEPTH_def)

text \<open>
  C25. A response is reported secure exactly when it has signatures and answers but no signature that
  matches an answer: a matching one never verifies, since DNSKEY records are fetched without their
  signatures and cached unparsed, and an answer without a matching one is skipped.
\<close>

theorem response_secure_iff_unmatched:
  assumes "cache_lru L cap ok" "cache_run L n t (v_cache s)"
    and "response_status E L C root_hints response s = (Ok status, s')"
    and "all_rrsigs = filter is_rrsig (m_answers response @ m_authorities response @ m_additionals response)"
  shows "status = Secure \<longleftrightarrow> all_rrsigs \<noteq> [] \<and> group_rrsets (m_answers response) \<noteq> [] \<and>
    list_all (\<lambda>(name, qtype, rrset). matching_rrsigs_for all_rrsigs name qtype = [])
      (group_rrsets (m_answers response))"
proof -
  have "cache_sound L ok s"
    using cache_lru.run_inv [OF assms(1,2)] by (auto simp: cache_sound_def)
  from cache_lru.response_status_secure [OF assms(1) this assms(3)] show ?thesis by (simp add: assms(4))
qed

definition forged_response :: message where
  "forged_response =
     \<lparr>m_header = new_response 7 0, m_questions = [], m_answers = [example_rr 60 1, example_key_sig],
      m_authorities = [], m_additionals = []\<rparr>"

theorem response_secure_iff_unmatched_witness:
  "\<exists>s'. response_status example_env list_lru accept_all [] forged_response example_state = (Ok Secure, s') \<and>
     matching_rrsigs_for [example_key_sig] [1, 97, 0] 1 = []"
proof -
  let ?sigs = "filter is_rrsig (m_answers forged_response @ m_authorities forged_response @
      m_additionals forged_response)"
  have sigs: "?sigs = [example_key_sig]"
    by (simp add: forged_response_def is_rrsig_def example_key_sig_def example_rr_def)
  have groups: "group_rrsets (m_answers forged_response) = [([1, 97, 0], 1, [example_rr 60 1])]"
    by (simp add: group_rrsets_def forged_response_def is_rrsig_def example_key_sig_def example_rr_def)
  have unmatched: "matching_rrsigs_for [example_key_sig] [1, 97, 0] 1 = []"
    by (simp add: matching_rrsigs_for_def example_key_sig_def)
  obtain s1 where pre: "prefetch_signer_dnskeys example_env list_lru [] [example_key_sig] example_state = (Ok (), s1)"
    using ends_ok_prefetch [of example_env list_lru "[example_key_sig]"] by (auto simp: ends_ok_def)
  have st: "response_status example_env list_lru accept_all [] forged_response example_state = (Ok Secure, s1)"
    unfolding response_status_def Let_def sigs groups
    by (simp add: pre unmatched act_bind_def act_return_def)
  have "cache_run list_lru 2 5 (v_cache example_state)"
    using example_cache_run by (simp add: example_state_def)
  from response_secure_iff_unmatched [OF list_cache_lru this st sigs [symmetric]] st show ?thesis
    by (simp add: groups)
qed

end
