(* ===== verification/Tcp_Pool.thy ===== *)
theory Tcp_Pool
  imports Wire_Name
begin

text \<open>
  The pool of idle TCP connections of \<open>src/src/resolver/recursive.rs\<close> (\<open>TcpPool\<close>) and the exchange of
  a query over a pooled connection (\<open>query_via_tcp_pool\<close>).  A connection is an opaque value; what the
  operating system does with it is a record of operations on a world, each with its one-second
  timeout: \<open>None\<close> stands for an error or for the timeout.  \<open>duration_since\<close> gives zero when its argument
  lies in the future, as the difference of natural numbers does.
\<close>

section \<open>The pool\<close>

definition NANOS_PER_SEC :: nat where "NANOS_PER_SEC = 1000000000"
definition TCP_POOL_PER_SERVER :: nat where "TCP_POOL_PER_SERVER = 2"
definition TCP_POOL_IDLE_TIMEOUT :: nat where "TCP_POOL_IDLE_TIMEOUT = 60 * NANOS_PER_SEC"

record 't tcp_pool =
  tp_pool :: "ip_addr \<rightharpoonup> ('t \<times> nat) list"

definition pool_new :: "'t tcp_pool" where
  "pool_new = \<lparr>tp_pool = Map.empty\<rparr>"

definition idle_live :: "nat \<Rightarrow> 't \<times> nat \<Rightarrow> bool" where
  "idle_live now c \<longleftrightarrow> now - snd c < TCP_POOL_IDLE_TIMEOUT"

text \<open>The \<open>while let Some(..) = streams.pop()\<close> loop, on the connections from the last to the first.\<close>

fun acquire_loop :: "nat \<Rightarrow> ('t \<times> nat) list \<Rightarrow> 't option \<times> ('t \<times> nat) list" where
  "acquire_loop now [] = (None, [])"
| "acquire_loop now ((stream, last_used) # streams) =
     (if now - last_used < TCP_POOL_IDLE_TIMEOUT then (Some stream, streams) else acquire_loop now streams)"

definition acquire :: "nat \<Rightarrow> ip_addr \<Rightarrow> 't tcp_pool \<Rightarrow> 't option \<times> 't tcp_pool" where
  "acquire now server p =
     (case tp_pool p server of
        None \<Rightarrow> (None, p)
      | Some streams \<Rightarrow>
          let (r, left) = acquire_loop now (rev streams)
          in (r, p\<lparr>tp_pool := (tp_pool p)(server \<mapsto> rev left)\<rparr>))"

definition release :: "nat \<Rightarrow> ip_addr \<Rightarrow> 't \<Rightarrow> 't tcp_pool \<Rightarrow> 't tcp_pool" where
  "release now server stream p =
     (let streams = (case tp_pool p server of Some ss \<Rightarrow> ss | None \<Rightarrow> []);
          streams = filter (idle_live now) streams;
          streams = (if length streams < TCP_POOL_PER_SERVER then streams @ [(stream, now)] else streams)
      in p\<lparr>tp_pool := (tp_pool p)(server \<mapsto> streams)\<rparr>)"

definition cleanup :: "nat \<Rightarrow> 't tcp_pool \<Rightarrow> 't tcp_pool" where
  "cleanup now p =
     p\<lparr>tp_pool := (\<lambda>server. case tp_pool p server of
          None \<Rightarrow> None
        | Some streams \<Rightarrow>
            let streams = filter (idle_live now) streams in
            if streams = [] then None else Some streams)\<rparr>"

section \<open>An exchange over TCP\<close>

record ('t, 'w) tcp_ops =
  tcp_connect :: "ip_addr \<Rightarrow> 'w \<Rightarrow> 't option \<times> 'w"
  tcp_write_all :: "bytes \<Rightarrow> 't \<Rightarrow> 'w \<Rightarrow> 't option \<times> 'w"
  tcp_read_exact :: "nat \<Rightarrow> 't \<Rightarrow> 'w \<Rightarrow> (bytes \<times> 't) option \<times> 'w"

definition framed :: "bytes \<Rightarrow> bytes" where
  "framed query_bytes = bytes_of_u16 (of_nat (length query_bytes)) @ query_bytes"

text \<open>Write the frame, read the length, read the response: the response and the stream behind it.\<close>

definition tcp_exchange ::
  "('t, 'w) tcp_ops \<Rightarrow> bytes \<Rightarrow> 't \<Rightarrow> 'w \<Rightarrow> (bytes \<times> 't) option \<times> 'w" where
  "tcp_exchange T query_bytes stream w =
     (case tcp_write_all T (framed query_bytes) stream w of
        (None, w) \<Rightarrow> (None, w)
      | (Some stream, w) \<Rightarrow>
          (case tcp_read_exact T 2 stream w of
             (None, w) \<Rightarrow> (None, w)
           | (Some (len_buf, stream), w) \<Rightarrow>
               let response_len = unat (be16 (len_buf ! 0) (len_buf ! 1)) in
               if response_len = 0 \<or> response_len > 65535 then (None, w)
               else tcp_read_exact T response_len stream w))"

definition query_via_tcp_pool ::
  "('t, 'w) tcp_ops \<Rightarrow> (nat \<Rightarrow> nat) \<Rightarrow> bytes \<Rightarrow> ip_addr \<Rightarrow> 't tcp_pool \<Rightarrow> 'w \<Rightarrow>
     bytes option \<times> 't tcp_pool \<times> 'w" where
  "query_via_tcp_pool T clock query_bytes server p w =
     (let (pooled, p) = acquire (clock 0) server p;
          (stream, w) = (case pooled of Some s \<Rightarrow> (Some s, w) | None \<Rightarrow> tcp_connect T server w)
      in case stream of
           None \<Rightarrow> (None, p, w)
         | Some stream \<Rightarrow>
             (case tcp_exchange T query_bytes stream w of
                (None, w) \<Rightarrow> (None, p, w)
              | (Some (response_data, stream), w) \<Rightarrow>
                  (Some response_data, release (clock 1) server stream p, w)))"

section \<open>The invariant of the pool\<close>

text \<open>At most two connections per server, in the order of their last use, none in the future.\<close>

definition pool_inv :: "nat \<Rightarrow> 't tcp_pool \<Rightarrow> bool" where
  "pool_inv now p \<longleftrightarrow> (\<forall>server streams. tp_pool p server = Some streams \<longrightarrow>
     length streams \<le> TCP_POOL_PER_SERVER \<and> sorted (map snd streams) \<and> (\<forall>c \<in> set streams. snd c \<le> now))"

lemma pool_invI:
  "(\<And>server streams. tp_pool p server = Some streams \<Longrightarrow> length streams \<le> TCP_POOL_PER_SERVER \<and>
      sorted (map snd streams) \<and> (\<forall>c \<in> set streams. snd c \<le> now)) \<Longrightarrow> pool_inv now p"
  by (auto simp: pool_inv_def)

lemma pool_invD:
  "pool_inv now p \<Longrightarrow> tp_pool p server = Some streams \<Longrightarrow> length streams \<le> TCP_POOL_PER_SERVER \<and>
     sorted (map snd streams) \<and> (\<forall>c \<in> set streams. snd c \<le> now)"
  by (auto simp: pool_inv_def)

lemma pool_inv_mono: "pool_inv now p \<Longrightarrow> now \<le> now' \<Longrightarrow> pool_inv now' p"
  by (meson pool_inv_def order_trans)

lemma acquire_loop_suffix: "suffix (snd (acquire_loop now cs)) cs"
  by (induction cs rule: acquire_loop.induct) (auto simp: suffix_ConsI)

lemma acquire_loop_none: "list_all (\<lambda>c. \<not> idle_live now c) cs \<Longrightarrow> acquire_loop now cs = (None, [])"
  by (induction cs rule: acquire_loop.induct) (auto simp: idle_live_def)

lemma pool_inv_upd:
  assumes "pool_inv now p" "length cs \<le> TCP_POOL_PER_SERVER" "sorted (map snd cs)" "\<forall>c \<in> set cs. snd c \<le> now"
  shows "pool_inv now (p\<lparr>tp_pool := (tp_pool p)(server \<mapsto> cs)\<rparr>)"
  using assms by (auto simp: pool_inv_def)

lemma acquire_inv:
  assumes "pool_inv now p" shows "pool_inv now (snd (acquire now server p))"
proof (cases "tp_pool p server")
  case None
  with assms show ?thesis by (simp add: acquire_def)
next
  case (Some cs)
  let ?left = "rev (snd (acquire_loop now (rev cs)))"
  obtain dropped where cs: "cs = ?left @ dropped"
    using acquire_loop_suffix [of now "rev cs"] by (auto simp: suffix_to_prefix prefix_def)
  have "length (?left @ dropped) \<le> TCP_POOL_PER_SERVER \<and> sorted (map snd (?left @ dropped)) \<and>
      (\<forall>c \<in> set (?left @ dropped). snd c \<le> now)"
    using pool_invD [OF assms Some] unfolding cs [symmetric] .
  then have "pool_inv now (p\<lparr>tp_pool := (tp_pool p)(server \<mapsto> ?left)\<rparr>)"
    by (intro pool_inv_upd assms) (auto simp: sorted_append)
  with Some show ?thesis by (simp add: acquire_def case_prod_unfold Let_def)
qed

lemma release_inv:
  assumes "pool_inv now p" shows "pool_inv now (release now server stream p)"
proof -
  let ?cs = "filter (idle_live now) (case tp_pool p server of Some ss \<Rightarrow> ss | None \<Rightarrow> [])"
  have cs: "length ?cs \<le> TCP_POOL_PER_SERVER \<and> sorted (map snd ?cs) \<and> (\<forall>c \<in> set ?cs. snd c \<le> now)"
  proof (cases "tp_pool p server")
    case (Some ss)
    then show ?thesis
      using pool_invD [OF assms Some] by (auto intro: sorted_filter le_trans [OF length_filter_le])
  qed simp
  then have "pool_inv now (p\<lparr>tp_pool := (tp_pool p)(server \<mapsto> if length ?cs < TCP_POOL_PER_SERVER
      then ?cs @ [(stream, now)] else ?cs)\<rparr>)"
    by (intro pool_inv_upd assms) (auto simp: sorted_append)
  then show ?thesis by (simp add: release_def Let_def)
qed

lemma cleanup_inv:
  assumes "pool_inv now p" shows "pool_inv now (cleanup now p)"
proof (rule pool_invI)
  fix server streams assume "tp_pool (cleanup now p) server = Some streams"
  then obtain cs where cs: "tp_pool p server = Some cs" "streams = filter (idle_live now) cs"
    by (auto simp: cleanup_def Let_def split: option.splits if_splits)
  then show "length streams \<le> TCP_POOL_PER_SERVER \<and> sorted (map snd streams) \<and> (\<forall>c \<in> set streams. snd c \<le> now)"
    using pool_invD [OF assms cs(1)] by (auto intro: sorted_filter le_trans [OF length_filter_le])
qed

section \<open>Runs\<close>

inductive pool_step :: "nat \<Rightarrow> 't tcp_pool \<Rightarrow> nat \<Rightarrow> 't tcp_pool \<Rightarrow> bool" where
  step_acquire: "t \<le> now \<Longrightarrow> pool_step t p now (snd (acquire now server p))"
| step_release: "t \<le> now \<Longrightarrow> pool_step t p now (release now server stream p)"
| step_cleanup: "t \<le> now \<Longrightarrow> pool_step t p now (cleanup now p)"

inductive pool_run :: "nat \<Rightarrow> 't tcp_pool \<Rightarrow> bool" where
  run_new: "pool_run t pool_new"
| run_pool_step: "pool_run t p \<Longrightarrow> pool_step t p t' p' \<Longrightarrow> pool_run t' p'"

inductive_cases pool_stepE: "pool_step t p t' p'"

lemma pool_step_inv: "pool_step t p t' p' \<Longrightarrow> pool_inv t p \<Longrightarrow> pool_inv t' p'"
  by (erule pool_stepE) (auto intro: acquire_inv release_inv cleanup_inv dest: pool_inv_mono)

lemma pool_new_inv: "pool_inv t pool_new"
  by (simp add: pool_inv_def pool_new_def)

lemma pool_run_inv: "pool_run t p \<Longrightarrow> pool_inv t p"
  by (induction rule: pool_run.induct) (auto intro: pool_step_inv pool_new_inv)

section \<open>Properties\<close>

text \<open>
  In every run of the pool, \<open>acquire\<close> hands out the connection that was used last if it is not idle
  for a minute yet, and otherwise empties the pool of the server: no connection that was idle too long
  is ever handed out, none that is still good is thrown away, and a server never has more than two.
\<close>

theorem pool_acquire:
  assumes "pool_run t p" "t \<le> now" "tp_pool p server = Some streams"
  shows "length streams \<le> TCP_POOL_PER_SERVER \<and> acquire now server p =
    (if streams \<noteq> [] \<and> idle_live now (last streams)
     then (Some (fst (last streams)), p\<lparr>tp_pool := (tp_pool p)(server \<mapsto> butlast streams)\<rparr>)
     else (None, p\<lparr>tp_pool := (tp_pool p)(server \<mapsto> [])\<rparr>))"
proof -
  note inv = pool_invD [OF pool_inv_mono [OF pool_run_inv [OF assms(1)] assms(2)] assms(3)]
  show ?thesis
  proof (cases "streams \<noteq> [] \<and> idle_live now (last streams)")
    case True
    then obtain cs s u where cs: "streams = cs @ [(s, u)]" by (metis rev_exhaust prod.exhaust)
    with True inv assms(3) show ?thesis by (simp add: acquire_def idle_live_def)
  next
    case False
    have "list_all (\<lambda>c. \<not> idle_live now c) streams"
    proof (cases streams rule: rev_cases)
      case (snoc cs c)
      then have "snd d \<le> snd c" if "d \<in> set streams" for d
        using inv that by (auto simp: sorted_append)
      with False snoc show ?thesis by (fastforce simp: list_all_iff idle_live_def)
    qed simp
    then have "acquire_loop now (rev streams) = (None, [])" by (intro acquire_loop_none) (simp add: list_all_iff)
    with False inv assms(3) show ?thesis by (simp add: acquire_def)
  qed
qed

definition example_server :: ip_addr where "example_server = V4 (Ipv4 192 0 2 1)"

definition example_pool :: "nat tcp_pool" where
  "example_pool = release 5 example_server 77 pool_new"

theorem pool_acquire_witness:
  "fst (acquire 9 example_server example_pool) = Some 77 \<and>
   fst (acquire (5 + TCP_POOL_IDLE_TIMEOUT) example_server example_pool) = None"
proof -
  have run: "pool_run 5 example_pool"
    unfolding example_pool_def by (rule run_pool_step [OF run_new step_release, of 0]) simp
  have st: "tp_pool example_pool example_server = Some [(77, 5)]"
    by (simp add: example_pool_def release_def pool_new_def TCP_POOL_PER_SERVER_def)
  show ?thesis
    using pool_acquire [OF run _ st, of 9] pool_acquire [OF run _ st, of "5 + TCP_POOL_IDLE_TIMEOUT"]
    by (simp add: idle_live_def TCP_POOL_IDLE_TIMEOUT_def NANOS_PER_SEC_def)
qed

end
