(* ===== verification/Rtt_Store.thy ===== *)
theory Rtt_Store
  imports Wire_Name
begin

text \<open>
  The file in which \<open>src/src/resolver/recursive.rs\<close> keeps the round-trip times of servers between
  runs: \<open>save_rtt_cache\<close> and \<open>load_rtt_cache\<close>.  A double is its bit pattern, which is what
  \<open>f64::to_be_bytes\<close> writes.  The contents of the file are an argument, \<open>None\<close> where the file does not
  exist or cannot be read; the clock readings are arguments too.
\<close>

section \<open>Eight-byte integers\<close>

definition bytes_of_u64 :: "u64 \<Rightarrow> bytes" where
  "bytes_of_u64 w = bytes_of_u32 (ucast (drop_bit 32 w)) @ bytes_of_u32 (ucast w)"

definition be64 :: "bytes \<Rightarrow> u64" where
  "be64 b = (push_bit 32 (ucast (be32 (b ! 0) (b ! 1) (b ! 2) (b ! 3))) OR
     ucast (be32 (b ! 4) (b ! 5) (b ! 6) (b ! 7)))"

lemma length_bytes_of_u64 [simp]: "length (bytes_of_u64 w) = 8"
  by (simp add: bytes_of_u64_def)

lemma u64_halves: "push_bit 32 (ucast (ucast (drop_bit 32 w) :: u32)) OR ucast (ucast w :: u32) = (w :: u64)"
proof (rule bit_word_eqI)
  fix n assume n: "n < LENGTH(64)"
  show "bit (push_bit 32 (ucast (ucast (drop_bit 32 w) :: u32)) OR ucast (ucast w :: u32) :: u64) n \<longleftrightarrow> bit w n"
    using n by (cases "n < 32") (auto simp: be_bit_simps less_diff_conv2 dest: bit_imp_le_length)
qed

lemma be64_bytes_of_u64 [simp]: "be64 (bytes_of_u64 w) = w"
  using u64_halves [of w]
  by (simp add: be64_def bytes_of_u64_def bytes_of_u32_def [of "ucast (drop_bit 32 w)"] bytes_of_u32_def [of "ucast w"])

section \<open>The file\<close>

type_synonym rtt_map = "ip_addr \<rightharpoonup> u64 \<times> nat"

fun ip_octets :: "ip_addr \<Rightarrow> bytes" where
  "ip_octets (V4 ip) = octets4 ip"
| "ip_octets (V6 ip) = octets6 ip"

fun rtt_entry :: "u64 \<Rightarrow> ip_addr \<times> u64 \<Rightarrow> bytes" where
  "rtt_entry now (V4 v4, rtt_ms) = 4 # octets4 v4 @ bytes_of_u64 rtt_ms @ bytes_of_u64 now"
| "rtt_entry now (V6 v6, rtt_ms) = 16 # octets6 v6 @ bytes_of_u64 rtt_ms @ bytes_of_u64 now"

definition save_rtt_cache :: "nat \<Rightarrow> (ip_addr \<times> u64) list \<Rightarrow> bytes" where
  "save_rtt_cache now rtt_data = concat (map (rtt_entry (of_nat now)) rtt_data)"

definition rtt_ip :: "nat \<Rightarrow> bytes \<Rightarrow> ip_addr option" where
  "rtt_ip ip_len ip_bytes =
     (if ip_len = 4 then
        (if length ip_bytes = 4
         then Some (V4 (Ipv4 (ip_bytes ! 0) (ip_bytes ! 1) (ip_bytes ! 2) (ip_bytes ! 3))) else None)
      else if ip_len = 16 then (if length ip_bytes = 16 then Some (V6 (Ipv6 ip_bytes)) else None)
      else None)"

text \<open>The loop over the buffer; \<open>unix\<close> and \<open>instant\<close> are the clock readings for each entry.\<close>

function load_loop :: "(nat \<Rightarrow> nat) \<Rightarrow> (nat \<Rightarrow> nat) \<Rightarrow> nat \<Rightarrow> bytes \<Rightarrow> rtt_map \<Rightarrow> rtt_map" where
  "load_loop unix instant i [] m = m"
| "load_loop unix instant i (b # buf) m =
     (let ip_len = unat b in
      if ip_len + 8 + 8 > length buf then m
      else
        let ip_bytes = take ip_len buf;
            rtt_ms = be64 (take 8 (drop ip_len buf));
            rest = drop (ip_len + 16) buf
        in load_loop unix instant (i + 1) rest
             (case rtt_ip ip_len ip_bytes of
                Some ip \<Rightarrow> if unix i - 3600 = 0 then m(ip \<mapsto> (rtt_ms, instant i)) else m
              | None \<Rightarrow> m))"
  by pat_completeness auto
termination
  by (relation "measure (\<lambda>(u, t, i, buf, m). length buf)") auto

definition load_rtt_cache :: "(nat \<Rightarrow> nat) \<Rightarrow> (nat \<Rightarrow> nat) \<Rightarrow> bytes option \<Rightarrow> rtt_map" where
  "load_rtt_cache unix instant file =
     (case file of
        None \<Rightarrow> Map.empty
      | Some buf \<Rightarrow> if length buf < 1 then Map.empty else load_loop unix instant 0 buf Map.empty)"

lemma load_loop_late: "(\<And>j. unix j > 3600) \<Longrightarrow> load_loop unix instant i buf m = m"
proof (induction unix instant i buf m rule: load_loop.induct)
  case (2 unix instant i b buf m)
  have "unix i - 3600 \<noteq> 0" using "2.prems" [of i] by simp
  with "2.IH" [OF refl] "2.prems" show ?case by (auto simp: Let_def split: option.split)
qed simp

fun ip_ok :: "ip_addr \<Rightarrow> bool" where
  "ip_ok (V4 ip) = True"
| "ip_ok (V6 ip) \<longleftrightarrow> length (octets6 ip) = 16"

lemma rtt_ip_octets:
  assumes "ip_ok ip" shows "rtt_ip (length (ip_octets ip)) (ip_octets ip) = Some ip"
proof (cases ip)
  case (V4 a)
  then show ?thesis by (cases a) (simp add: rtt_ip_def)
next
  case (V6 a)
  with assms show ?thesis by (simp add: rtt_ip_def)
qed

lemma rtt_entry_eq:
  assumes "ip_ok ip"
  shows "rtt_entry now (ip, r) = of_nat (length (ip_octets ip)) # ip_octets ip @ bytes_of_u64 r @ bytes_of_u64 now"
    and "length (ip_octets ip) < 256"
  using assms by (cases ip; simp)+

lemma load_loop_entry:
  assumes "ip_ok ip"
  shows "load_loop unix instant i (rtt_entry now (ip, r) @ rest) m =
     load_loop unix instant (i + 1) rest (if unix i - 3600 = 0 then m(ip \<mapsto> (r, instant i)) else m)"
  by (simp add: rtt_entry_eq [OF assms] rtt_ip_octets [OF assms] Let_def)

lemma load_loop_saved:
  assumes "list_all (\<lambda>(ip, r). ip_ok ip) entries" "\<And>j. unix j \<le> 3600"
  shows "map_option fst (load_loop unix instant i (concat (map (rtt_entry now) entries)) m k) =
     (case map_of (rev entries) k of Some r \<Rightarrow> Some r | None \<Rightarrow> map_option fst (m k))"
  using assms(1)
proof (induction entries arbitrary: i m)
  case (Cons e entries)
  obtain ip r where e: "e = (ip, r)" by fastforce
  with Cons.prems have "ip_ok ip" "unix i - 3600 = 0" using assms(2) [of i] by simp_all
  with Cons show ?case
    by (auto simp: e load_loop_entry map_add_def split: option.split)
qed simp

lemma load_rtt_Some: "load_rtt_cache unix instant (Some buf) = load_loop unix instant 0 buf Map.empty"
  by (cases buf) (simp_all add: load_rtt_cache_def)

section \<open>Properties\<close>

text \<open>
  What was saved reads back, for each address the last value written, as long as the clock shows at
  most one hour since 1970.
\<close>

theorem saved_rtts_load:
  assumes "list_all (\<lambda>(ip, r). ip_ok ip) entries" "\<And>j. unix j \<le> 3600"
  shows "map_option fst \<circ> load_rtt_cache unix instant (Some (save_rtt_cache now entries)) = map_of (rev entries)"
proof
  fix k
  show "(map_option fst \<circ> load_rtt_cache unix instant (Some (save_rtt_cache now entries))) k = map_of (rev entries) k"
    using load_loop_saved [OF assms(1), of unix instant 0 "of_nat now" Map.empty k] assms(2)
    by (simp add: load_rtt_Some save_rtt_cache_def split: option.splits)
qed

text \<open>At any later time the age test refuses every entry: nothing is loaded, whatever the file holds.\<close>

theorem rtt_file_ignored:
  assumes "\<And>j. unix j > 3600"
  shows "load_rtt_cache unix instant file = Map.empty"
  using load_loop_late [OF assms] by (simp add: load_rtt_cache_def split: option.split)

end
