(* ===== verification/Resolver_State.thy ===== *)
theory Resolver_State
  imports Dnssec_Chain Tcp_Pool Rtt_Store
begin

text \<open>
  The shared state of the recursive resolver (\<open>RecursiveResolver\<close> of \<open>src/src/resolver/recursive.rs\<close>),
  its caches of name servers and delegations, and the exchange of a query with a set of servers.

  The fields behind \<open>Arc<Mutex<..>>\<close> are one record.  A lock is held only inside an operation, so each
  operation is one step on the record.  What lies outside the program is the record \<open>res_env\<close>: the
  operations of the \<open>lru\<close> crate for each cache, the cryptographic primitives, the arithmetic of doubles
  (whose values are bit patterns), the network, the clocks and the order in which concurrent tasks end.

  The tasks that one query spawns, one per server, run in an order that the environment chooses, each
  of them as one step; those that have not ended when an answer is found are left in \<open>r_pending\<close>, and
  the background refreshes a cache hit spawns in \<open>r_spawned\<close>.
\<close>

section \<open>Constants\<close>

definition MAX_ITERATIONS :: nat where "MAX_ITERATIONS = 32"
definition MAX_CNAME_DEPTH :: nat where "MAX_CNAME_DEPTH = 10"
definition NS_CACHE_MAX :: nat where "NS_CACHE_MAX = 4096"
definition DELEGATION_CACHE_MAX :: nat where "DELEGATION_CACHE_MAX = 1024"
definition DELEGATION_CACHE_TTL :: nat where "DELEGATION_CACHE_TTL = 7200"
definition TRUNCATION_CACHE_TTL :: nat where "TRUNCATION_CACHE_TTL = 300 * NANOS_PER_SEC"
definition DEFAULT_RTT_MS :: nat where "DEFAULT_RTT_MS = 500"
definition HEALTH_CHECK_COUNT :: nat where "HEALTH_CHECK_COUNT = 5"
definition HEALTH_PENALTY_THRESHOLD :: u32 where "HEALTH_PENALTY_THRESHOLD = 3"
definition HEALTH_PENALTY_MS :: nat where "HEALTH_PENALTY_MS = 2000"

section \<open>State and environment\<close>

type_synonym f64 = u64

record f64_ops =
  f_add :: "f64 \<Rightarrow> f64 \<Rightarrow> f64"
  f_mul :: "f64 \<Rightarrow> f64 \<Rightarrow> f64"
  f_lt :: "f64 \<Rightarrow> f64 \<Rightarrow> bool"
  f_eq :: "f64 \<Rightarrow> f64 \<Rightarrow> bool"
  f_lit :: "nat \<Rightarrow> nat \<Rightarrow> f64" \<comment> \<open>the double nearest to a fraction\<close>
  f_secs :: "nat \<Rightarrow> f64" \<comment> \<open>\<open>as_secs_f64\<close> of a duration in nanoseconds\<close>

record server_health =
  sh_consecutive_failures :: u32
  sh_last_success :: "nat option"

record resolver_stats =
  rs_total_queries :: u64
  rs_cache_hits :: u64
  rs_cache_misses :: u64
  rs_failed_queries :: u64
  rs_served_stale :: u64
  rs_avg_resolve_time_ms :: f64
  rs_min_resolve_time_ms :: f64
  rs_max_resolve_time_ms :: f64

record ('c, 'n, 'd, 'r, 't, 'w) resolver =
  r_cache :: "'c dns_cache"
  r_ns_cache :: 'n
  r_delegation_cache :: 'd
  r_stats :: resolver_stats
  r_server_rtt :: 'r
  r_server_health :: "ip_addr \<rightharpoonup> server_health"
  r_tcp_pool :: "'t tcp_pool"
  r_truncation_cache :: "ip_addr \<rightharpoonup> nat"
  r_pending :: "(ip_addr \<times> bytes \<times> u16) list"
  r_spawned :: "(string \<times> u16 \<times> u16) list"
  r_world :: 'w

record ('c, 'n, 'd, 'r, 't, 'w) res_env =
  e_cache :: "'c cache_store"
  e_ns :: "(bytes, ip_addr list, 'n) lru_ops"
  e_deleg :: "(bytes, ip_addr list \<times> nat, 'd) lru_ops"
  e_rtt :: "(ip_addr, f64 \<times> nat, 'r) lru_ops"
  e_crypto :: crypto
  e_f64 :: f64_ops
  e_enable_ipv6 :: bool
  e_tcp :: "('t, 'w) tcp_ops"
  e_tcp_write_within :: "bytes \<Rightarrow> 't \<Rightarrow> 'w \<Rightarrow> bool \<times> 'w" \<comment> \<open>false: timed out\<close>
  e_random :: "'w \<Rightarrow> u16 \<times> 'w"
  e_instants :: "'w \<Rightarrow> (nat \<Rightarrow> nat) \<times> 'w" \<comment> \<open>readings of the monotonic clock\<close>
  e_unix :: "'w \<Rightarrow> (nat \<Rightarrow> nat) \<times> 'w" \<comment> \<open>readings of the wall clock\<close>
  e_udp :: "bytes \<Rightarrow> ip_addr \<Rightarrow> 'w \<Rightarrow> bytes list option \<times> 'w"
    \<comment> \<open>the datagrams that arrive before the timeout or an error; nothing if the query was not sent\<close>
  e_order :: "nat \<Rightarrow> 'w \<Rightarrow> nat list \<times> 'w"
  e_touched :: "ip_addr list \<Rightarrow> 'w \<Rightarrow> ip_addr list \<times> 'w" \<comment> \<open>the keys the comparisons of a sort read\<close>
  e_deadline :: "'w \<Rightarrow> nat option \<times> 'w"
  e_doh :: "bytes \<Rightarrow> 'w \<Rightarrow> (string + bytes) \<times> 'w"

type_synonym ('c, 'n, 'd, 'r, 't, 'w, 'x) ract = "(('c, 'n, 'd, 'r, 't, 'w) resolver, 'x) act"

definition on_world :: "('w \<Rightarrow> 'x \<times> 'w) \<Rightarrow> ('c, 'n, 'd, 'r, 't, 'w, 'x) ract" where
  "on_world f = act_modify (\<lambda>s. let (x, w) = f (r_world s) in (x, s\<lparr>r_world := w\<rparr>))"

definition on_cache :: "('c dns_cache \<Rightarrow> 'x \<times> 'c dns_cache) \<Rightarrow> ('c, 'n, 'd, 'r, 't, 'w, 'x) ract" where
  "on_cache f = act_modify (\<lambda>s. let (x, c) = f (r_cache s) in (x, s\<lparr>r_cache := c\<rparr>))"

definition on_ns_cache :: "('n \<Rightarrow> 'x \<times> 'n) \<Rightarrow> ('c, 'n, 'd, 'r, 't, 'w, 'x) ract" where
  "on_ns_cache f = act_modify (\<lambda>s. let (x, c) = f (r_ns_cache s) in (x, s\<lparr>r_ns_cache := c\<rparr>))"

definition on_delegations :: "('d \<Rightarrow> 'x \<times> 'd) \<Rightarrow> ('c, 'n, 'd, 'r, 't, 'w, 'x) ract" where
  "on_delegations f = act_modify (\<lambda>s. let (x, c) = f (r_delegation_cache s) in (x, s\<lparr>r_delegation_cache := c\<rparr>))"

definition on_stats :: "(resolver_stats \<Rightarrow> resolver_stats) \<Rightarrow> ('c, 'n, 'd, 'r, 't, 'w, unit) ract" where
  "on_stats f = act_modify (\<lambda>s. ((), s\<lparr>r_stats := f (r_stats s)\<rparr>))"

section \<open>Delegations and name server addresses\<close>

text \<open>
  The walk over the suffixes of a name; the clock is read for every suffix that is cached.
\<close>

function deleg_walk ::
  "(bytes, ip_addr list \<times> nat, 'd) lru_ops \<Rightarrow> (nat \<Rightarrow> nat) \<Rightarrow> nat \<Rightarrow> bytes \<Rightarrow> 'd \<Rightarrow> ip_addr list option \<times> 'd" where
  "deleg_walk D clock i [] dc = (None, dc)"
| "deleg_walk D clock i (b # rest) dc =
     (let suf = b # rest in
      if length suf \<le> 1 then (None, dc)
      else case lru_get D dc suf of
             (Some (servers, expiry), dc) \<Rightarrow>
               if clock i < expiry then (Some servers, dc)
               else deleg_walk D clock (i + 1) (drop (unat b) rest) dc
           | (None, dc) \<Rightarrow> deleg_walk D clock i (drop (unat b) rest) dc)"
  by pat_completeness auto
termination
  by (relation "measure (\<lambda>(D, clock, i, suf, dc). length suf)") auto

definition find_cached_delegation ::
  "(bytes, ip_addr list \<times> nat, 'd) lru_ops \<Rightarrow> (nat \<Rightarrow> nat) \<Rightarrow> bytes \<Rightarrow> 'd \<Rightarrow> ip_addr list option \<times> 'd" where
  "find_cached_delegation D clock name dc = deleg_walk D clock 0 name dc"

definition cached_delegation ::
  "('c, 'n, 'd, 'r, 't, 'w) res_env \<Rightarrow> bytes \<Rightarrow> ('c, 'n, 'd, 'r, 't, 'w, ip_addr list option) ract" where
  "cached_delegation E name =
     act_bind (on_world (e_instants E)) (\<lambda>clock.
       on_delegations (find_cached_delegation (e_deleg E) clock name))"

definition cache_delegation ::
  "('c, 'n, 'd, 'r, 't, 'w) res_env \<Rightarrow> bytes \<Rightarrow> ip_addr list \<Rightarrow> ('c, 'n, 'd, 'r, 't, 'w, unit) ract" where
  "cache_delegation E zone_name server_ips =
     act_bind (on_world (e_instants E)) (\<lambda>clock.
       let expiry = clock 0 + DELEGATION_CACHE_TTL * NANOS_PER_SEC in
       on_delegations (\<lambda>dc. ((), lru_put (e_deleg E) dc zone_name (server_ips, expiry))))"

fun record_ip :: "bool \<Rightarrow> rdata option \<Rightarrow> ip_addr option" where
  "record_ip v6 (Some (RD_A ip)) = Some (V4 ip)"
| "record_ip v6 (Some (RD_AAAA ip)) = (if v6 then Some (V6 ip) else None)"
| "record_ip v6 _ = None"

definition remember_address ::
  "(bytes, ip_addr list, 'n) lru_ops \<Rightarrow> bool \<Rightarrow> resource_record \<Rightarrow> 'n \<Rightarrow> 'n" where
  "remember_address N v6 rec nc =
     (if rr_type rec = 1 \<or> rr_type rec = 28 then
        (case record_ip v6 (rr_parsed rec) of
           Some ip \<Rightarrow>
             let (found, nc) = lru_get N nc (rr_name rec);
                 existing = (case found of Some ips \<Rightarrow> ips | None \<Rightarrow> [])
             in if ip \<notin> set existing then lru_put N nc (rr_name rec) (existing @ [ip]) else nc
         | None \<Rightarrow> nc)
      else nc)"

definition cacheable :: "resource_record \<Rightarrow> bool" where
  "cacheable rec \<longleftrightarrow> rr_type rec \<noteq> 41 \<and> rr_type rec \<noteq> 46 \<and> rr_type rec \<noteq> 48"

definition cache_response ::
  "('c, 'n, 'd, 'r, 't, 'w) res_env \<Rightarrow> message \<Rightarrow> ('c, 'n, 'd, 'r, 't, 'w, unit) ract" where
  "cache_response E msg =
     act_bind (on_world (e_instants E)) (\<lambda>clock.
       let records = m_answers msg @ m_authorities msg @ m_additionals msg in
       act_bind (on_cache (\<lambda>c. ((), insert_records (e_cache E) clock 0 (filter cacheable records) c))) (\<lambda>_.
       on_ns_cache (\<lambda>nc. ((), fold (remember_address (e_ns E) (e_enable_ipv6 E)) records nc))))"

section \<open>Queries\<close>

definition query_of :: "bytes \<Rightarrow> u16 \<Rightarrow> u16 \<Rightarrow> u16 \<Rightarrow> bool \<Rightarrow> bool \<Rightarrow> message" where
  "query_of name rtype rclass i dnssec_ok recursive =
     \<lparr>m_header = new_query i recursive,
      m_questions = [\<lparr>q_name = name, q_type = rtype, q_class = rclass\<rparr>],
      m_answers = [], m_authorities = [],
      m_additionals = [to_resource_record ((opt_new dnssec_ok)\<lparr>opt_udp_payload_size := of_nat MAX_EDNS_PAYLOAD\<rparr>)]\<rparr>"

definition build_query_static :: "bytes \<Rightarrow> u16 \<Rightarrow> u16 \<Rightarrow> u16 \<Rightarrow> bool \<Rightarrow> bool \<Rightarrow> bytes dns_result" where
  "build_query_static name rtype rclass i dnssec_ok recursive =
     encode_message (query_of name rtype rclass i dnssec_ok recursive)"

section \<open>One server\<close>

definition smoothed_rtt ::
  "('c, 'n, 'd, 'r, 't, 'w) res_env \<Rightarrow> ip_addr \<Rightarrow> f64 \<Rightarrow> nat \<Rightarrow> 'r \<Rightarrow> 'r" where
  "smoothed_rtt E server rtt_ms now rtt =
     (let F = e_f64 E;
          (found, rtt) = lru_get (e_rtt E) rtt server;
          smoothed = (case found of
              Some (avg, _) \<Rightarrow> f_add F (f_mul F avg (f_lit F 7 10)) (f_mul F rtt_ms (f_lit F 3 10))
            | None \<Rightarrow> rtt_ms)
      in lru_put (e_rtt E) rtt server (smoothed, now))"

definition record_rtt ::
  "('c, 'n, 'd, 'r, 't, 'w) res_env \<Rightarrow> ip_addr \<Rightarrow> f64 \<Rightarrow> nat \<Rightarrow> ('c, 'n, 'd, 'r, 't, 'w, unit) ract" where
  "record_rtt E server rtt_ms now =
     act_modify (\<lambda>s. ((), s\<lparr>r_server_rtt := smoothed_rtt E server rtt_ms now (r_server_rtt s)\<rparr>))"

definition elapsed_ms :: "f64_ops \<Rightarrow> nat \<Rightarrow> f64" where
  "elapsed_ms F nanos = f_mul F (f_secs F nanos) (f_lit F 1000 1)"

definition tcp_query ::
  "('c, 'n, 'd, 'r, 't, 'w) res_env \<Rightarrow> bytes \<Rightarrow> ip_addr \<Rightarrow> ('c, 'n, 'd, 'r, 't, 'w, bytes option) ract" where
  "tcp_query E query_bytes server =
     act_bind (on_world (e_instants E)) (\<lambda>clock.
       act_modify (\<lambda>s.
         let (r, p, w) = query_via_tcp_pool (e_tcp E) clock query_bytes server (r_tcp_pool s) (r_world s)
         in (r, s\<lparr>r_tcp_pool := p, r_world := w\<rparr>)))"

definition measure_tcp_rtt ::
  "('c, 'n, 'd, 'r, 't, 'w) res_env \<Rightarrow> bytes \<Rightarrow> ip_addr \<Rightarrow> ('c, 'n, 'd, 'r, 't, 'w, f64 option) ract" where
  "measure_tcp_rtt E query_bytes server =
     act_bind (on_world (e_instants E)) (\<lambda>clock.
     act_bind (on_world (tcp_connect (e_tcp E) server)) (\<lambda>stream.
       case stream of
         None \<Rightarrow> act_return None
       | Some stream \<Rightarrow>
           act_bind (on_world (e_tcp_write_within E (framed query_bytes) stream)) (\<lambda>in_time.
             act_return (if in_time then Some (elapsed_ms (e_f64 E) (clock 1 - clock 0)) else None))))"

text \<open>The receive loop: datagrams with another identifier are skipped.\<close>

fun first_match :: "u16 \<Rightarrow> bytes list \<Rightarrow> message option dns_result" where
  "first_match expected_id [] = Ok None"
| "first_match expected_id (datagram # datagrams) =
     (let buf = take 8192 datagram in
      if length buf \<ge> 2 \<and> be16 (buf ! 0) (buf ! 1) = expected_id then ok_of (decode_message buf)
      else first_match expected_id datagrams)"

definition tcp_fallback ::
  "('c, 'n, 'd, 'r, 't, 'w) res_env \<Rightarrow> bytes \<Rightarrow> ip_addr \<Rightarrow> message \<Rightarrow>
     ('c, 'n, 'd, 'r, 't, 'w, message option option) ract" where
  "tcp_fallback E query_bytes server m =
     (if \<not> h_tc (m_header m) then act_return None
      else
        act_bind (on_world (e_instants E)) (\<lambda>clock.
        act_bind (act_modify (\<lambda>s. ((), s\<lparr>r_truncation_cache :=
            (r_truncation_cache s)(server \<mapsto> clock 0 + TRUNCATION_CACHE_TTL)\<rparr>))) (\<lambda>_.
        act_bind (tcp_query E query_bytes server) (\<lambda>r.
          case r of
            Some tcp_data \<Rightarrow> act_bind (act_lift (ok_of (decode_message tcp_data))) (\<lambda>m. act_return (Some m))
          | None \<Rightarrow> act_return None))))"

definition udp_server_task ::
  "('c, 'n, 'd, 'r, 't, 'w) res_env \<Rightarrow> bytes \<Rightarrow> u16 \<Rightarrow> ip_addr \<Rightarrow>
     ('c, 'n, 'd, 'r, 't, 'w, message option) ract" where
  "udp_server_task E query_bytes expected_id server =
     act_bind (on_world (e_instants E)) (\<lambda>clock.
     act_bind (on_world (e_udp E query_bytes server)) (\<lambda>received.
       case received of
         None \<Rightarrow> act_return None
       | Some datagrams \<Rightarrow>
           act_bind (act_lift (first_match expected_id datagrams)) (\<lambda>msg.
             case msg of
               None \<Rightarrow> act_return None
             | Some m \<Rightarrow>
                 act_bind (tcp_fallback E query_bytes server m) (\<lambda>over_tcp.
                   case over_tcp of
                     Some result \<Rightarrow> act_return result
                   | None \<Rightarrow>
                       act_bind (record_rtt E server (elapsed_ms (e_f64 E) (clock 1 - clock 0)) (clock 2)) (\<lambda>_.
                       act_return msg)))))"

definition tcp_server_task ::
  "('c, 'n, 'd, 'r, 't, 'w) res_env \<Rightarrow> bytes \<Rightarrow> ip_addr \<Rightarrow> ('c, 'n, 'd, 'r, 't, 'w, message option) ract" where
  "tcp_server_task E query_bytes server =
     act_bind (tcp_query E query_bytes server) (\<lambda>r.
       case r of
         None \<Rightarrow> act_return None
       | Some tcp_data \<Rightarrow>
           act_bind (act_lift (ok_of (decode_message tcp_data))) (\<lambda>decoded.
             case decoded of
               None \<Rightarrow> act_return None
             | Some m \<Rightarrow>
                 act_bind (measure_tcp_rtt E query_bytes server) (\<lambda>rtt.
                 act_bind (on_world (e_instants E)) (\<lambda>clock.
                 act_bind (case rtt of Some rtt_ms \<Rightarrow> record_rtt E server rtt_ms (clock 0) | None \<Rightarrow> act_return ())
                   (\<lambda>_. act_return (Some m))))))"

definition server_task ::
  "('c, 'n, 'd, 'r, 't, 'w) res_env \<Rightarrow> bytes \<Rightarrow> u16 \<Rightarrow> ip_addr \<Rightarrow>
     ('c, 'n, 'd, 'r, 't, 'w, message option) ract" where
  "server_task E query_bytes expected_id server s =
     (if r_truncation_cache s server \<noteq> None then tcp_server_task E query_bytes server s
      else udp_server_task E query_bytes expected_id server s)"

section \<open>A set of servers\<close>

definition rtt_of :: "('c, 'n, 'd, 'r, 't, 'w) res_env \<Rightarrow> nat \<Rightarrow> 'r \<Rightarrow> ip_addr \<Rightarrow> f64" where
  "rtt_of E default_ms rtt server =
     (case fst (lru_get (e_rtt E) rtt server) of Some (r, _) \<Rightarrow> r | None \<Rightarrow> f_lit (e_f64 E) default_ms 1)"

fun insert_by :: "('a \<Rightarrow> 'a \<Rightarrow> bool) \<Rightarrow> 'a \<Rightarrow> 'a list \<Rightarrow> 'a list" where
  "insert_by precedes x [] = [x]"
| "insert_by precedes x (y # ys) = (if precedes x y then x # y # ys else y # insert_by precedes x ys)"

definition sort_by :: "('a \<Rightarrow> 'a \<Rightarrow> bool) \<Rightarrow> 'a list \<Rightarrow> 'a list" where
  "sort_by precedes xs = fold (insert_by precedes) xs []"

definition sorted_servers ::
  "('c, 'n, 'd, 'r, 't, 'w) res_env \<Rightarrow> nat \<Rightarrow> ip_addr list \<Rightarrow> ('c, 'n, 'd, 'r, 't, 'w, ip_addr list) ract" where
  "sorted_servers E default_ms servers =
     act_bind (on_world (e_touched E servers)) (\<lambda>touched.
       act_modify (\<lambda>s.
         let rtt = r_server_rtt s;
             by_rtt = sort_by (\<lambda>a b. f_lt (e_f64 E) (rtt_of E default_ms rtt a) (rtt_of E default_ms rtt b)) servers
         in (by_rtt, s\<lparr>r_server_rtt := fold (\<lambda>k rtt. snd (lru_get (e_rtt E) rtt k))
              (filter (\<lambda>k. k \<in> set servers) touched) rtt\<rparr>)))"

text \<open>A permutation of a list, from any list of numbers.\<close>

fun reorder :: "nat list \<Rightarrow> 'a list \<Rightarrow> 'a list" where
  "reorder [] xs = xs"
| "reorder (i # is) xs =
     (if i < length xs then xs ! i # reorder is (take i xs @ drop (i + 1) xs) else reorder is xs)"

text \<open>
  The \<open>select_all\<close> loop over the tasks in the order in which they end.  A task that panics counts as
  one without an answer; a task that never ends is waited for when no other one has an answer.
\<close>

fun select_loop ::
  "('c, 'n, 'd, 'r, 't, 'w) res_env \<Rightarrow> bytes \<Rightarrow> u16 \<Rightarrow> bool \<Rightarrow> ip_addr list \<Rightarrow>
     ('c, 'n, 'd, 'r, 't, 'w, message option) ract" where
  "select_loop E query_bytes expected_id hanging [] s = (if hanging then (Diverge, s) else (Ok None, s))"
| "select_loop E query_bytes expected_id hanging (server # servers) s =
     (case server_task E query_bytes expected_id server s of
        (Ok (Some msg), s) \<Rightarrow>
          (Ok (Some msg), s\<lparr>r_pending := r_pending s @ map (\<lambda>srv. (srv, query_bytes, expected_id)) servers\<rparr>)
      | (Diverge, s) \<Rightarrow> select_loop E query_bytes expected_id True servers s
      | (_, s) \<Rightarrow> select_loop E query_bytes expected_id hanging servers s)"

definition query_servers_concurrent ::
  "('c, 'n, 'd, 'r, 't, 'w) res_env \<Rightarrow> bytes \<Rightarrow> u16 \<Rightarrow> ip_addr list \<Rightarrow>
     ('c, 'n, 'd, 'r, 't, 'w, message option) ract" where
  "query_servers_concurrent E query_bytes expected_id servers =
     (if servers = [] then act_return None
      else
        act_bind (sorted_servers E DEFAULT_RTT_MS servers) (\<lambda>sorted_servers.
        act_bind (on_world (e_order E (length sorted_servers))) (\<lambda>order.
          select_loop E query_bytes expected_id False (reorder order sorted_servers))))"

definition query_rd1 ::
  "('c, 'n, 'd, 'r, 't, 'w) res_env \<Rightarrow> bytes \<Rightarrow> u16 \<Rightarrow> u16 \<Rightarrow> ip_addr list \<Rightarrow>
     ('c, 'n, 'd, 'r, 't, 'w, message option) ract" where
  "query_rd1 E name rtype rclass servers =
     (if servers = [] then act_return None
      else
        act_bind (on_world (e_random E)) (\<lambda>i.
        act_bind (act_lift (ok_of (build_query_static name rtype rclass i True True))) (\<lambda>q.
          case q of
            None \<Rightarrow> act_return None
          | Some query_bytes \<Rightarrow> query_servers_concurrent E query_bytes i servers)))"

section \<open>Reading signatures\<close>

fun rrsig_type_covered_of :: "rdata option \<Rightarrow> u16 option" where
  "rrsig_type_covered_of (Some (RD_RRSIG type_covered _ _ _ _ _ _ _ _)) = Some type_covered"
| "rrsig_type_covered_of _ = None"

definition rrsig_type_covered :: "resource_record \<Rightarrow> u16 option" where
  "rrsig_type_covered r =
     (case rrsig_type_covered_of (rr_parsed r) of
        Some t \<Rightarrow> Some t
      | None \<Rightarrow>
          if rr_type r = 46 \<and> length (rr_rdata r) \<ge> 2 then Some (be16 (rr_rdata r ! 0) (rr_rdata r ! 1)) else None)"

text \<open>The signer name of unparsed RDATA, behind its 18 bytes of fixed fields.\<close>

function raw_name :: "bytes \<Rightarrow> bytes" where
  "raw_name [] = []"
| "raw_name (b # rest) =
     (if b = 0 then [0]
      else if unat b > length rest then []
      else b # take (unat b) rest @ raw_name (drop (unat b) rest))"
  by pat_completeness auto
termination
  by (relation "measure length") auto

definition rrsig_signer_name :: "resource_record \<Rightarrow> bytes option" where
  "rrsig_signer_name r =
     (case rrsig_signer (rr_parsed r) of
        Some signer_name \<Rightarrow> Some signer_name
      | None \<Rightarrow>
          if rr_type r = 46 \<and> length (rr_rdata r) > 18 then
            let name = raw_name (drop 18 (rr_rdata r)) in
            if name \<noteq> [] then Some name else None
          else None)"

section \<open>Validation of an answer\<close>

text \<open>Both loops of \<open>validate_dnssec\<close>: the first result that is neither secure nor indeterminate ends them.\<close>

fun validate_each ::
  "crypto \<Rightarrow> (nat \<Rightarrow> nat) \<Rightarrow> nat \<Rightarrow> resource_record list \<Rightarrow> resource_record list \<Rightarrow> resource_record list \<Rightarrow>
     validation_result option" where
  "validate_each C now i records dnskeys [] = None"
| "validate_each C now i records dnskeys (rrsig # rrsigs) =
     (case validate_rrset C (now i) rrsig records dnskeys of
        VR_Secure \<Rightarrow> validate_each C now (i + 1) records dnskeys rrsigs
      | VR_Indeterminate \<Rightarrow> validate_each C now (i + 1) records dnskeys rrsigs
      | other \<Rightarrow> Some other)"

definition validate_dnssec ::
  "crypto \<Rightarrow> (nat \<Rightarrow> nat) \<Rightarrow> bool \<Rightarrow> resource_record list \<Rightarrow> resource_record list \<Rightarrow> resource_record list \<Rightarrow>
     validation_result" where
  "validate_dnssec C now dnssec_ok records rrsigs dnskeys =
     (if \<not> dnssec_ok then VR_Indeterminate
      else if rrsigs = [] \<or> dnskeys = [] then VR_Indeterminate
      else
        let over_answer = filter (\<lambda>r. rrsig_type_covered r \<noteq> Some 48) rrsigs;
            over_keys = filter (\<lambda>r. rrsig_type_covered r = Some 48) rrsigs
        in case validate_each C now 0 records dnskeys over_answer of
             Some other \<Rightarrow> other
           | None \<Rightarrow>
               (case validate_each C now (length over_answer) dnskeys dnskeys over_keys of
                  Some other \<Rightarrow> other
                | None \<Rightarrow> VR_Secure))"

end
