(* ===== verification/Resolver.thy ===== *)
theory Resolver
  imports Resolver_State
begin

text \<open>
  Resolution (\<open>src/src/resolver/recursive.rs\<close>): the entry points \<open>resolve_with_ad\<close>, \<open>resolve\<close>,
  \<open>resolve_dnssec\<close> and the DoH fallback, the loop \<open>resolve_recursive\<close> with its referrals, CNAMEs and
  DNSSEC checks, and the chain-of-trust walk over the network.

  \<open>resolve_recursive\<close> calls itself at a greater depth for a CNAME and for the addresses of name servers,
  and through \<open>resolve\<close> at depth zero for the DNSKEY records a validation needs.  The second kind of
  call is not bounded by the code, so the function takes fuel: a call without fuel has the outcome
  \<open>Diverge\<close>.  The methods that call it take it as the argument \<open>rr\<close>.
\<close>

section \<open>Entry points\<close>

type_synonym ('c, 'n, 'd, 'r, 't, 'w) resolve_fn =
  "nat option \<Rightarrow> bool \<Rightarrow> bytes \<Rightarrow> u16 \<Rightarrow> u16 \<Rightarrow> nat \<Rightarrow> bool \<Rightarrow>
     ('c, 'n, 'd, 'r, 't, 'w, resource_record list \<times> bool) ract"
  \<comment> \<open>iterations before the deadline, DNSSEC, name, type, class, depth, QNAME minimisation\<close>

definition resolve_dnssec ::
  "('c, 'n, 'd, 'r, 't, 'w) res_env \<Rightarrow> string \<Rightarrow> u16 \<Rightarrow> u16 \<Rightarrow> ('c, 'n, 'd, 'r, 't, 'w, resource_record list) ract" where
  "resolve_dnssec E name rtype rclass =
     act_bind (act_lift (ok_of (encode_domain_name name))) (\<lambda>r.
       case r of
         None \<Rightarrow> act_return []
       | Some encoded \<Rightarrow>
           act_bind (on_world (e_instants E)) (\<lambda>clock.
           act_bind (on_cache (cache_lookup (e_cache E) clock encoded rtype rclass)) (\<lambda>hit.
             act_return (case hit of Some (records, _) \<Rightarrow> records | None \<Rightarrow> []))))"

definition spawn_refresh ::
  "string \<Rightarrow> u16 \<Rightarrow> u16 \<Rightarrow> ('c, 'n, 'd, 'r, 't, 'w, unit) ract" where
  "spawn_refresh name rtype rclass =
     act_modify (\<lambda>s. ((), s\<lparr>r_spawned := r_spawned s @ [(name, rtype, rclass)]\<rparr>))"

text \<open>The statistics after a resolution that took \<open>ms\<close> milliseconds.\<close>

definition timed_stats :: "f64_ops \<Rightarrow> f64 \<Rightarrow> resolver_stats \<Rightarrow> resolver_stats" where
  "timed_stats F ms st =
     (let st = st\<lparr>rs_total_queries := rs_total_queries st + 1\<rparr>;
          st = st\<lparr>rs_avg_resolve_time_ms :=
                 (if rs_total_queries st \<le> 1 then ms
                  else f_add F (f_mul F (rs_avg_resolve_time_ms st) (f_lit F 95 100)) (f_mul F ms (f_lit F 5 100)))\<rparr>;
          st = (if f_eq F (rs_min_resolve_time_ms st) (f_lit F 0 1) \<or> f_lt F ms (rs_min_resolve_time_ms st)
                then st\<lparr>rs_min_resolve_time_ms := ms\<rparr> else st)
      in if f_lt F (rs_max_resolve_time_ms st) ms then st\<lparr>rs_max_resolve_time_ms := ms\<rparr> else st)"

definition store_fresh ::
  "('c, 'n, 'd, 'r, 't, 'w) res_env \<Rightarrow> resource_record list \<Rightarrow> ('c, 'n, 'd, 'r, 't, 'w, unit) ract" where
  "store_fresh E records =
     act_bind (on_world (e_instants E)) (\<lambda>clock.
       on_cache (\<lambda>c. ((), insert_records (e_cache E) clock 0 records c)))"

text \<open>Serve-stale: refresh under a deadline, and on failure the stale records.\<close>

definition resolve_recursive_stale ::
  "('c, 'n, 'd, 'r, 't, 'w) res_env \<Rightarrow> ('c, 'n, 'd, 'r, 't, 'w) resolve_fn \<Rightarrow> bool \<Rightarrow> bytes \<Rightarrow> u16 \<Rightarrow> u16 \<Rightarrow>
     ('c, 'n, 'd, 'r, 't, 'w, resource_record list \<times> bool) ract" where
  "resolve_recursive_stale E rr dnssec_ok name rtype rclass =
     act_bind (on_world (e_deadline E)) (\<lambda>deadline. rr deadline dnssec_ok name rtype rclass 0 True)"

definition refresh_stale ::
  "('c, 'n, 'd, 'r, 't, 'w) res_env \<Rightarrow> ('c, 'n, 'd, 'r, 't, 'w) resolve_fn \<Rightarrow> bool \<Rightarrow> bytes \<Rightarrow> u16 \<Rightarrow> u16 \<Rightarrow>
     resource_record list \<Rightarrow> ('c, 'n, 'd, 'r, 't, 'w, resource_record list \<times> bool) ract" where
  "refresh_stale E rr dnssec_ok encoded_name rtype rclass stale =
     act_bind (act_try (resolve_recursive_stale E rr dnssec_ok encoded_name rtype rclass)) (\<lambda>refresh.
       case refresh of
         Inr (fresh, _) \<Rightarrow>
           act_bind (store_fresh E fresh) (\<lambda>_. act_return (fresh, False))
       | Inl e \<Rightarrow>
           act_bind (on_stats (\<lambda>st. st\<lparr>rs_served_stale := rs_served_stale st + 1\<rparr>)) (\<lambda>_.
           act_return (stale, False)))"

definition resolve_fresh ::
  "('c, 'n, 'd, 'r, 't, 'w) res_env \<Rightarrow> ('c, 'n, 'd, 'r, 't, 'w) resolve_fn \<Rightarrow> bool \<Rightarrow> nat \<Rightarrow> bytes \<Rightarrow> u16 \<Rightarrow> u16 \<Rightarrow>
     ('c, 'n, 'd, 'r, 't, 'w, resource_record list \<times> bool) ract" where
  "resolve_fresh E rr dnssec_ok start encoded_name rtype rclass =
     act_bind (act_try (rr None dnssec_ok encoded_name rtype rclass 0 True)) (\<lambda>result.
     act_bind (on_world (e_instants E)) (\<lambda>clock.
     act_bind (on_stats (timed_stats (e_f64 E) (elapsed_ms (e_f64 E) (clock 0 - start)))) (\<lambda>_.
       case result of
         Inr (records, ad) \<Rightarrow> act_bind (store_fresh E records) (\<lambda>_. act_return (records, ad))
       | Inl e \<Rightarrow>
           act_bind (on_stats (\<lambda>st. st\<lparr>rs_failed_queries := rs_failed_queries st + 1\<rparr>)) (\<lambda>_.
           act_lift (Err e)))))"

definition resolve_with_ad_by ::
  "('c, 'n, 'd, 'r, 't, 'w) res_env \<Rightarrow> ('c, 'n, 'd, 'r, 't, 'w) resolve_fn \<Rightarrow> bool \<Rightarrow> string \<Rightarrow> u16 \<Rightarrow> u16 \<Rightarrow>
     ('c, 'n, 'd, 'r, 't, 'w, resource_record list \<times> bool) ract" where
  "resolve_with_ad_by E rr dnssec_ok name rtype rclass =
     act_bind (on_world (e_instants E)) (\<lambda>start.
     act_bind (act_lift (encode_domain_name name)) (\<lambda>encoded_name.
     act_bind (on_world (e_instants E)) (\<lambda>clock.
     act_bind (on_cache (cache_lookup (e_cache E) clock encoded_name rtype rclass)) (\<lambda>hit.
       case hit of
         Some (records, ttl) \<Rightarrow>
           act_bind (on_stats (\<lambda>st. st\<lparr>rs_cache_hits := rs_cache_hits st + 1,
               rs_total_queries := rs_total_queries st + 1\<rparr>)) (\<lambda>_.
           act_bind (if ttl < 120 then spawn_refresh name rtype rclass else act_return ()) (\<lambda>_.
           act_return (records, False)))
       | None \<Rightarrow>
           act_bind (on_stats (\<lambda>st. st\<lparr>rs_cache_misses := rs_cache_misses st + 1\<rparr>)) (\<lambda>_.
           act_bind (on_world (e_instants E)) (\<lambda>clock.
           act_bind (on_cache (lookup_stale (e_cache E) (clock 0) encoded_name rtype rclass)) (\<lambda>stale_records.
             case stale_records of
               Some stale \<Rightarrow> refresh_stale E rr dnssec_ok encoded_name rtype rclass stale
             | None \<Rightarrow> resolve_fresh E rr dnssec_ok (start 0) encoded_name rtype rclass)))))))"

definition resolve_by ::
  "('c, 'n, 'd, 'r, 't, 'w) res_env \<Rightarrow> ('c, 'n, 'd, 'r, 't, 'w) resolve_fn \<Rightarrow> bool \<Rightarrow> string \<Rightarrow> u16 \<Rightarrow> u16 \<Rightarrow>
     ('c, 'n, 'd, 'r, 't, 'w, resource_record list) ract" where
  "resolve_by E rr dnssec_ok name rtype rclass =
     act_bind (resolve_with_ad_by E rr dnssec_ok name rtype rclass) (\<lambda>(records, ad). act_return records)"

section \<open>The chain of trust over the network\<close>

definition of_type :: "u16 \<Rightarrow> resource_record list \<Rightarrow> resource_record list" where
  "of_type t records = filter (\<lambda>r. rr_type r = t) records"

fun glue_ip :: "rdata option \<Rightarrow> ip_addr list" where
  "glue_ip (Some (RD_A ip)) = [V4 ip]"
| "glue_ip (Some (RD_AAAA ip)) = [V6 ip]"
| "glue_ip _ = []"

fun ns_target :: "rdata option \<Rightarrow> bytes option" where
  "ns_target (Some (RD_NS name)) = Some name"
| "ns_target _ = None"

text \<open>The loop of \<open>get_nameservers_for_zone\<close> over the NS records of a referral.\<close>

fun zone_server_ips ::
  "(bytes, ip_addr list, 'n) lru_ops \<Rightarrow> resource_record list \<Rightarrow> resource_record list \<Rightarrow> ip_addr list \<Rightarrow> 'n \<Rightarrow>
     ip_addr list \<times> 'n" where
  "zone_server_ips N additionals [] ips nc = (ips, nc)"
| "zone_server_ips N additionals (ns # ns_records) ips nc =
     (case ns_target (rr_parsed ns) of
        None \<Rightarrow> zone_server_ips N additionals ns_records ips nc
      | Some ns_name \<Rightarrow>
          let glue = filter (\<lambda>r. domain_names_equal (rr_name r) ns_name \<and> (rr_type r = 1 \<or> rr_type r = 28)) additionals;
              ips = ips @ concat (map (\<lambda>g. glue_ip (rr_parsed g)) glue)
          in if ips = [] then
               (case lru_get N nc ns_name of
                  (Some cached_ips, nc) \<Rightarrow> zone_server_ips N additionals ns_records (ips @ cached_ips) nc
                | (None, nc) \<Rightarrow> zone_server_ips N additionals ns_records ips nc)
             else zone_server_ips N additionals ns_records ips nc)"

definition ask_roots_for_ns ::
  "('c, 'n, 'd, 'r, 't, 'w) res_env \<Rightarrow> bytes \<Rightarrow> ('c, 'n, 'd, 'r, 't, 'w, ip_addr list) ract" where
  "ask_roots_for_ns E zone =
     act_bind (on_world (e_random E)) (\<lambda>i.
     act_bind (act_lift (ok_of (build_query_static zone 2 1 i False False))) (\<lambda>q.
       case q of
         None \<Rightarrow> act_return []
       | Some query_bytes \<Rightarrow>
           act_bind (query_servers_concurrent E query_bytes i initial_root_addrs) (\<lambda>ns.
             case ns of
               None \<Rightarrow> act_return []
             | Some msg \<Rightarrow>
                 on_ns_cache (zone_server_ips (e_ns E) (m_additionals msg) (of_type 2 (m_authorities msg)) []))))"

definition get_nameservers_for_zone ::
  "('c, 'n, 'd, 'r, 't, 'w) res_env \<Rightarrow> bytes \<Rightarrow> ('c, 'n, 'd, 'r, 't, 'w, ip_addr list) ract" where
  "get_nameservers_for_zone E zone =
     act_bind (cached_delegation E zone) (\<lambda>deleg.
       case deleg of
         Some servers \<Rightarrow> act_return servers
       | None \<Rightarrow>
           act_bind (on_ns_cache (\<lambda>nc. lru_get (e_ns E) nc zone)) (\<lambda>cached.
             case cached of
               Some ips \<Rightarrow> act_return ips
             | None \<Rightarrow>
                 if is_root_zone zone then act_return initial_root_addrs else ask_roots_for_ns E zone))"

text \<open>Ask the servers of \<open>zone\<close> about \<open>name\<close>, with DNSSEC: the common part of the next two methods.\<close>

definition ask_zone ::
  "('c, 'n, 'd, 'r, 't, 'w) res_env \<Rightarrow> bytes \<Rightarrow> u16 \<Rightarrow> bytes \<Rightarrow> ('c, 'n, 'd, 'r, 't, 'w, message option) ract" where
  "ask_zone E name rtype zone =
     act_bind (on_world (e_random E)) (\<lambda>i.
     act_bind (act_lift (ok_of (build_query_static name rtype 1 i True False))) (\<lambda>q.
       case q of
         None \<Rightarrow> act_return None
       | Some query_bytes \<Rightarrow>
           act_bind (get_nameservers_for_zone E zone) (\<lambda>nameservers.
             if nameservers = [] then act_return None
             else query_servers_concurrent E query_bytes i nameservers)))"

definition query_ds_records ::
  "('c, 'n, 'd, 'r, 't, 'w) res_env \<Rightarrow> bytes \<Rightarrow> bytes \<Rightarrow>
     ('c, 'n, 'd, 'r, 't, 'w, (resource_record list \<times> resource_record list \<times> resource_record list) option) ract" where
  "query_ds_records E child_name zone =
     act_bind (ask_zone E child_name 43 zone) (\<lambda>r.
       act_return (case r of
           None \<Rightarrow> None
         | Some msg \<Rightarrow>
             let ds_records = of_type 43 (m_answers msg) in
             if ds_records = [] then None
             else Some (ds_records, of_type 46 (m_answers msg @ m_authorities msg),
                    of_type 48 (m_authorities msg @ m_additionals msg))))"

definition first_signer :: "bytes \<Rightarrow> resource_record list \<Rightarrow> bytes" where
  "first_signer zone rrsigs =
     (case rrsigs of
        rrsig # _ \<Rightarrow> (case rrsig_signer (rr_parsed rrsig) of Some signer_name \<Rightarrow> signer_name | None \<Rightarrow> zone)
      | [] \<Rightarrow> zone)"

definition query_dnskey_records ::
  "('c, 'n, 'd, 'r, 't, 'w) res_env \<Rightarrow> bytes \<Rightarrow>
     ('c, 'n, 'd, 'r, 't, 'w, (resource_record list \<times> resource_record list \<times> bytes) option) ract" where
  "query_dnskey_records E zone =
     act_bind (ask_zone E zone 48 zone) (\<lambda>r.
       act_return (case r of
           None \<Rightarrow> None
         | Some msg \<Rightarrow>
             let dnskeys = of_type 48 (m_answers msg);
                 dnskey_rrsigs = of_type 46 (m_answers msg @ m_authorities msg)
             in if dnskeys = [] then None else Some (dnskeys, dnskey_rrsigs, first_signer zone dnskey_rrsigs)))"

text \<open>The loop over the signatures of the DS records: anything but secure or indeterminate is bogus.\<close>

fun result_debug :: "validation_result \<Rightarrow> string" where
  "result_debug VR_Secure = ''Secure''"
| "result_debug VR_Insecure = ''Insecure''"
| "result_debug (VR_Bogus reason) = ''Bogus('' @ [CHR 0x22] @ reason @ [CHR 0x22] @ '')''"
| "result_debug VR_Indeterminate = ''Indeterminate''"

function validate_dnssec_chain ::
  "('c, 'n, 'd, 'r, 't, 'w) res_env \<Rightarrow> bytes \<Rightarrow> resource_record list \<Rightarrow> resource_record list \<Rightarrow> bytes \<Rightarrow> nat \<Rightarrow>
     ('c, 'n, 'd, 'r, 't, 'w, validation_result) ract" where
  "validate_dnssec_chain E zone_name dnskeys rrsigs signer_name depth =
     (if depth > 10 then act_return (VR_Bogus ''Chain-of-trust depth exceeded'')
      else if filter (\<lambda>r. rrsig_type_covered r = Some 48) rrsigs = []
      then act_return (VR_Bogus ''No DNSKEY RRSIG found for chain validation'')
      else if is_root_zone zone_name \<or> is_root_zone signer_name then
        act_return (if validate_dnskeys_against_root_anchor dnskeys then VR_Secure
                    else VR_Bogus ''Root DNSKEY does not match trust anchor'')
      else
        let up = (case parent_zone zone_name of Some p \<Rightarrow> p | None \<Rightarrow> [0]) in
        act_bind (query_ds_records E zone_name up) (\<lambda>ds_result.
        case ds_result of
          None \<Rightarrow> act_return VR_Insecure
        | Some (ds_records, ds_rrsigs, parent_dnskeys) \<Rightarrow>
            if \<not> validate_dnskeys_against_ds (e_crypto E) dnskeys ds_records
            then act_return (VR_Bogus (''No DNSKEY for '' @ labels_to_string zone_name @ '' matches parent DS records''))
            else
              act_bind (on_world (e_unix E)) (\<lambda>now.
              case validate_each (e_crypto E) now 0 ds_records parent_dnskeys ds_rrsigs of
                Some other \<Rightarrow>
                  act_return (VR_Bogus (''DS RRSIG validation failed for '' @ labels_to_string zone_name @ '': '' @
                    result_debug other))
              | None \<Rightarrow>
                act_bind (query_dnskey_records E up) (\<lambda>parent_result.
                case parent_result of
                  None \<Rightarrow>
                    act_return (if is_root_zone up \<and> validate_dnskeys_against_root_anchor parent_dnskeys
                                then VR_Secure else VR_Indeterminate)
                | Some (keys, key_rrsigs, signer) \<Rightarrow>
                    validate_dnssec_chain E up keys key_rrsigs (first_signer up key_rrsigs) (depth + 1)))))"
  by pat_completeness auto
termination
  by (relation "measure (\<lambda>(E, z, k, r, sg, depth). 11 - depth)") auto

declare validate_dnssec_chain.simps [simp del]

section \<open>Negative answers\<close>

definition validate_negative_dnssec_response ::
  "('c, 'n, 'd, 'r, 't, 'w) res_env \<Rightarrow> ('c, 'n, 'd, 'r, 't, 'w) resolve_fn \<Rightarrow> bool \<Rightarrow> message \<Rightarrow> bytes \<Rightarrow> u16 \<Rightarrow> u16 \<Rightarrow>
     ('c, 'n, 'd, 'r, 't, 'w, bool \<times> resource_record list) ract" where
  "validate_negative_dnssec_response E rr dnssec_ok msg name rclass qtype =
     (let soa_records = of_type 6 (m_authorities msg);
          rrsigs = of_type 46 (m_authorities msg);
          nsec_records = of_type 47 (m_authorities msg);
          nsec3_records = of_type 50 (m_authorities msg)
      in if \<not> dnssec_ok \<or> rrsigs = [] then act_return (False, soa_records)
         else
           let zone_name = (case soa_records of r # _ \<Rightarrow> rr_name r | [] \<Rightarrow> name) in
           act_bind (act_try (resolve_by E rr dnssec_ok (labels_to_string zone_name) 48 rclass)) (\<lambda>resolved.
             let dnskeys = (case resolved of Inr records \<Rightarrow> records | Inl e \<Rightarrow> []) in
             if dnskeys = [] then act_return (False, soa_records)
             else act_return
               (validate_negative_dnssec soa_records nsec_records nsec3_records rrsigs dnskeys name qtype = VR_Secure,
                soa_records)))"

section \<open>Positive answers\<close>

definition rd1_material ::
  "('c, 'n, 'd, 'r, 't, 'w) res_env \<Rightarrow> bytes \<Rightarrow> u16 \<Rightarrow> u16 \<Rightarrow> ip_addr list \<Rightarrow>
     resource_record list \<times> resource_record list \<Rightarrow>
     ('c, 'n, 'd, 'r, 't, 'w, resource_record list \<times> resource_record list) ract" where
  "rd1_material E name rtype rclass nameservers material =
     (let (rrsigs, dnskeys) = material in
      if (rrsigs = [] \<or> dnskeys = []) \<and> nameservers \<noteq> [] then
        act_bind (query_rd1 E name rtype rclass nameservers) (\<lambda>r.
          act_return (case r of
              None \<Rightarrow> (rrsigs, dnskeys)
            | Some m \<Rightarrow>
                let rd1_rrsigs = of_type 46 (m_answers m @ m_authorities m);
                    rd1_dnskeys = of_type 48 (m_answers m @ m_authorities m)
                in if rd1_rrsigs \<noteq> [] \<or> rd1_dnskeys \<noteq> []
                   then (if rrsigs = [] then rd1_rrsigs else rrsigs, if dnskeys = [] then rd1_dnskeys else dnskeys)
                   else (rrsigs, dnskeys)))
      else act_return (rrsigs, dnskeys))"

fun merge_key_rrsigs :: "resource_record list \<Rightarrow> resource_record list \<Rightarrow> resource_record list" where
  "merge_key_rrsigs rrsigs [] = rrsigs"
| "merge_key_rrsigs rrsigs (rr # cached) =
     merge_key_rrsigs
       (if rrsig_type_covered rr = Some 48 \<and>
           \<not> list_ex (\<lambda>r. rr_type r = 46 \<and> rr_name r = rr_name rr \<and> rr_rdata r = rr_rdata rr) rrsigs
        then rrsigs @ [rr] else rrsigs) cached"

definition key_material ::
  "('c, 'n, 'd, 'r, 't, 'w) res_env \<Rightarrow> ('c, 'n, 'd, 'r, 't, 'w) resolve_fn \<Rightarrow> bool \<Rightarrow> bytes \<Rightarrow> u16 \<Rightarrow>
     resource_record list \<times> resource_record list \<Rightarrow>
     ('c, 'n, 'd, 'r, 't, 'w, resource_record list \<times> resource_record list) ract" where
  "key_material E rr dnssec_ok name rclass material =
     (let (rrsigs, dnskeys) = material in
      if rrsigs \<noteq> [] \<and> dnskeys = [] then
        let zone_labels = (case List.map_filter (\<lambda>r. rrsig_signer (rr_parsed r)) rrsigs of
                signer_name # _ \<Rightarrow> signer_name | [] \<Rightarrow> name);
            zone_str = labels_to_string zone_labels
        in act_bind (act_try (resolve_by E rr dnssec_ok zone_str 48 rclass)) (\<lambda>resolved.
             case resolved of
               Inr records \<Rightarrow>
                 if records \<noteq> [] then
                   act_bind (resolve_dnssec E zone_str 46 rclass) (\<lambda>cached.
                     act_return (merge_key_rrsigs rrsigs cached, records))
                 else act_return (rrsigs, dnskeys)
             | Inl e \<Rightarrow> act_return (rrsigs, dnskeys))
      else act_return (rrsigs, dnskeys))"

text \<open>The loop that looks for cached DS records of the zones above a name.\<close>

fun parent_has_ds ::
  "('c, 'n, 'd, 'r, 't, 'w) res_env \<Rightarrow> bytes \<Rightarrow> u16 \<Rightarrow> nat \<Rightarrow> ('c, 'n, 'd, 'r, 't, 'w, bool) ract" where
  "parent_has_ds E name rclass 0 = act_return False"
| "parent_has_ds E name rclass (Suc n) =
     (if Suc n < 2 then act_return False
      else
        act_bind (act_lift (name_prefix name (Suc n))) (\<lambda>zone_bytes.
        act_bind (resolve_dnssec E (labels_to_string zone_bytes) 43 rclass) (\<lambda>ds_records.
          if ds_records \<noteq> [] then act_return True else parent_has_ds E name rclass n)))"

definition judge_answer ::
  "('c, 'n, 'd, 'r, 't, 'w) res_env \<Rightarrow> bool \<Rightarrow> bytes \<Rightarrow> u16 \<Rightarrow> nat \<Rightarrow> resource_record list \<Rightarrow>
     resource_record list \<Rightarrow> resource_record list \<Rightarrow> ('c, 'n, 'd, 'r, 't, 'w, bool) ract" where
  "judge_answer E dnssec_ok name rclass total_labels direct rrsigs dnskeys =
     act_bind (on_world (e_unix E)) (\<lambda>now.
       case validate_dnssec (e_crypto E) now dnssec_ok direct rrsigs dnskeys of
         VR_Secure \<Rightarrow> act_return True
       | VR_Bogus reason \<Rightarrow>
           act_lift (Err (Malformed ''DNSSEC validation failed: signature invalid or expired''))
       | VR_Insecure \<Rightarrow> act_return False
       | VR_Indeterminate \<Rightarrow>
           if dnskeys \<noteq> [] \<and> rrsigs = []
           then act_lift (Err (Malformed ''DNSSEC: DNSKEYs without RRSIGs for signed zone''))
           else if rrsigs = [] \<and> total_labels \<ge> 2 then
             act_bind (parent_has_ds E name rclass (total_labels - 1)) (\<lambda>found.
               if found then act_lift (Err (Malformed ''DNSSEC: signed zone returned unsigned answer''))
               else act_return False)
           else act_return False)"

text \<open>The walk up the chain of trust, whose result is only logged.\<close>

definition chain_check ::
  "('c, 'n, 'd, 'r, 't, 'w) res_env \<Rightarrow> resource_record list \<Rightarrow> resource_record list \<Rightarrow>
     ('c, 'n, 'd, 'r, 't, 'w, unit) ract" where
  "chain_check E rrsigs dnskeys =
     (case (dnskeys, filter (\<lambda>r. rrsig_type_covered r = Some 48) rrsigs) of
        (dnskey # _, rrsig # _) \<Rightarrow>
          let zone = rr_name dnskey;
              signer = (case rrsig_signer_name rrsig of Some n \<Rightarrow> n | None \<Rightarrow> zone)
          in act_bind (validate_dnssec_chain E zone dnskeys rrsigs signer 0) (\<lambda>_. act_return ())
      | _ \<Rightarrow> act_return ())"

definition check_direct ::
  "('c, 'n, 'd, 'r, 't, 'w) res_env \<Rightarrow> ('c, 'n, 'd, 'r, 't, 'w) resolve_fn \<Rightarrow> bool \<Rightarrow> bytes \<Rightarrow> u16 \<Rightarrow> u16 \<Rightarrow> nat \<Rightarrow>
     ip_addr list \<Rightarrow> message \<Rightarrow> resource_record list \<Rightarrow> ('c, 'n, 'd, 'r, 't, 'w, bool) ract" where
  "check_direct E rr dnssec_ok name rtype rclass total_labels nameservers msg direct =
     (let is_dnssec_meta = (rtype = 46 \<or> rtype = 48 \<or> rtype = 43) in
      if dnssec_ok \<and> \<not> is_dnssec_meta then
        let found = (of_type 46 (m_answers msg @ m_authorities msg), of_type 48 (m_answers msg @ m_authorities msg)) in
        act_bind (rd1_material E name rtype rclass nameservers found) (\<lambda>material.
        act_bind (key_material E rr dnssec_ok name rclass material) (\<lambda>(rrsigs, dnskeys).
        act_bind (judge_answer E dnssec_ok name rclass total_labels direct rrsigs dnskeys) (\<lambda>ad_bit.
        act_bind (chain_check E rrsigs dnskeys) (\<lambda>_.
        act_return ad_bit))))
      else act_return False)"

section \<open>Referrals\<close>

fun referral_servers ::
  "(bytes, ip_addr list, 'n) lru_ops \<Rightarrow> bool \<Rightarrow> resource_record list \<Rightarrow> resource_record list \<Rightarrow>
     ip_addr list \<times> bytes list \<Rightarrow> 'n \<Rightarrow> (ip_addr list \<times> bytes list) \<times> 'n" where
  "referral_servers N v6 additionals [] found nc = (found, nc)"
| "referral_servers N v6 additionals (ns # ns_records) found nc =
     (let (new_servers, ns_to_resolve) = found;
          ns_name = (case ns_target (rr_parsed ns) of Some name \<Rightarrow> name | None \<Rightarrow> rr_rdata ns);
          glue = filter (\<lambda>r. domain_names_equal (rr_name r) ns_name \<and>
                   (rr_type r = 1 \<or> (v6 \<and> rr_type r = 28))) additionals
      in if glue \<noteq> [] then
           referral_servers N v6 additionals ns_records
             (new_servers @ List.map_filter (\<lambda>g. record_ip v6 (rr_parsed g)) glue, ns_to_resolve) nc
         else case lru_get N nc ns_name of
                (Some cached, nc) \<Rightarrow>
                  referral_servers N v6 additionals ns_records (new_servers @ cached, ns_to_resolve) nc
              | (None, nc) \<Rightarrow>
                  referral_servers N v6 additionals ns_records (new_servers, ns_to_resolve @ [ns_name]) nc)"

fun resolve_ns_names ::
  "('c, 'n, 'd, 'r, 't, 'w) resolve_fn \<Rightarrow> u16 \<Rightarrow> nat \<Rightarrow> bytes list \<Rightarrow>
     ('c, 'n, 'd, 'r, 't, 'w, (bytes \<times> ip_addr list) list) ract" where
  "resolve_ns_names rr rclass depth [] = act_return []"
| "resolve_ns_names rr rclass depth (name # names) =
     act_bind (act_try (rr None False name 1 rclass (depth + 1) False)) (\<lambda>result.
     act_bind (resolve_ns_names rr rclass depth names) (\<lambda>resolved.
       let ips = (case result of
             Inr (records, _) \<Rightarrow> List.map_filter (\<lambda>r. record_ip False (rr_parsed r)) records
           | Inl e \<Rightarrow> [])
       in act_return ((name, ips) # resolved)))"

definition resolve_ns_names_concurrently ::
  "('c, 'n, 'd, 'r, 't, 'w) resolve_fn \<Rightarrow> u16 \<Rightarrow> nat \<Rightarrow> bytes list \<Rightarrow>
     ('c, 'n, 'd, 'r, 't, 'w, (bytes \<times> ip_addr list) list) ract" where
  "resolve_ns_names_concurrently rr rclass depth ns_names =
     resolve_ns_names rr rclass depth (filter (\<lambda>n. \<not> domain_names_equal n [0]) ns_names)"

definition follow_referral ::
  "('c, 'n, 'd, 'r, 't, 'w) res_env \<Rightarrow> ('c, 'n, 'd, 'r, 't, 'w) resolve_fn \<Rightarrow> u16 \<Rightarrow> nat \<Rightarrow> message \<Rightarrow>
     resource_record list \<Rightarrow> ('c, 'n, 'd, 'r, 't, 'w, ip_addr list) ract" where
  "follow_referral E rr rclass depth msg ns_records =
     act_bind (on_ns_cache (referral_servers (e_ns E) (e_enable_ipv6 E) (m_additionals msg) ns_records ([], [])))
       (\<lambda>(new_servers, ns_to_resolve).
     act_bind (if ns_to_resolve \<noteq> [] then resolve_ns_names_concurrently rr rclass depth ns_to_resolve else act_return [])
       (\<lambda>resolved.
     let known = filter (\<lambda>(ns_name, ips). ips \<noteq> []) resolved in
     act_bind (on_ns_cache (\<lambda>nc. ((), fold (\<lambda>(ns_name, ips) nc. lru_put (e_ns E) nc ns_name ips) known nc))) (\<lambda>_.
     act_return (new_servers @ concat (map snd known)))))"

section \<open>The resolution loop\<close>

definition rotate_servers :: "ip_addr list \<Rightarrow> ip_addr list" where
  "rotate_servers nameservers = (if length nameservers > 1 then rotate1 nameservers else nameservers)"

fun cname_of :: "rdata option \<Rightarrow> bytes \<Rightarrow> bytes option" where
  "cname_of (Some (RD_CNAME target)) raw_target = Some target"
| "cname_of _ raw_target = (if raw_target \<noteq> [] then Some raw_target else None)"

text \<open>
  What an iteration decides: an answer, or the servers and the number of labels for the next one.
\<close>

datatype iteration = Answer "resource_record list" bool | Continue "ip_addr list" nat

text \<open>No answer, no CNAME and no referral: a negative answer, or another attempt.\<close>

definition no_answer ::
  "('c, 'n, 'd, 'r, 't, 'w) res_env \<Rightarrow> ('c, 'n, 'd, 'r, 't, 'w) resolve_fn \<Rightarrow> bool \<Rightarrow> bytes \<Rightarrow> u16 \<Rightarrow> u16 \<Rightarrow> nat \<Rightarrow>
     ip_addr list \<Rightarrow> nat \<Rightarrow> message \<Rightarrow> ('c, 'n, 'd, 'r, 't, 'w, iteration) ract" where
  "no_answer E rr dnssec_ok name rtype rclass total_labels nameservers revealed_labels msg =
     (let soa = of_type 6 (m_authorities msg);
          rcode = h_rcode (m_header msg);
          again = Continue (rotate_servers nameservers)
            (if revealed_labels < total_labels \<and> of_type 2 (m_authorities msg) = [] then total_labels
             else revealed_labels)
      in if soa \<noteq> [] then
           (if rcode = 3 \<and> list_ex (\<lambda>r. domain_names_equal (rr_name r) name) soa
            then act_lift (Err (NxDomain soa False))
            else if rcode = 0 then
              act_bind (validate_negative_dnssec_response E rr dnssec_ok msg name rclass rtype) (\<lambda>(neg_ad, _).
                act_return (Answer [] neg_ad))
            else act_return again)
         else act_return again)"

definition process_response ::
  "('c, 'n, 'd, 'r, 't, 'w) res_env \<Rightarrow> ('c, 'n, 'd, 'r, 't, 'w) resolve_fn \<Rightarrow> bool \<Rightarrow> bytes \<Rightarrow> u16 \<Rightarrow> u16 \<Rightarrow> nat \<Rightarrow> nat \<Rightarrow>
     ip_addr list \<Rightarrow> nat \<Rightarrow> message \<Rightarrow> ('c, 'n, 'd, 'r, 't, 'w, iteration) ract" where
  "process_response E rr dnssec_ok name rtype rclass depth total_labels nameservers revealed_labels msg =
     (let direct = filter (\<lambda>r. domain_names_equal (rr_name r) name \<and> rr_type r = rtype) (m_answers msg);
          cnames = filter (\<lambda>r. domain_names_equal (rr_name r) name \<and> rr_type r = 5) (m_answers msg);
          ns_records = of_type 2 (m_authorities msg);
          other = no_answer E rr dnssec_ok name rtype rclass total_labels nameservers revealed_labels msg;
          referral =
            (if ns_records \<noteq> [] then
               act_bind (follow_referral E rr rclass depth msg ns_records) (\<lambda>new_servers.
                 if new_servers \<noteq> [] then
                   act_bind (cache_delegation E (rr_name (hd ns_records)) new_servers) (\<lambda>_.
                     act_return (Continue new_servers
                       (if revealed_labels < total_labels then revealed_labels + 1 else revealed_labels)))
                 else other)
             else other)
      in if direct \<noteq> [] then
           act_bind (check_direct E rr dnssec_ok name rtype rclass total_labels nameservers msg direct) (\<lambda>ad_bit.
           act_bind (cache_delegation E name nameservers) (\<lambda>_.
           act_return (Answer direct ad_bit)))
         else case cnames of
                cname # _ \<Rightarrow>
                  (case cname_of (rr_parsed cname) (rr_rdata cname) of
                     Some target \<Rightarrow>
                       act_bind (rr None dnssec_ok target rtype rclass (depth + 1) True) (\<lambda>(sub_records, sub_ad).
                       act_bind (cache_delegation E name nameservers) (\<lambda>_.
                       act_return (Answer (cname # sub_records) sub_ad)))
                   | None \<Rightarrow> referral)
              | [] \<Rightarrow> referral)"

definition minimized_name :: "bytes \<Rightarrow> nat \<Rightarrow> nat \<Rightarrow> bytes dns_result" where
  "minimized_name name total_labels revealed_labels =
     (if revealed_labels < total_labels then name_prefix name revealed_labels else Ok name)"

definition iterate_once ::
  "('c, 'n, 'd, 'r, 't, 'w) res_env \<Rightarrow> ('c, 'n, 'd, 'r, 't, 'w) resolve_fn \<Rightarrow> bool \<Rightarrow> bytes \<Rightarrow> u16 \<Rightarrow> u16 \<Rightarrow> nat \<Rightarrow> nat \<Rightarrow>
     ip_addr list \<Rightarrow> nat \<Rightarrow> ('c, 'n, 'd, 'r, 't, 'w, iteration) ract" where
  "iterate_once E rr dnssec_ok name rtype rclass depth total_labels nameservers revealed_labels =
     (if nameservers = [] then act_lift (Err (Malformed ''no nameservers to query''))
      else
        act_bind (act_lift (minimized_name name total_labels revealed_labels)) (\<lambda>qname.
        act_bind (on_world (e_random E)) (\<lambda>i.
        act_bind (act_lift (build_query_static qname rtype rclass i dnssec_ok False)) (\<lambda>query_bytes.
        act_bind (query_servers_concurrent E query_bytes i nameservers) (\<lambda>response.
          case response of
            None \<Rightarrow> act_return (Continue (rotate_servers nameservers) revealed_labels)
          | Some msg \<Rightarrow>
              act_bind (cache_response E msg) (\<lambda>_.
                let rcode = h_rcode (m_header msg) in
                if rcode = 3 then
                  act_bind (validate_negative_dnssec_response E rr dnssec_ok msg name rclass 0) (\<lambda>(nx_ad, soa_records).
                    act_lift (Err (NxDomain soa_records nx_ad)))
                else if rcode \<noteq> 0 then
                  act_return (Continue (if revealed_labels \<ge> total_labels then rotate_servers nameservers else nameservers)
                    revealed_labels)
                else process_response E rr dnssec_ok name rtype rclass depth total_labels nameservers revealed_labels msg))))))"

fun resolve_loop ::
  "('c, 'n, 'd, 'r, 't, 'w) res_env \<Rightarrow> ('c, 'n, 'd, 'r, 't, 'w) resolve_fn \<Rightarrow> dns_error \<Rightarrow> bool \<Rightarrow> bytes \<Rightarrow> u16 \<Rightarrow> u16 \<Rightarrow>
     nat \<Rightarrow> nat \<Rightarrow> nat \<Rightarrow> ip_addr list \<Rightarrow> nat \<Rightarrow> ('c, 'n, 'd, 'r, 't, 'w, resource_record list \<times> bool) ract" where
  "resolve_loop E rr out_of_time dnssec_ok name rtype rclass depth total_labels 0 nameservers revealed_labels =
     act_lift (Err out_of_time)"
| "resolve_loop E rr out_of_time dnssec_ok name rtype rclass depth total_labels (Suc n) nameservers revealed_labels =
     act_bind (iterate_once E rr dnssec_ok name rtype rclass depth total_labels nameservers revealed_labels) (\<lambda>next.
       case next of
         Answer records ad \<Rightarrow> act_return (records, ad)
       | Continue nameservers revealed_labels \<Rightarrow>
           resolve_loop E rr out_of_time dnssec_ok name rtype rclass depth total_labels n nameservers revealed_labels)"

definition resolve_body ::
  "('c, 'n, 'd, 'r, 't, 'w) res_env \<Rightarrow> ('c, 'n, 'd, 'r, 't, 'w) resolve_fn \<Rightarrow> ('c, 'n, 'd, 'r, 't, 'w) resolve_fn" where
  "resolve_body E rr deadline dnssec_ok name rtype rclass depth qname_minimize =
     (if depth > MAX_CNAME_DEPTH then act_lift (Err (Malformed ''CNAME chain too deep''))
      else
        let total_labels = count_labels name;
            (iterations, out_of_time) =
              (case deadline of
                 Some k \<Rightarrow> if k < MAX_ITERATIONS then (k, Transport ''stale refresh timed out'')
                           else (MAX_ITERATIONS, Malformed ''maximum iterations exceeded'')
               | None \<Rightarrow> (MAX_ITERATIONS, Malformed ''maximum iterations exceeded''))
        in act_bind (cached_delegation E name) (\<lambda>deleg.
             let (nameservers, revealed_labels) =
               (case deleg of
                  Some servers \<Rightarrow> (servers, total_labels)
                | None \<Rightarrow> (initial_root_addrs, if qname_minimize then 1 else total_labels))
             in resolve_loop E rr out_of_time dnssec_ok name rtype rclass depth total_labels iterations
                  nameservers revealed_labels))"

fun resolve_recursive ::
  "('c, 'n, 'd, 'r, 't, 'w) res_env \<Rightarrow> nat \<Rightarrow> ('c, 'n, 'd, 'r, 't, 'w) resolve_fn" where
  "resolve_recursive E 0 deadline dnssec_ok name rtype rclass depth qname_minimize = act_lift Diverge"
| "resolve_recursive E (Suc fuel) deadline dnssec_ok name rtype rclass depth qname_minimize =
     resolve_body E (resolve_recursive E fuel) deadline dnssec_ok name rtype rclass depth qname_minimize"

section \<open>The public interface\<close>

definition resolve_with_ad ::
  "('c, 'n, 'd, 'r, 't, 'w) res_env \<Rightarrow> nat \<Rightarrow> bool \<Rightarrow> string \<Rightarrow> u16 \<Rightarrow> u16 \<Rightarrow>
     ('c, 'n, 'd, 'r, 't, 'w, resource_record list \<times> bool) ract" where
  "resolve_with_ad E fuel = resolve_with_ad_by E (resolve_recursive E fuel)"

definition resolve ::
  "('c, 'n, 'd, 'r, 't, 'w) res_env \<Rightarrow> nat \<Rightarrow> bool \<Rightarrow> string \<Rightarrow> u16 \<Rightarrow> u16 \<Rightarrow>
     ('c, 'n, 'd, 'r, 't, 'w, resource_record list) ract" where
  "resolve E fuel = resolve_by E (resolve_recursive E fuel)"

definition prefetch ::
  "('c, 'n, 'd, 'r, 't, 'w) res_env \<Rightarrow> nat \<Rightarrow> bool \<Rightarrow> string \<Rightarrow> u16 \<Rightarrow> ('c, 'n, 'd, 'r, 't, 'w, unit) ract" where
  "prefetch E fuel dnssec_ok name rtype =
     act_bind (act_try (resolve E fuel dnssec_ok name rtype 1)) (\<lambda>_. act_return ())"

definition flush_cache ::
  "('c, 'n, 'd, 'r, 't, 'w) res_env \<Rightarrow> ('c, 'n, 'd, 'r, 't, 'w, unit) ract" where
  "flush_cache E = on_cache (\<lambda>c. ((), cache_clear (e_cache E) c))"

definition doh_failed :: "string \<Rightarrow> string \<Rightarrow> dns_error" where
  "doh_failed what why = Transport (''DoH '' @ what @ why)"

definition doh_answer ::
  "('c, 'n, 'd, 'r, 't, 'w) res_env \<Rightarrow> bytes \<Rightarrow> u16 \<Rightarrow> message \<Rightarrow> ('c, 'n, 'd, 'r, 't, 'w, resource_record list) ract" where
  "doh_answer E encoded_name rtype response =
     (let rcode = h_rcode (m_header response);
          records = filter (\<lambda>r. domain_names_equal (rr_name r) encoded_name \<and> rr_type r = rtype) (m_answers response)
      in if rcode = 3 then act_lift (Err (NxDomain [] False))
         else if rcode \<noteq> 0 then act_lift (Err (doh_failed ''returned rcode='' (show_nat (unat rcode))))
         else if records = [] then act_lift (Err (Malformed ''DoH response had no matching records''))
         else
           act_bind (store_fresh E records) (\<lambda>_.
           act_bind (cache_response E response) (\<lambda>_.
           act_return records)))"

definition resolve_via_doh ::
  "('c, 'n, 'd, 'r, 't, 'w) res_env \<Rightarrow> bool \<Rightarrow> string \<Rightarrow> u16 \<Rightarrow> u16 \<Rightarrow>
     ('c, 'n, 'd, 'r, 't, 'w, resource_record list) ract" where
  "resolve_via_doh E dnssec_ok name rtype rclass =
     act_bind (act_lift (encode_domain_name name)) (\<lambda>encoded_name.
     act_bind (on_world (e_instants E)) (\<lambda>clock.
     act_bind (on_cache (cache_lookup (e_cache E) clock encoded_name rtype rclass)) (\<lambda>hit.
       case hit of
         Some (records, _) \<Rightarrow> act_return records
       | None \<Rightarrow>
           act_bind (on_world (e_random E)) (\<lambda>i.
           act_bind (act_lift (build_query_static encoded_name rtype rclass i dnssec_ok False)) (\<lambda>query_bytes.
           act_bind (on_world (e_doh E query_bytes)) (\<lambda>response.
             case response of
               Inl e \<Rightarrow> act_lift (Err (doh_failed ''failed: '' e))
             | Inr response_data \<Rightarrow>
                 act_bind (act_lift (case decode_message response_data of
                     Err e \<Rightarrow> Err (doh_failed ''response parse failed: '' (dns_error_display e))
                   | other \<Rightarrow> other)) (doh_answer E encoded_name rtype)))))))"

definition resolve_with_fallback ::
  "('c, 'n, 'd, 'r, 't, 'w) res_env \<Rightarrow> nat \<Rightarrow> bool \<Rightarrow> string \<Rightarrow> u16 \<Rightarrow> u16 \<Rightarrow>
     ('c, 'n, 'd, 'r, 't, 'w, resource_record list) ract" where
  "resolve_with_fallback E fuel dnssec_ok name rtype rclass =
     act_bind (act_try (resolve E fuel dnssec_ok name rtype rclass)) (\<lambda>result.
       case result of
         Inr records \<Rightarrow> act_return records
       | Inl udp_err \<Rightarrow> resolve_via_doh E dnssec_ok name rtype rclass)"

end
