(* ===== verification/Resolver_Answers.thy ===== *)
theory Resolver_Answers
  imports Resolver
begin

text \<open>
  What the resolver returns: the records answer the question (\<open>answer_for\<close>), and without DNSSEC a
  resolution ends, after at most twelve levels of recursion, unless a message from the network makes
  the decoder loop.
\<close>

section \<open>What an answer is\<close>

text \<open>
  Records that answer a question about a name: none (the name has no such records), records of that
  name and type, or a CNAME record of that name followed by an answer for its target.  At most \<open>n\<close>
  CNAME records are followed.
\<close>

inductive answer_for :: "nat \<Rightarrow> u16 \<Rightarrow> bytes \<Rightarrow> resource_record list \<Rightarrow> bool" where
  answer_none: "answer_for n rtype name []"
| answer_direct: "list_all (\<lambda>r. domain_names_equal (rr_name r) name \<and> rr_type r = rtype) records \<Longrightarrow>
     answer_for n rtype name records"
| answer_cname: "domain_names_equal (rr_name cname) name \<Longrightarrow> rr_type cname = 5 \<Longrightarrow>
     cname_of (rr_parsed cname) (rr_rdata cname) = Some target \<Longrightarrow> answer_for n rtype target records \<Longrightarrow>
     answer_for (Suc n) rtype name (cname # records)"

definition sound_resolver :: "('c, 'n, 'd, 'r, 't, 'w) resolve_fn \<Rightarrow> bool" where
  "sound_resolver rr \<longleftrightarrow> (\<forall>deadline dnssec_ok name rtype rclass depth minimize.
     yields (\<lambda>_. True) (rr deadline dnssec_ok name rtype rclass depth minimize)
       (\<lambda>(records, ad). depth \<le> MAX_CNAME_DEPTH \<and> answer_for (MAX_CNAME_DEPTH - depth) rtype name records \<and>
          (ad \<longrightarrow> dnssec_ok)))"

lemma sound_resolverD:
  "sound_resolver rr \<Longrightarrow> yields (\<lambda>_. True) (rr deadline dnssec_ok name rtype rclass depth minimize)
     (\<lambda>(records, ad). depth \<le> MAX_CNAME_DEPTH \<and> answer_for (MAX_CNAME_DEPTH - depth) rtype name records \<and>
        (ad \<longrightarrow> dnssec_ok))"
  unfolding sound_resolver_def by blast

lemma yields_any: "(\<And>x. Q x) \<Longrightarrow> yields (\<lambda>_. True) m Q"
  by (simp add: yields_def)

lemma negative_ad:
  "yields (\<lambda>_. True) (validate_negative_dnssec_response E rr dnssec_ok msg name rclass qtype)
     (\<lambda>(ad, soa). ad \<longrightarrow> dnssec_ok)"
proof (cases dnssec_ok)
  case False
  then show ?thesis by (simp add: validate_negative_dnssec_response_def Let_def yields_return)
qed (auto intro: yields_any)

lemma check_direct_ad:
  "yields (\<lambda>_. True) (check_direct E rr dnssec_ok name rtype rclass labels nameservers msg direct)
     (\<lambda>ad. ad \<longrightarrow> dnssec_ok)"
proof (cases dnssec_ok)
  case False
  then show ?thesis by (simp add: check_direct_def Let_def yields_return)
qed (auto intro: yields_any)

fun iteration_ok :: "nat \<Rightarrow> bool \<Rightarrow> u16 \<Rightarrow> bytes \<Rightarrow> iteration \<Rightarrow> bool" where
  "iteration_ok n dnssec_ok rtype name (Answer records ad) \<longleftrightarrow> answer_for n rtype name records \<and> (ad \<longrightarrow> dnssec_ok)"
| "iteration_ok n dnssec_ok rtype name (Continue nameservers revealed) \<longleftrightarrow> True"

lemma no_answer_ok:
  "yields (\<lambda>_. True) (no_answer E rr dnssec_ok name rtype rclass labels nameservers revealed msg)
     (iteration_ok n dnssec_ok rtype name)"
  by (auto simp: no_answer_def Let_def intro!: yields_return yields_lift yields_bind [OF negative_ad] answer_none)

lemma process_response_ok:
  assumes "sound_resolver rr" "depth \<le> MAX_CNAME_DEPTH"
  shows "yields (\<lambda>_. True) (process_response E rr dnssec_ok name rtype rclass depth labels nameservers revealed msg)
     (iteration_ok (MAX_CNAME_DEPTH - depth) dnssec_ok rtype name)"
proof -
  let ?ok = "iteration_ok (MAX_CNAME_DEPTH - depth) dnssec_ok rtype name"
  let ?cnames = "filter (\<lambda>r. domain_names_equal (rr_name r) name \<and> rr_type r = 5) (m_answers msg)"
  let ?direct = "filter (\<lambda>r. domain_names_equal (rr_name r) name \<and> rr_type r = rtype) (m_answers msg)"
  define referral where "referral = (if of_type 2 (m_authorities msg) \<noteq> [] then
      act_bind (follow_referral E rr rclass depth msg (of_type 2 (m_authorities msg))) (\<lambda>new_servers.
        if new_servers \<noteq> [] then
          act_bind (cache_delegation E (rr_name (hd (of_type 2 (m_authorities msg)))) new_servers) (\<lambda>_.
            act_return (Continue new_servers (if revealed < labels then revealed + 1 else revealed)))
        else no_answer E rr dnssec_ok name rtype rclass labels nameservers revealed msg)
    else no_answer E rr dnssec_ok name rtype rclass labels nameservers revealed msg)"
  have ref: "yields (\<lambda>_. True) referral ?ok"
    unfolding referral_def
    by (auto intro!: no_answer_ok yields_bind [OF yields_any [of "\<lambda>_. True"]] yields_return)
  have direct: "yields (\<lambda>_. True) (act_bind (check_direct E rr dnssec_ok name rtype rclass labels nameservers msg ?direct)
      (\<lambda>ad. act_bind (cache_delegation E name nameservers) (\<lambda>_. act_return (Answer ?direct ad)))) ?ok"
    by (rule yields_bind [OF check_direct_ad], rule yields_bind [OF yields_any [of "\<lambda>_. True"]])
      (auto intro!: yields_return answer_direct simp: list_all_iff)
  have chain: "yields (\<lambda>_. True) (act_bind (rr None dnssec_ok target rtype rclass (depth + 1) True)
      (\<lambda>(sub_records, sub_ad). act_bind (cache_delegation E name nameservers)
        (\<lambda>_. act_return (Answer (cname # sub_records) sub_ad)))) ?ok"
    if "cname \<in> set ?cnames" "cname_of (rr_parsed cname) (rr_rdata cname) = Some target" for cname target
  proof (rule yields_bind [OF sound_resolverD [OF assms(1)]])
    fix x :: "resource_record list \<times> bool"
    assume x: "case x of (records, ad) \<Rightarrow> depth + 1 \<le> MAX_CNAME_DEPTH \<and>
        answer_for (MAX_CNAME_DEPTH - (depth + 1)) rtype target records \<and> (ad \<longrightarrow> dnssec_ok)"
    obtain recs ad where xe: "x = (recs, ad)" by fastforce
    have "answer_for (Suc (MAX_CNAME_DEPTH - (depth + 1))) rtype name (cname # recs)"
      using x xe that by (intro answer_cname [of cname name target]) auto
    moreover have "Suc (MAX_CNAME_DEPTH - (depth + 1)) = MAX_CNAME_DEPTH - depth" using x xe by auto
    ultimately show "yields (\<lambda>_. True) (case x of (sub_records, sub_ad) \<Rightarrow>
        act_bind (cache_delegation E name nameservers) (\<lambda>_. act_return (Answer (cname # sub_records) sub_ad))) ?ok"
      using x xe by (auto intro!: yields_bind [OF yields_any [of "\<lambda>_. True"]] yields_return)
  qed
  show ?thesis
    unfolding process_response_def Let_def referral_def [symmetric]
    using ref direct by (auto split: list.split option.split intro!: chain [simplified] simp: filter_eq_Cons_iff)
qed

lemma iterate_once_ok:
  assumes "sound_resolver rr" "depth \<le> MAX_CNAME_DEPTH"
  shows "yields (\<lambda>_. True) (iterate_once E rr dnssec_ok name rtype rclass depth labels nameservers revealed)
     (iteration_ok (MAX_CNAME_DEPTH - depth) dnssec_ok rtype name)"
  unfolding iterate_once_def Let_def
  by (auto split: option.split intro!: yields_lift yields_return process_response_ok [OF assms]
      yields_bind [OF yields_any [of "\<lambda>_. True"]])

lemma resolve_loop_ok:
  assumes "sound_resolver rr" "depth \<le> MAX_CNAME_DEPTH"
  shows "yields (\<lambda>_. True) (resolve_loop E rr err dnssec_ok name rtype rclass depth labels n nameservers revealed)
     (\<lambda>(records, ad). answer_for (MAX_CNAME_DEPTH - depth) rtype name records \<and> (ad \<longrightarrow> dnssec_ok))"
proof (induction n arbitrary: nameservers revealed)
  case 0
  show ?case by (auto intro!: yields_lift)
next
  case (Suc n)
  show ?case unfolding resolve_loop.simps
  proof (rule yields_bind [OF iterate_once_ok [OF assms]])
    fix x assume "iteration_ok (MAX_CNAME_DEPTH - depth) dnssec_ok rtype name x"
    then show "yields (\<lambda>_. True) (case x of Answer records ad \<Rightarrow> act_return (records, ad)
        | Continue nameservers revealed \<Rightarrow>
            resolve_loop E rr err dnssec_ok name rtype rclass depth labels n nameservers revealed)
        (\<lambda>(records, ad). answer_for (MAX_CNAME_DEPTH - depth) rtype name records \<and> (ad \<longrightarrow> dnssec_ok))"
      using Suc.IH by (cases x) (auto intro!: yields_return)
  qed
qed

lemma resolve_body_sound: "sound_resolver rr \<Longrightarrow> sound_resolver (resolve_body E rr)"
  unfolding sound_resolver_def [of "resolve_body E rr"] resolve_body_def Let_def case_prod_unfold
  by (auto intro!: yields_lift yields_bind [OF yields_any [of "\<lambda>_. True"]]
      yields_mono [OF resolve_loop_ok])

lemma resolve_recursive_sound: "sound_resolver (resolve_recursive E fuel)"
proof (induction fuel)
  case 0
  show ?case by (auto simp: sound_resolver_def intro!: yields_lift)
next
  case (Suc fuel)
  have "resolve_recursive E (Suc fuel) = resolve_body E (resolve_recursive E fuel)" by (simp add: fun_eq_iff)
  with resolve_body_sound [OF Suc] show ?case by simp
qed

section \<open>The errors of the resolver\<close>

text \<open>
  The error that says that a name does not exist carries AD only if validation is on.
\<close>

fun honest_error :: "bool \<Rightarrow> dns_error \<Rightarrow> bool" where
  "honest_error validates (NxDomain soa ad) \<longleftrightarrow> (ad \<longrightarrow> validates)"
| "honest_error validates _ \<longleftrightarrow> True"

lemma honest_error_validating [simp]: "honest_error True e"
  by (cases e) simp_all

lemma fails_iteration [failing]:
  "(\<And>x y. fails (f x y) F) \<Longrightarrow> (\<And>x y. fails (g x y) F) \<Longrightarrow> fails (case v of Answer x y \<Rightarrow> f x y | Continue x y \<Rightarrow> g x y) F"
  by (simp split: iteration.split)

lemma fails_honestly [failing]: "honest_error validates e \<Longrightarrow> fails (act_lift (Err e)) (honest_error validates)"
  by (rule fails_lift) simp

lemma ok_of_fails [failing]: "fails (act_lift (ok_of r)) F"
  by (rule fails_lift) (cases r; simp)

lemma query_sized: "sized_message (query_of name rtype rclass i dnssec_ok recursive)"
  by (simp add: query_of_def sized_message_def message_records_def to_resource_record_def rr_sized_def)

lemma too_small_error: "too_small (Err e) \<Longrightarrow> honest_error validates e"
  by (cases e) simp_all

lemma build_query_fails [failing]:
  "fails (act_lift (build_query_static name rtype rclass i dnssec_ok recursive)) (honest_error validates)"
proof (rule fails_lift)
  fix e assume e: "build_query_static name rtype rclass i dnssec_ok recursive = Err e"
  let ?m = "query_of name rtype rclass i dnssec_ok recursive"
  have "sized_message ?m" by (rule query_sized)
  from e encode_message_fits [OF this] encode_message_overflow [OF this] have "too_small (encode_message ?m)"
    by (cases "length (message_wire ?m) \<le> MAX_DNS_MESSAGE_SIZE") (simp_all add: build_query_static_def)
  with e show "honest_error validates e" by (simp add: build_query_static_def too_small_error)
qed

lemma prefix_loop_fails: "prefix_loop k i name r \<noteq> Err e"
  by (induction k i name r rule: prefix_loop.induct) auto

lemma minimized_name_fails [failing]: "fails (act_lift (minimized_name name labels revealed)) (honest_error validates)"
  by (rule fails_lift)
    (auto simp: minimized_name_def name_prefix_def Let_def prefix_loop_fails outcome_simps split: if_splits)

lemma encode_labels_fails: "encode_labels labels acc = Err e \<Longrightarrow> honest_error validates e"
  by (induction labels acc rule: encode_labels.induct) (auto split: if_splits)

lemma encode_fails [failing]: "fails (act_lift (encode_domain_name name)) (honest_error validates)"
  by (rule fails_lift) (auto simp: encode_domain_name_def Let_def encode_labels_fails split: if_splits)

lemma on_state_fails [failing]:
  "fails (on_world f) F" "fails (on_cache g) F" "fails (on_ns_cache h) F" "fails (on_delegations d) F" "fails (on_stats t) F"
  by (simp_all add: on_world_def on_cache_def on_ns_cache_def on_delegations_def on_stats_def fails_modify)

lemma select_loop_fails [failing]: "fails (select_loop E query i hanging servers) F"
proof -
  have "fst (select_loop E query i hanging servers s) \<noteq> Err e" for e s
    by (induction servers arbitrary: hanging s) (auto split: prod.split outcome.split option.split)
  then show ?thesis by (simp add: fails_def)
qed

lemma query_servers_fails [failing]: "fails (query_servers_concurrent E query i servers) F"
  unfolding query_servers_concurrent_def sorted_servers_def by (intro failing)

lemma delegation_fails [failing]: "fails (cached_delegation E name) F" "fails (cache_delegation E name servers) F"
  unfolding cached_delegation_def cache_delegation_def Let_def by (intro failing)+

lemma cache_response_fails [failing]: "fails (cache_response E msg) F"
  unfolding cache_response_def Let_def by (intro failing)

lemma resolve_ns_names_fails [failing]: "fails (resolve_ns_names rr rclass depth names) F"
  by (induction names) (auto simp: Let_def intro!: failing)

lemma follow_referral_fails [failing]: "fails (follow_referral E rr rclass depth msg ns_records) F"
  unfolding follow_referral_def resolve_ns_names_concurrently_def Let_def by (intro failing)

definition honest_resolver :: "('c, 'n, 'd, 'r, 't, 'w) resolve_fn \<Rightarrow> bool" where
  "honest_resolver rr \<longleftrightarrow> (\<forall>deadline name rtype rclass depth minimize.
     fails (rr deadline False name rtype rclass depth minimize) (honest_error False))"

lemma honest_resolverD: "honest_resolver rr \<Longrightarrow> fails (rr deadline False name rtype rclass depth minimize) (honest_error False)"
  by (simp add: honest_resolver_def)

lemma unsigned_checks:
  "validate_negative_dnssec_response E rr False msg name rclass qtype = act_return (False, of_type 6 (m_authorities msg))"
  "check_direct E rr False name rtype rclass labels nameservers msg direct = act_return False"
  by (simp_all add: validate_negative_dnssec_response_def check_direct_def Let_def)

lemma no_answer_fails [failing]:
  "fails (no_answer E rr False name rtype rclass labels nameservers revealed msg) (honest_error False)"
  unfolding no_answer_def Let_def unsigned_checks by (intro failing) simp_all

lemma process_response_fails:
  assumes "honest_resolver rr"
  shows "fails (process_response E rr False name rtype rclass depth labels nameservers revealed msg) (honest_error False)"
  unfolding process_response_def Let_def unsigned_checks by (intro failing honest_resolverD [OF assms])

lemma iterate_once_fails:
  assumes "honest_resolver rr"
  shows "fails (iterate_once E rr False name rtype rclass depth labels nameservers revealed) (honest_error False)"
  unfolding iterate_once_def Let_def unsigned_checks act_bind_return case_prod_conv
  by (intro failing process_response_fails [OF assms]) simp_all

lemma resolve_loop_fails:
  assumes "honest_resolver rr" "honest_error False out_of_time"
  shows "fails (resolve_loop E rr out_of_time False name rtype rclass depth labels k nameservers revealed) (honest_error False)"
proof (induction k arbitrary: nameservers revealed)
  case (Suc k)
  show ?case unfolding resolve_loop.simps by (intro failing iterate_once_fails [OF assms(1)] Suc)
qed (simp add: failing assms(2))

lemma resolve_body_fails: "honest_resolver rr \<Longrightarrow> honest_resolver (resolve_body E rr)"
  unfolding honest_resolver_def [of "resolve_body E rr"] resolve_body_def Let_def case_prod_unfold
  by (intro allI failing resolve_loop_fails) (simp_all split: option.split)

lemma resolve_recursive_honest: "honest_resolver (resolve_recursive E fuel)"
proof (induction fuel)
  case 0
  show ?case by (auto simp: honest_resolver_def intro!: fails_lift)
next
  case (Suc fuel)
  have "resolve_recursive E (Suc fuel) = resolve_body E (resolve_recursive E fuel)" by (simp add: fun_eq_iff)
  with resolve_body_fails [OF Suc] show ?case by simp
qed

lemma resolve_fresh_fails:
  "honest_resolver rr \<Longrightarrow> fails (resolve_fresh E rr False start name rtype rclass) (honest_error False)"
  unfolding resolve_fresh_def store_fresh_def
  by (rule fails_bind_try [OF honest_resolverD]) (auto intro!: failing)

lemma resolve_with_ad_fails: "fails (resolve_with_ad E fuel dnssec_ok name rtype rclass) (honest_error dnssec_ok)"
proof (cases dnssec_ok)
  case True
  then show ?thesis by (simp add: fails_def)
next
  case False
  show ?thesis
    using False
    by (auto simp: resolve_with_ad_def resolve_with_ad_by_def refresh_stale_def store_fresh_def spawn_refresh_def
        intro!: failing resolve_fresh_fails resolve_recursive_honest)
qed

section \<open>The depth of the recursion\<close>

text \<open>
  Without DNSSEC, the resolver calls itself at the next depth only, so twelve levels are enough.
\<close>

definition agree_at :: "nat \<Rightarrow> ('c, 'n, 'd, 'r, 't, 'w) resolve_fn \<Rightarrow> ('c, 'n, 'd, 'r, 't, 'w) resolve_fn \<Rightarrow> bool" where
  "agree_at depth rr rr' \<longleftrightarrow>
     (\<forall>deadline name rtype rclass minimize. rr deadline False name rtype rclass depth minimize =
        rr' deadline False name rtype rclass depth minimize)"

lemma agree_atD:
  "agree_at depth rr rr' \<Longrightarrow> rr deadline False name rtype rclass depth minimize =
     rr' deadline False name rtype rclass depth minimize"
  by (simp add: agree_at_def)

lemma resolve_ns_names_cong:
  "agree_at (depth + 1) rr rr' \<Longrightarrow> resolve_ns_names rr rclass depth names = resolve_ns_names rr' rclass depth names"
  by (induction names) (simp_all add: agree_at_def)

lemma follow_referral_cong:
  assumes "agree_at (depth + 1) rr rr'"
  shows "follow_referral E rr rclass depth msg ns_records = follow_referral E rr' rclass depth msg ns_records"
  unfolding follow_referral_def resolve_ns_names_concurrently_def resolve_ns_names_cong [OF assms] ..

lemma negative_cong:
  "validate_negative_dnssec_response E rr False = validate_negative_dnssec_response E rr' False"
  by (simp add: fun_eq_iff validate_negative_dnssec_response_def Let_def)

lemma no_answer_cong:
  "no_answer E rr False name rtype rclass labels nameservers revealed msg =
     no_answer E rr' False name rtype rclass labels nameservers revealed msg"
  unfolding no_answer_def negative_cong [of E rr rr'] ..

lemma process_response_cong:
  assumes "agree_at (depth + 1) rr rr'"
  shows "process_response E rr False name rtype rclass depth labels nameservers revealed msg =
     process_response E rr' False name rtype rclass depth labels nameservers revealed msg"
  unfolding process_response_def Let_def follow_referral_cong [OF assms] agree_atD [OF assms]
    no_answer_cong [of E rr name rtype rclass labels nameservers revealed msg rr']
  by (simp add: check_direct_def Let_def)

lemma iterate_once_cong:
  assumes "agree_at (depth + 1) rr rr'"
  shows "iterate_once E rr False name rtype rclass depth labels nameservers revealed =
     iterate_once E rr' False name rtype rclass depth labels nameservers revealed"
  unfolding iterate_once_def Let_def process_response_cong [OF assms] negative_cong [of E rr rr'] ..

lemma resolve_loop_cong:
  assumes "agree_at (depth + 1) rr rr'"
  shows "resolve_loop E rr err False name rtype rclass depth labels n =
     resolve_loop E rr' err False name rtype rclass depth labels n"
proof (induction n)
  case (Suc n)
  show ?case
    unfolding fun_eq_iff resolve_loop.simps iterate_once_cong [OF assms] Suc by simp
qed (simp add: fun_eq_iff)

lemma resolve_body_cong:
  "depth \<le> MAX_CNAME_DEPTH \<longrightarrow> agree_at (depth + 1) rr rr' \<Longrightarrow> agree_at depth (resolve_body E rr) (resolve_body E rr')"
proof (cases "depth > MAX_CNAME_DEPTH")
  case False
  moreover assume "depth \<le> MAX_CNAME_DEPTH \<longrightarrow> agree_at (depth + 1) rr rr'"
  ultimately have "agree_at (depth + 1) rr rr'" by simp
  from resolve_loop_cong [OF this] show ?thesis by (simp add: agree_at_def resolve_body_def)
qed (simp add: agree_at_def resolve_body_def)

lemma resolve_recursive_Suc: "resolve_recursive E (Suc fuel) = resolve_body E (resolve_recursive E fuel)"
  by (simp add: fun_eq_iff)

lemma fuel_irrelevant:
  "MAX_CNAME_DEPTH + 1 - depth < fuel \<Longrightarrow> MAX_CNAME_DEPTH + 1 - depth < fuel' \<Longrightarrow>
     agree_at depth (resolve_recursive E fuel) (resolve_recursive E fuel')"
proof (induction "MAX_CNAME_DEPTH + 1 - depth" arbitrary: depth fuel fuel')
  case 0
  then obtain n n' where "fuel = Suc n" "fuel' = Suc n'" by (metis gr0_implies_Suc)
  with 0 show ?case by (simp add: resolve_recursive_Suc resolve_body_cong)
next
  case (Suc k)
  then obtain n n' where n: "fuel = Suc n" "fuel' = Suc n'" by (metis gr_implies_not_zero not0_implies_Suc)
  have "agree_at (depth + 1) (resolve_recursive E n) (resolve_recursive E n')"
    using Suc n by (intro Suc(1)) auto
  then show ?case by (simp add: n resolve_recursive_Suc resolve_body_cong)
qed

section \<open>Cached keys\<close>

lemma try_keys_unparsed: "list_all (\<lambda>dk. rr_parsed dk = None) dnskeys \<Longrightarrow> \<not> try_keys C a kt sd sg dnskeys"
  by (induction dnskeys) auto

lemma validate_rrset_unparsed:
  assumes "list_all (\<lambda>dk. rr_parsed dk = None) dnskeys" "is_rrsig rrsig"
  shows "\<exists>reason. validate_rrset C now rrsig records dnskeys = VR_Bogus reason"
  using assms(2) try_keys_unparsed [OF assms(1)]
  by (auto simp: is_rrsig_def validate_rrset_def split: option.splits rdata.splits)

lemma validate_rrset_not_insecure: "validate_rrset C now rrsig records dnskeys \<noteq> VR_Insecure"
  by (auto simp: validate_rrset_def split: option.splits rdata.splits)

lemma validate_each_bogus: "validate_each C now i records dnskeys rrsigs = Some v \<Longrightarrow> \<exists>reason. v = VR_Bogus reason"
proof (induction rrsigs arbitrary: i)
  case (Cons r rrsigs)
  then show ?case
    using validate_rrset_not_insecure [of C "now i" r records dnskeys]
    by (cases "validate_rrset C (now i) r records dnskeys") auto
qed simp

lemma validate_each_unparsed:
  assumes "list_all (\<lambda>dk. rr_parsed dk = None) dnskeys" "rrsig \<in> set rrsigs" "is_rrsig rrsig"
  shows "\<exists>v. validate_each C now i records dnskeys rrsigs = Some v"
  using assms(2)
proof (induction rrsigs arbitrary: i)
  case (Cons r rrsigs)
  show ?case
  proof (cases "r = rrsig")
    case True
    obtain reason where "validate_rrset C (now i) r records dnskeys = VR_Bogus reason"
      using validate_rrset_unparsed [OF assms(1)] assms(3) True by blast
    then show ?thesis by simp
  next
    case False
    with Cons show ?thesis by (auto split: validation_result.split)
  qed
qed simp

lemma validate_dnssec_unparsed:
  assumes "list_all (\<lambda>dk. rr_parsed dk = None) dnskeys" "dnskeys \<noteq> []" "rrsig \<in> set rrsigs" "is_rrsig rrsig"
  shows "\<exists>reason. validate_dnssec C now True records rrsigs dnskeys = VR_Bogus reason"
proof -
  let ?a = "filter (\<lambda>r. rrsig_type_covered r \<noteq> Some 48) rrsigs"
  let ?k = "filter (\<lambda>r. rrsig_type_covered r = Some 48) rrsigs"
  have ne: "rrsigs \<noteq> []" using assms(3) by auto
  show ?thesis
  proof (cases "validate_each C now 0 records dnskeys ?a")
    case (Some v)
    with ne assms(2) validate_each_bogus [OF Some] show ?thesis by (simp add: validate_dnssec_def Let_def)
  next
    case None
    then have "rrsig \<in> set ?k"
      using validate_each_unparsed [OF assms(1) _ assms(4), of ?a C now 0 records] assms(3) by force
    then obtain v where v: "validate_each C now (length ?a) dnskeys dnskeys ?k = Some v"
      using validate_each_unparsed [OF assms(1) _ assms(4)] by blast
    with None ne assms(2) validate_each_bogus [OF v] show ?thesis by (simp add: validate_dnssec_def Let_def)
  qed
qed

lemma encode_labels_result: "encode_labels labels acc \<noteq> Panic \<and> encode_labels labels acc \<noteq> Diverge"
  by (induction labels acc rule: encode_labels.induct) auto

lemma resolve_dnssec_returns: "\<exists>records s'. resolve_dnssec E name rtype rclass s = (Ok records, s')"
proof -
  have "encode_domain_name name \<noteq> Panic" "encode_domain_name name \<noteq> Diverge"
    using encode_labels_result by (auto simp: encode_domain_name_def Let_def)
  then show ?thesis
    by (cases "encode_domain_name name")
      (auto simp: resolve_dnssec_def act_bind_def act_lift_def act_return_def on_world_def on_cache_def act_modify_def
        case_prod_unfold Let_def)
qed

lemma merge_key_rrsigs_keeps: "set rrsigs \<subseteq> set (merge_key_rrsigs rrsigs cached)"
  by (induction rrsigs cached rule: merge_key_rrsigs.induct) (auto split: if_splits)

text \<open>The records the cache has for a question that \<open>resolve\<close> is asked in state \<open>s\<close>.\<close>

definition cached_for where
  "cached_for E name rtype rclass s =
     (let clock = fst (e_instants E (snd (e_instants E (r_world s))))
      in map_option fst (fst (cache_lookup (e_cache E) clock name rtype rclass (r_cache s))))"

lemma resolve_by_cached:
  assumes "encode_domain_name name = Ok encoded" "cached_for E encoded rtype rclass s = Some records"
  shows "\<exists>s'. resolve_by E rr dnssec_ok name rtype rclass s = (Ok records, s')"
  using assms
  by (auto simp: cached_for_def resolve_by_def resolve_with_ad_by_def act_bind_def act_lift_def act_return_def on_world_def
      on_cache_def on_stats_def spawn_refresh_def act_modify_def case_prod_unfold Let_def)

lemma signer_signature:
  "List.map_filter (\<lambda>r. rrsig_signer (rr_parsed r)) rrsigs = signer # signers \<Longrightarrow> \<exists>rrsig \<in> set rrsigs. is_rrsig rrsig"
proof (induction rrsigs)
  case (Cons r rrsigs)
  then show ?case
    by (cases "rr_parsed r" rule: rrsig_signer.cases) (auto simp: List.map_filter_simps is_rrsig_def)
qed (simp add: List.map_filter_simps)

lemma judged_bogus:
  assumes "list_all (\<lambda>dk. rr_parsed dk = None) dnskeys" "dnskeys \<noteq> []" "rrsig \<in> set rrsigs" "is_rrsig rrsig"
  shows "fst (judge_answer E True name rclass labels direct rrsigs dnskeys s) =
    Err (Malformed ''DNSSEC validation failed: signature invalid or expired'')"
proof -
  let ?v = "validate_dnssec (e_crypto E) (fst (e_unix E (r_world s))) True direct rrsigs dnskeys"
  obtain reason where "?v = VR_Bogus reason" using validate_dnssec_unparsed [OF assms] by blast
  then show ?thesis
    by (simp add: judge_answer_def act_bind_def on_world_def act_modify_def act_lift_def case_prod_unfold Let_def)
qed

section \<open>Resolution without DNSSEC halts\<close>

lemma halts_iteration [halting]:
  "(\<And>x y. halts (f x y)) \<Longrightarrow> (\<And>x y. halts (g x y)) \<Longrightarrow> halts (case v of Answer x y \<Rightarrow> f x y | Continue x y \<Rightarrow> g x y)"
  by (simp split: iteration.split)

lemma ok_of_Diverge: "ok_of r = Diverge \<longleftrightarrow> r = Diverge"
  by (cases r) simp_all

lemma build_query_returns: "returns (build_query_static name rtype rclass i dnssec_ok recursive)"
proof -
  let ?m = "query_of name rtype rclass i dnssec_ok recursive"
  have too_small_returns: "too_small r \<Longrightarrow> returns r" for r :: "bytes dns_result" by (cases r) simp_all
  show ?thesis
    using encode_message_fits [OF query_sized] encode_message_overflow [OF query_sized]
    by (cases "length (message_wire ?m) \<le> MAX_DNS_MESSAGE_SIZE") (auto simp: build_query_static_def intro: too_small_returns)
qed

lemma prefix_loop_halts: "prefix_loop k i name r \<noteq> Diverge"
  by (induction k i name r rule: prefix_loop.induct) auto

lemma minimized_name_halts [halting]: "halts (act_lift (minimized_name name labels revealed))"
  by (rule halts_lift) (auto simp: minimized_name_def name_prefix_def Let_def prefix_loop_halts outcome_simps)

lemma query_halts [halting]: "halts (act_lift (build_query_static name rtype rclass i dnssec_ok recursive))"
  using build_query_returns by (intro halts_lift) (auto simp: returns_iff)

lemma on_world_halts [halting]: "halts (on_world f)" by (simp add: on_world_def halts_modify)
lemma on_cache_halts [halting]: "halts (on_cache f)" by (simp add: on_cache_def halts_modify)
lemma on_ns_cache_halts [halting]: "halts (on_ns_cache f)" by (simp add: on_ns_cache_def halts_modify)
lemma on_delegations_halts [halting]: "halts (on_delegations f)" by (simp add: on_delegations_def halts_modify)
lemma on_stats_halts [halting]: "halts (on_stats f)" by (simp add: on_stats_def halts_modify)

text \<open>A network in which no message makes the decoder loop.\<close>

locale cycle_free =
  fixes E :: "('c, 'n, 'd, 'r, 't, 'w) res_env"
  assumes udp_decodable: "fst (e_udp E q server w) = Some datagrams \<Longrightarrow> datagram \<in> set datagrams \<Longrightarrow>
      decode_message (take 8192 datagram) \<noteq> Diverge"
    and tcp_decodable: "fst (tcp_read_exact (e_tcp E) k stream w) = Some (data, stream') \<Longrightarrow>
      decode_message data \<noteq> Diverge"
begin

lemma first_match_halts:
  "(\<And>d. d \<in> set ds \<Longrightarrow> decode_message (take 8192 d) \<noteq> Diverge) \<Longrightarrow> first_match i ds \<noteq> Diverge"
  by (induction ds) (auto simp: Let_def ok_of_Diverge)

lemma exchange_decodable:
  "fst (tcp_exchange (e_tcp E) query stream w) = Some (data, stream') \<Longrightarrow> decode_message data \<noteq> Diverge"
  by (auto simp: tcp_exchange_def case_prod_unfold Let_def split: option.splits if_splits dest: tcp_decodable)

lemma pool_decodable:
  "fst (query_via_tcp_pool (e_tcp E) clock query server p w) = Some data \<Longrightarrow> decode_message data \<noteq> Diverge"
  by (auto simp: query_via_tcp_pool_def case_prod_unfold Let_def split: option.splits dest: exchange_decodable)

lemma tcp_query_decodable:
  "tcp_query E query server s = (Ok (Some data), s') \<Longrightarrow> decode_message data \<noteq> Diverge"
  by (auto simp: tcp_query_def act_bind_Ok act_modify_def case_prod_unfold Let_def dest!: pool_decodable)

lemma tcp_query_halts [halting]: "halts (tcp_query E query server)"
  unfolding tcp_query_def by (intro halting)

lemma decode_tcp_halts:
  "tcp_query E query server s = (Ok (Some data), s') \<Longrightarrow> halts (act_lift (ok_of (decode_message data)))"
  by (intro halts_lift) (simp add: ok_of_Diverge tcp_query_decodable)

lemma tcp_fallback_halts [halting]: "halts (tcp_fallback E query server m)"
  unfolding tcp_fallback_def
  by (intro halts_if halts_return halts_bind [OF on_world_halts] halts_bind [OF halts_modify]
      halts_bindI [OF tcp_query_halts]) (auto split: option.split intro!: halting decode_tcp_halts)

lemma record_rtt_halts [halting]: "halts (record_rtt E server rtt_ms now)"
  unfolding record_rtt_def by (intro halting)

lemma tcp_server_task_halts [halting]: "halts (tcp_server_task E query server)"
  unfolding tcp_server_task_def measure_tcp_rtt_def
  by (intro halts_bindI [OF tcp_query_halts]) (auto split: option.split intro!: halting decode_tcp_halts)

lemma received_halts:
  assumes "on_world (e_udp E q server) s = (Ok (Some datagrams), s')"
  shows "halts (act_lift (first_match i datagrams))"
proof (rule halts_lift, rule first_match_halts)
  fix d assume "d \<in> set datagrams"
  moreover have "fst (e_udp E q server (r_world s)) = Some datagrams"
    using assms by (auto simp: on_world_def act_modify_def case_prod_unfold Let_def)
  ultimately show "decode_message (take 8192 d) \<noteq> Diverge" by (rule udp_decodable [rotated])
qed

lemma udp_server_task_halts [halting]: "halts (udp_server_task E query i server)"
  unfolding udp_server_task_def
  by (intro halts_bind [OF on_world_halts] halts_bindI [OF on_world_halts])
    (auto split: option.split intro!: halting received_halts)

lemma server_task_halts: "fst (server_task E query i server s) \<noteq> Diverge"
  using tcp_server_task_halts udp_server_task_halts by (simp add: server_task_def halts_def)

lemma select_loop_halts [halting]: "halts (select_loop E query i False servers)"
proof (induction servers)
  case (Cons server servers)
  then show ?case
    using server_task_halts [of query i server]
    by (auto simp: halts_def case_prod_unfold split: outcome.split option.split)
qed (simp add: halts_def)

lemma query_servers_concurrent_halts [halting]: "halts (query_servers_concurrent E query i servers)"
  unfolding query_servers_concurrent_def sorted_servers_def by (intro halting)

lemma delegation_halts [halting]: "halts (cached_delegation E name)" "halts (cache_delegation E name servers)"
  unfolding cached_delegation_def cache_delegation_def Let_def by (intro halting)+

lemma cache_response_halts [halting]: "halts (cache_response E msg)"
  unfolding cache_response_def Let_def by (intro halting)

definition halting_at :: "nat \<Rightarrow> ('c, 'n, 'd, 'r, 't, 'w) resolve_fn \<Rightarrow> bool" where
  "halting_at depth rr \<longleftrightarrow>
     (\<forall>deadline name rtype rclass minimize. halts (rr deadline False name rtype rclass depth minimize))"

lemma halting_atD: "halting_at depth rr \<Longrightarrow> halts (rr deadline False name rtype rclass depth minimize)"
  by (simp add: halting_at_def)

lemma resolve_ns_names_halts:
  assumes "halting_at (depth + 1) rr" shows "halts (resolve_ns_names rr rclass depth names)"
proof (induction names)
  case (Cons name names)
  show ?case unfolding resolve_ns_names.simps Let_def
    by (rule halts_bind, rule halts_try, rule halting_atD [OF assms], rule halts_bind, rule Cons, rule halts_return)
qed (simp add: halting)

lemma follow_referral_halts:
  assumes "halting_at (depth + 1) rr" shows "halts (follow_referral E rr rclass depth msg ns_records)"
  unfolding follow_referral_def resolve_ns_names_concurrently_def Let_def
  by (intro halting resolve_ns_names_halts assms)

lemma no_answer_halts [halting]: "halts (no_answer E rr False name rtype rclass labels nameservers revealed msg)"
  unfolding no_answer_def Let_def unsigned_checks by (intro halting)

lemma process_response_halts:
  assumes "halting_at (depth + 1) rr"
  shows "halts (process_response E rr False name rtype rclass depth labels nameservers revealed msg)"
  unfolding process_response_def Let_def unsigned_checks
  by (intro halting halting_atD [OF assms] follow_referral_halts [OF assms])

lemma iterate_once_halts:
  assumes "halting_at (depth + 1) rr"
  shows "halts (iterate_once E rr False name rtype rclass depth labels nameservers revealed)"
  unfolding iterate_once_def Let_def unsigned_checks by (intro halting process_response_halts [OF assms])

lemma resolve_loop_halts:
  assumes "halting_at (depth + 1) rr"
  shows "halts (resolve_loop E rr err False name rtype rclass depth labels k nameservers revealed)"
proof (induction k arbitrary: nameservers revealed)
  case (Suc k)
  show ?case unfolding resolve_loop.simps by (intro halting iterate_once_halts [OF assms] Suc)
qed (simp add: halting)

lemma resolve_body_halts:
  assumes "depth \<le> MAX_CNAME_DEPTH \<Longrightarrow> halting_at (depth + 1) rr" shows "halting_at depth (resolve_body E rr)"
proof (cases "depth \<le> MAX_CNAME_DEPTH")
  case True
  show ?thesis
    unfolding halting_at_def resolve_body_def Let_def
    by (intro allI halting resolve_loop_halts assms True)
qed (simp add: halting_at_def resolve_body_def halting)

lemma resolve_recursive_halts: "MAX_CNAME_DEPTH + 1 - depth < fuel \<Longrightarrow> halting_at depth (resolve_recursive E fuel)"
proof (induction fuel arbitrary: depth)
  case (Suc fuel)
  then show ?case by (auto simp: resolve_recursive_Suc intro!: resolve_body_halts)
qed simp

lemma encode_halts [halting]: "halts (act_lift (encode_domain_name name))"
  using encode_domain_name_returns [of name] by (intro halts_lift) (auto simp: returns_iff)

lemma resolve_with_ad_halts: "MAX_CNAME_DEPTH + 1 < fuel \<Longrightarrow> halts (resolve_with_ad E fuel False name rtype rclass)"
  unfolding resolve_with_ad_def resolve_with_ad_by_def refresh_stale_def resolve_recursive_stale_def resolve_fresh_def
    store_fresh_def spawn_refresh_def
  by (intro halting halting_atD resolve_recursive_halts) simp_all

end

end
