(* ===== verification/Resolver_Bounds.thy ===== *)
theory Resolver_Bounds
  imports Resolver
begin

text \<open>
  The invariant of the state shared by all resolutions: every cache keeps its laws and its capacity,
  and no server has more than two idle connections.  The locale \<open>resolver_env\<close> is the interface to the
  \<open>lru\<close> crate, one instance per cache; every operation of the resolver preserves the invariant, whatever
  the network answers.
\<close>

section \<open>The invariant\<close>

definition resolver_inv ::
  "('c, 'n, 'd, 'r, 't, 'w) res_env \<Rightarrow> ('c \<Rightarrow> bool) \<Rightarrow> ('c \<Rightarrow> nat) \<Rightarrow> ('n \<Rightarrow> bool) \<Rightarrow> ('n \<Rightarrow> nat) \<Rightarrow>
     ('d \<Rightarrow> bool) \<Rightarrow> ('d \<Rightarrow> nat) \<Rightarrow> ('r \<Rightarrow> bool) \<Rightarrow> ('r \<Rightarrow> nat) \<Rightarrow> nat \<Rightarrow> ('c, 'n, 'd, 'r, 't, 'w) resolver \<Rightarrow> bool" where
  "resolver_inv E ok cap nok ncap dok dcap rok rcap n s \<longleftrightarrow>
     (\<exists>t. cache_inv (e_cache E) ok t (r_cache s)) \<and> cap (c_entries (r_cache s)) = max n 1 \<and>
     cap (c_stale_entries (r_cache s)) \<le> STALE_MAX_ENTRIES \<and>
     nok (r_ns_cache s) \<and> ncap (r_ns_cache s) = NS_CACHE_MAX \<and>
     dok (r_delegation_cache s) \<and> dcap (r_delegation_cache s) = DELEGATION_CACHE_MAX \<and>
     rok (r_server_rtt s) \<and> rcap (r_server_rtt s) = 256 \<and>
     (\<forall>server streams. tp_pool (r_tcp_pool s) server = Some streams \<longrightarrow> length streams \<le> TCP_POOL_PER_SERVER)"

locale resolver_env =
  cache: cache_lru "e_cache E" cap ok + ns: lru_crate "e_ns E" ncap nok +
  deleg: lru_crate "e_deleg E" dcap dok + rtt: lru_crate "e_rtt E" rcap rok
  for E :: "('c, 'n, 'd, 'r, 't, 'w) res_env" and cap :: "'c \<Rightarrow> nat" and ok and ncap :: "'n \<Rightarrow> nat" and nok
    and dcap :: "'d \<Rightarrow> nat" and dok and rcap :: "'r \<Rightarrow> nat" and rok +
  fixes n :: nat
begin

abbreviation I where "I \<equiv> resolver_inv E ok cap nok ncap dok dcap rok rcap n"

lemma on_world_keeps [keeps]: "preserves I (on_world f)"
  unfolding on_world_def by (rule preserves_modify) (simp add: resolver_inv_def case_prod_unfold Let_def)

lemma on_stats_keeps [keeps]: "preserves I (on_stats f)"
  unfolding on_stats_def by (rule preserves_modify) (simp add: resolver_inv_def)

lemma on_cache_keeps:
  assumes "\<And>c t. cache_inv (e_cache E) ok t c \<Longrightarrow> (\<exists>t. cache_inv (e_cache E) ok t (snd (f c))) \<and>
      cap (c_entries (snd (f c))) = cap (c_entries c) \<and> cap (c_stale_entries (snd (f c))) = cap (c_stale_entries c)"
  shows "preserves I (on_cache f)"
  unfolding on_cache_def using assms
  by (intro preserves_modify) (fastforce simp: resolver_inv_def case_prod_unfold Let_def)

lemma on_ns_cache_keeps:
  assumes "\<And>c. nok c \<Longrightarrow> nok (snd (f c)) \<and> ncap (snd (f c)) = ncap c"
  shows "preserves I (on_ns_cache f)"
  unfolding on_ns_cache_def using assms
  by (intro preserves_modify) (simp add: resolver_inv_def case_prod_unfold Let_def)

lemma on_delegations_keeps:
  assumes "\<And>c. dok c \<Longrightarrow> dok (snd (f c)) \<and> dcap (snd (f c)) = dcap c"
  shows "preserves I (on_delegations f)"
  unfolding on_delegations_def using assms
  by (intro preserves_modify) (simp add: resolver_inv_def case_prod_unfold Let_def)

lemma cache_lookup_keeps [keeps]: "preserves I (on_cache (cache_lookup (e_cache E) clock name rtype rclass))"
  by (rule on_cache_keeps) (auto simp: cache.cap_lookup cache.inv_ok intro: cache.lookup_inv)

lemma lookup_stale_keeps [keeps]: "preserves I (on_cache (lookup_stale (e_cache E) now name rtype rclass))"
  by (rule on_cache_keeps) (auto simp: cache.cap_lookup_stale cache.inv_ok intro: cache.lookup_stale_inv)

lemma insert_records_later:
  "cache_inv (e_cache E) ok t c \<Longrightarrow>
     (\<exists>t. cache_inv (e_cache E) ok t (insert_records (e_cache E) clock i recs c)) \<and>
     cap (c_entries (insert_records (e_cache E) clock i recs c)) = cap (c_entries c) \<and>
     cap (c_stale_entries (insert_records (e_cache E) clock i recs c)) = cap (c_stale_entries c)"
proof (induction recs arbitrary: i c t)
  case (Cons r recs)
  let ?c = "cache_insert (e_cache E) (clock i) (rr_name r) (rr_type r) (rr_class r) (rr_ttl r) (rr_rdata r)
      (rr_rdlength r) c"
  have "cache_inv (e_cache E) ok (max t (clock i)) c" using Cons.prems by (rule cache_inv_mono) simp
  then have "cache_inv (e_cache E) ok (max t (clock i)) ?c" by (rule cache.insert_inv) simp
  from Cons.IH [OF this] cache.cap_insert [OF conjunct1 [OF cache.inv_ok [OF Cons.prems]]]
  show ?case by simp
qed auto

lemma insert_records_keeps [keeps]:
  "preserves I (on_cache (\<lambda>c. ((), insert_records (e_cache E) clock i recs c)))"
  by (rule on_cache_keeps) (use insert_records_later in simp)

lemma clear_keeps [keeps]: "preserves I (on_cache (\<lambda>c. ((), cache_clear (e_cache E) c)))"
  by (rule on_cache_keeps) (auto simp: cache.cap_clear cache.inv_ok intro: cache.clear_inv)

lemma store_fresh_keeps [keeps]: "preserves I (store_fresh E records)"
  unfolding store_fresh_def by (intro keeps)

lemma deleg_walk_ok:
  "dok dc \<Longrightarrow> dok (snd (deleg_walk (e_deleg E) clock i suf dc)) \<and>
     dcap (snd (deleg_walk (e_deleg E) clock i suf dc)) = dcap dc"
proof (induction "e_deleg E" clock i suf dc rule: deleg_walk.induct)
  case (2 clock i b rest dc)
  show ?case
  proof (cases "lru_get (e_deleg E) dc (b # rest)")
    case (Pair r dc')
    with deleg.get_ok [OF "2.prems"] deleg.get_cap [OF "2.prems"] have dc': "dok dc'" "dcap dc' = dcap dc"
      by (metis snd_conv)+
    with Pair 2 show ?thesis by (fastforce simp: Let_def split: option.split)
  qed
qed simp

lemma cached_delegation_keeps [keeps]: "preserves I (cached_delegation E name)"
  unfolding cached_delegation_def
  by (intro keeps on_delegations_keeps) (simp add: find_cached_delegation_def deleg_walk_ok)

lemma cache_delegation_keeps [keeps]: "preserves I (cache_delegation E zone ips)"
  unfolding cache_delegation_def Let_def
  by (intro keeps on_delegations_keeps) (simp add: deleg.ok_rules deleg.cap_rules)

lemma remember_address_ok:
  "nok nc \<Longrightarrow> nok (remember_address (e_ns E) v6 rec nc) \<and> ncap (remember_address (e_ns E) v6 rec nc) = ncap nc"
  by (simp add: remember_address_def case_prod_unfold Let_def ns.ok_rules ns.cap_rules split: option.split)

lemma fold_ns_ok:
  assumes "\<And>x nc. nok nc \<Longrightarrow> nok (f x nc) \<and> ncap (f x nc) = ncap nc"
  shows "nok nc \<Longrightarrow> nok (fold f xs nc) \<and> ncap (fold f xs nc) = ncap nc"
  using assms by (induction xs arbitrary: nc) auto

lemma cache_response_keeps [keeps]: "preserves I (cache_response E msg)"
  unfolding cache_response_def Let_def
  by (intro keeps on_ns_cache_keeps) (simp add: fold_ns_ok remember_address_ok)

end

lemma preserves_result [keeps]:
  "preserves P m1 \<Longrightarrow> preserves P m2 \<Longrightarrow> (\<And>x. preserves P (f x)) \<Longrightarrow> preserves P m3 \<Longrightarrow>
     preserves P (case v of VR_Secure \<Rightarrow> m1 | VR_Insecure \<Rightarrow> m2 | VR_Bogus x \<Rightarrow> f x | VR_Indeterminate \<Rightarrow> m3)"
  by (simp split: validation_result.split)

lemma preserves_iteration [keeps]:
  "(\<And>x y. preserves P (f x y)) \<Longrightarrow> (\<And>x y. preserves P (g x y)) \<Longrightarrow>
     preserves P (case v of Answer x y \<Rightarrow> f x y | Continue x y \<Rightarrow> g x y)"
  by (simp split: iteration.split)

definition pool_bounded :: "'t tcp_pool \<Rightarrow> bool" where
  "pool_bounded p \<longleftrightarrow> (\<forall>server streams. tp_pool p server = Some streams \<longrightarrow> length streams \<le> TCP_POOL_PER_SERVER)"

lemma acquire_bounded: "pool_bounded p \<Longrightarrow> pool_bounded (snd (acquire now server p))"
  using suffix_length_le [OF acquire_loop_suffix [of now "rev streams" for streams]]
  by (fastforce simp: pool_bounded_def acquire_def case_prod_unfold Let_def split: option.split intro: order_trans)

lemma release_bounded:
  assumes "pool_bounded p" shows "pool_bounded (release now server stream p)"
proof -
  have "length (filter (idle_live now) (case tp_pool p server of Some ss \<Rightarrow> ss | None \<Rightarrow> [])) \<le> TCP_POOL_PER_SERVER"
    using assms by (auto simp: pool_bounded_def split: option.split intro: order_trans [OF length_filter_le])
  with assms show ?thesis by (simp add: pool_bounded_def release_def Let_def)
qed

lemma cleanup_bounded: "pool_bounded p \<Longrightarrow> pool_bounded (cleanup now p)"
  by (force simp: pool_bounded_def cleanup_def Let_def split: option.splits if_splits
      intro: order_trans [OF length_filter_le])

lemma query_via_tcp_pool_bounded:
  "pool_bounded p \<Longrightarrow> pool_bounded (fst (snd (query_via_tcp_pool T clock query server p w)))"
  using acquire_bounded [of p "clock 0" server]
  by (auto simp: query_via_tcp_pool_def case_prod_unfold Let_def release_bounded split: option.split prod.split)

context resolver_env
begin

lemma resolver_inv_pool:
  "I s \<Longrightarrow> pool_bounded p \<Longrightarrow> I (s\<lparr>r_tcp_pool := p, r_world := w\<rparr>)"
  by (simp add: resolver_inv_def pool_bounded_def)

lemma tcp_query_keeps [keeps]: "preserves I (tcp_query E query_bytes server)"
  unfolding tcp_query_def
proof (intro keeps preserves_modify)
  fix clock s assume s: "I s"
  then have "pool_bounded (r_tcp_pool s)" by (simp add: resolver_inv_def pool_bounded_def)
  from resolver_inv_pool [OF s query_via_tcp_pool_bounded [OF this, of "e_tcp E" clock query_bytes server "r_world s"]]
  show "I (snd (let (r, p, w) = query_via_tcp_pool (e_tcp E) clock query_bytes server (r_tcp_pool s) (r_world s)
      in (r, s\<lparr>r_tcp_pool := p, r_world := w\<rparr>)))"
    by (simp add: case_prod_unfold Let_def)
qed

lemma smoothed_rtt_ok:
  "rok r \<Longrightarrow> rok (smoothed_rtt E server rtt_ms now r) \<and> rcap (smoothed_rtt E server rtt_ms now r) = rcap r"
  by (simp add: smoothed_rtt_def case_prod_unfold Let_def rtt.ok_rules rtt.cap_rules)

lemma record_rtt_keeps [keeps]: "preserves I (record_rtt E server rtt_ms now)"
  unfolding record_rtt_def by (rule preserves_modify) (simp add: resolver_inv_def smoothed_rtt_ok)

lemma measure_tcp_rtt_keeps [keeps]: "preserves I (measure_tcp_rtt E query_bytes server)"
  unfolding measure_tcp_rtt_def by (intro keeps)

lemma tcp_fallback_keeps [keeps]: "preserves I (tcp_fallback E query_bytes server m)"
  unfolding tcp_fallback_def by (intro keeps preserves_modify) (simp add: resolver_inv_def)

lemma udp_server_task_keeps [keeps]: "preserves I (udp_server_task E query_bytes expected_id server)"
  unfolding udp_server_task_def by (intro keeps)

lemma tcp_server_task_keeps [keeps]: "preserves I (tcp_server_task E query_bytes server)"
  unfolding tcp_server_task_def by (intro keeps)

lemma server_task_keeps [keeps]: "preserves I (server_task E query_bytes expected_id server)"
  using tcp_server_task_keeps [of query_bytes server] udp_server_task_keeps [of query_bytes expected_id server]
  by (simp add: preserves_def server_task_def)

lemma fold_rtt_ok: "rok r \<Longrightarrow> rok (fold (\<lambda>k r. snd (lru_get (e_rtt E) r k)) ks r) \<and>
    rcap (fold (\<lambda>k r. snd (lru_get (e_rtt E) r k)) ks r) = rcap r"
  by (induction ks arbitrary: r) (simp_all add: rtt.ok_rules rtt.cap_rules)

lemma sorted_servers_keeps [keeps]: "preserves I (sorted_servers E default_ms servers)"
  unfolding sorted_servers_def Let_def
  by (intro keeps preserves_modify) (simp add: resolver_inv_def fold_rtt_ok)

lemma select_loop_keeps [keeps]: "preserves I (select_loop E query_bytes expected_id hanging servers)"
proof (induction servers arbitrary: hanging)
  case (Cons server servers)
  show ?case
  proof (unfold preserves_def, intro allI impI)
    fix s assume "I s"
    then have "I (snd (server_task E query_bytes expected_id server s))"
      using server_task_keeps unfolding preserves_def by blast
    with Cons show "I (snd (select_loop E query_bytes expected_id hanging (server # servers) s))"
      by (simp add: preserves_def case_prod_unfold split: outcome.split option.split)
        (simp add: resolver_inv_def)
  qed
qed (simp add: preserves_def)

lemma query_servers_concurrent_keeps [keeps]: "preserves I (query_servers_concurrent E query_bytes i servers)"
  unfolding query_servers_concurrent_def by (intro keeps)

lemma query_rd1_keeps [keeps]: "preserves I (query_rd1 E name rtype rclass servers)"
  unfolding query_rd1_def by (intro keeps)

lemma resolve_dnssec_keeps [keeps]: "preserves I (resolve_dnssec E name rtype rclass)"
  unfolding resolve_dnssec_def by (intro keeps)

lemma spawn_refresh_keeps [keeps]: "preserves I (spawn_refresh name rtype rclass)"
  unfolding spawn_refresh_def by (rule preserves_modify) (simp add: resolver_inv_def)

definition keeping :: "('c, 'n, 'd, 'r, 't, 'w) resolve_fn \<Rightarrow> bool" where
  "keeping rr \<longleftrightarrow> (\<forall>deadline dnssec_ok name rtype rclass depth minimize.
     preserves I (rr deadline dnssec_ok name rtype rclass depth minimize))"

lemma keepingD: "keeping rr \<Longrightarrow> preserves I (rr deadline dnssec_ok name rtype rclass depth minimize)"
  by (simp add: keeping_def)

lemma resolve_with_ad_by_keeps [keeps]:
  assumes "keeping rr" shows "preserves I (resolve_with_ad_by E rr dnssec_ok name rtype rclass)"
  unfolding resolve_with_ad_by_def refresh_stale_def resolve_recursive_stale_def resolve_fresh_def
  by (intro keeps keepingD [OF assms] assms)

lemma resolve_by_keeps [keeps]:
  assumes "keeping rr" shows "preserves I (resolve_by E rr dnssec_ok name rtype rclass)"
  unfolding resolve_by_def by (intro keeps keepingD [OF assms] assms)

lemma zone_server_ips_ok:
  "nok nc \<Longrightarrow> nok (snd (zone_server_ips (e_ns E) adds nss ips nc)) \<and>
     ncap (snd (zone_server_ips (e_ns E) adds nss ips nc)) = ncap nc"
proof (induction nss arbitrary: ips nc)
  case (Cons x nss)
  then show ?case
    using ns.get_ok [OF Cons.prems] ns.get_cap [OF Cons.prems]
    by (auto simp: Let_def case_prod_unfold split: option.split)
qed simp

lemma referral_servers_ok:
  "nok nc \<Longrightarrow> nok (snd (referral_servers (e_ns E) v6 adds nss found nc)) \<and>
     ncap (snd (referral_servers (e_ns E) v6 adds nss found nc)) = ncap nc"
proof (induction nss arbitrary: found nc)
  case (Cons x nss)
  then show ?case
    using ns.get_ok [OF Cons.prems] ns.get_cap [OF Cons.prems]
    by (auto simp: Let_def case_prod_unfold split: option.split)
qed simp

end

context resolver_env
begin

lemma ask_roots_for_ns_keeps [keeps]: "preserves I (ask_roots_for_ns E zone)"
  unfolding ask_roots_for_ns_def by (intro keeps on_ns_cache_keeps zone_server_ips_ok)

lemma ns_get_keeps [keeps]: "preserves I (on_ns_cache (\<lambda>nc. lru_get (e_ns E) nc zone))"
  by (rule on_ns_cache_keeps) (simp add: ns.ok_rules ns.cap_rules)

lemma get_nameservers_for_zone_keeps [keeps]: "preserves I (get_nameservers_for_zone E zone)"
  unfolding get_nameservers_for_zone_def by (intro keeps)

lemma query_ds_records_keeps [keeps]: "preserves I (query_ds_records E child zone)"
  unfolding query_ds_records_def ask_zone_def by (intro keeps)

lemma query_dnskey_records_keeps [keeps]: "preserves I (query_dnskey_records E zone)"
  unfolding query_dnskey_records_def ask_zone_def by (intro keeps)

lemma validate_dnssec_chain_keeps [keeps]: "preserves I (validate_dnssec_chain E zone dnskeys rrsigs signer depth)"
proof (induction "11 - depth" arbitrary: zone dnskeys rrsigs signer depth rule: less_induct)
  case less
  show ?case
  proof (cases "depth > 10")
    case False
    then have "preserves I (validate_dnssec_chain E z k r sg (depth + 1))" for z k r sg
      by (intro less) simp
    then show ?thesis
      unfolding validate_dnssec_chain.simps [of E zone dnskeys] Let_def by (intro keeps)
  qed (simp add: validate_dnssec_chain.simps preserves_return)
qed

lemma validate_negative_keeps [keeps]:
  assumes "keeping rr"
  shows "preserves I (validate_negative_dnssec_response E rr dnssec_ok msg name rclass qtype)"
  unfolding validate_negative_dnssec_response_def Let_def by (intro keeps keepingD [OF assms] assms)

lemma parent_has_ds_keeps [keeps]: "preserves I (parent_has_ds E name rclass k)"
  by (induction k) (auto intro!: keeps)

lemma check_direct_keeps [keeps]:
  assumes "keeping rr"
  shows "preserves I (check_direct E rr dnssec_ok name rtype rclass labels nameservers msg direct)"
  unfolding check_direct_def rd1_material_def key_material_def judge_answer_def chain_check_def Let_def
  by (intro keeps keepingD [OF assms] assms)

lemma resolve_ns_names_keeps [keeps]:
  assumes "keeping rr" shows "preserves I (resolve_ns_names rr rclass depth names)"
proof (induction names)
  case Nil
  show ?case by (simp add: keeps)
next
  case (Cons name names)
  show ?case unfolding resolve_ns_names.simps Let_def by (intro keeps keepingD [OF assms] Cons)
qed

lemma put_known_ok:
  "nok nc \<Longrightarrow> nok (fold (\<lambda>(ns_name, ips) nc. lru_put (e_ns E) nc ns_name ips) known nc) \<and>
     ncap (fold (\<lambda>(ns_name, ips) nc. lru_put (e_ns E) nc ns_name ips) known nc) = ncap nc"
  by (rule fold_ns_ok) (simp_all add: case_prod_unfold ns.ok_rules ns.cap_rules)

lemma follow_referral_keeps [keeps]:
  assumes "keeping rr" shows "preserves I (follow_referral E rr rclass depth msg ns_records)"
  unfolding follow_referral_def resolve_ns_names_concurrently_def Let_def
  by (intro keeps on_ns_cache_keeps assms; simp add: referral_servers_ok put_known_ok)

lemma no_answer_keeps [keeps]:
  assumes "keeping rr"
  shows "preserves I (no_answer E rr dnssec_ok name rtype rclass labels nameservers revealed msg)"
  unfolding no_answer_def Let_def by (intro keeps keepingD [OF assms] assms)

lemma process_response_keeps [keeps]:
  assumes "keeping rr"
  shows "preserves I (process_response E rr dnssec_ok name rtype rclass depth labels nameservers revealed msg)"
  unfolding process_response_def Let_def by (intro keeps keepingD [OF assms] assms)

lemma iterate_once_keeps [keeps]:
  assumes "keeping rr"
  shows "preserves I (iterate_once E rr dnssec_ok name rtype rclass depth labels nameservers revealed)"
  unfolding iterate_once_def Let_def by (intro keeps keepingD [OF assms] assms)

lemma resolve_loop_keeps [keeps]:
  assumes "keeping rr"
  shows "preserves I (resolve_loop E rr err dnssec_ok name rtype rclass depth labels k nameservers revealed)"
proof (induction k arbitrary: nameservers revealed)
  case 0
  show ?case by (simp add: keeps)
next
  case (Suc k)
  show ?case unfolding resolve_loop.simps by (intro keeps assms Suc)
qed

lemma resolve_body_keeps:
  assumes "keeping rr" shows "keeping (resolve_body E rr)"
  unfolding keeping_def [of "resolve_body E rr"] resolve_body_def Let_def
  by (intro allI keeps keepingD [OF assms] assms)

lemma resolve_recursive_keeps [keeps]: "keeping (resolve_recursive E fuel)"
proof (induction fuel)
  case 0
  show ?case by (simp add: keeping_def keeps)
next
  case (Suc fuel)
  have "resolve_recursive E (Suc fuel) = resolve_body E (resolve_recursive E fuel)" by (simp add: fun_eq_iff)
  with resolve_body_keeps [OF Suc] show ?case by simp
qed

lemma resolve_with_ad_keeps [keeps]: "preserves I (resolve_with_ad E fuel dnssec_ok name rtype rclass)"
  unfolding resolve_with_ad_def by (intro keeps)

lemma resolve_keeps [keeps]: "preserves I (resolve E fuel dnssec_ok name rtype rclass)"
  unfolding resolve_def by (intro keeps)

lemma prefetch_keeps [keeps]: "preserves I (prefetch E fuel dnssec_ok name rtype)"
  unfolding prefetch_def by (intro keeps)

lemma flush_cache_keeps [keeps]: "preserves I (flush_cache E)"
  unfolding flush_cache_def by (intro keeps)

lemma resolve_via_doh_keeps [keeps]: "preserves I (resolve_via_doh E dnssec_ok name rtype rclass)"
  unfolding resolve_via_doh_def doh_answer_def Let_def by (intro keeps)

lemma resolve_with_fallback_keeps [keeps]: "preserves I (resolve_with_fallback E fuel dnssec_ok name rtype rclass)"
  unfolding resolve_with_fallback_def by (intro keeps)

end

end
