(* ===== verification/Resolver_Tasks.thy ===== *)
theory Resolver_Tasks
  imports Resolver_Answers Resolver_Bounds
begin

text \<open>
  The life of a resolver (\<open>RecursiveResolver::new\<close> and \<open>spawn_background_tasks\<close> of
  \<open>src/src/resolver/recursive.rs\<close>): its start, the rounds of its background loops, and the runs in which
  these interleave with calls of the public interface.
\<close>

section \<open>Background tasks\<close>

text \<open>
  A round of each loop of \<open>spawn_background_tasks\<close>.  Writing the file of round-trip times and probing
  a server are operations of the environment: \<open>write_file\<close> and \<open>probe\<close>, which gives nothing when no
  socket can be bound, and otherwise whether a datagram came back in time.
\<close>

definition rtt_saver_round ::
  "('c, 'n, 'd, 'r, 't, 'w) res_env \<Rightarrow> (bytes \<Rightarrow> 'w \<Rightarrow> 'w) \<Rightarrow> ('c, 'n, 'd, 'r, 't, 'w, unit) ract" where
  "rtt_saver_round E write_file =
     act_bind (act_modify (\<lambda>s. (map (\<lambda>(ip, rtt, _). (ip, rtt)) (lru_iter (e_rtt E) (r_server_rtt s)), s))) (\<lambda>entries.
       if entries \<noteq> [] then
         act_bind (on_world (e_unix E)) (\<lambda>unix.
           on_world (\<lambda>w. ((), write_file (save_rtt_cache (unix 0) entries) w)))
       else act_return ())"

definition pool_cleaner_round ::
  "('c, 'n, 'd, 'r, 't, 'w) res_env \<Rightarrow> ('c, 'n, 'd, 'r, 't, 'w, unit) ract" where
  "pool_cleaner_round E =
     act_bind (on_world (e_instants E)) (\<lambda>clock.
       act_modify (\<lambda>s. ((), s\<lparr>r_tcp_pool := cleanup (clock 0) (r_tcp_pool s)\<rparr>)))"

definition retain :: "('k \<Rightarrow> 'v \<Rightarrow> bool) \<Rightarrow> ('k \<rightharpoonup> 'v) \<Rightarrow> ('k \<rightharpoonup> 'v)" where
  "retain good m k = (case m k of Some v \<Rightarrow> if good k v then Some v else None | None \<Rightarrow> None)"

definition trunc_cleaner_round ::
  "('c, 'n, 'd, 'r, 't, 'w) res_env \<Rightarrow> ('c, 'n, 'd, 'r, 't, 'w, unit) ract" where
  "trunc_cleaner_round E =
     act_bind (on_world (e_instants E)) (\<lambda>clock.
       act_modify (\<lambda>s. ((), s\<lparr>r_truncation_cache := retain (\<lambda>_ expiry. expiry > clock 0) (r_truncation_cache s)\<rparr>)))"

definition cache_cleaner_round ::
  "('c, 'n, 'd, 'r, 't, 'w) res_env \<Rightarrow> ('c, 'n, 'd, 'r, 't, 'w, unit) ract" where
  "cache_cleaner_round E =
     act_bind (on_world (e_instants E)) (\<lambda>clock.
       on_cache (\<lambda>c. ((), purge_expired (e_cache E) (clock 0) c)))"

section \<open>Health checks\<close>

definition default_health :: server_health where
  "default_health = \<lparr>sh_consecutive_failures = 0, sh_last_success = None\<rparr>"

definition health_of :: "(ip_addr \<rightharpoonup> server_health) \<Rightarrow> ip_addr \<Rightarrow> server_health" where
  "health_of health server = (case health server of Some h \<Rightarrow> h | None \<Rightarrow> default_health)"

definition keep_health :: "nat \<Rightarrow> server_health \<Rightarrow> bool" where
  "keep_health stale_cutoff h =
     (case sh_last_success h of
        Some ts \<Rightarrow> ts \<ge> stale_cutoff
      | None \<Rightarrow> sh_consecutive_failures h < HEALTH_PENALTY_THRESHOLD)"

text \<open>
  \<open>Instant::now() - d\<close>.  An instant counts from the start of the machine.  Where it is signed (Unix) the
  result may lie before that, earlier than every instant that was ever read, as zero is; where it is
  not (Windows) such a subtraction panics.
\<close>

definition instant_sub :: "bool \<Rightarrow> nat \<Rightarrow> nat \<Rightarrow> nat dns_result" where
  "instant_sub signed_time now d = (if d \<le> now \<or> signed_time then Ok (now - d) else Panic)"

definition health_prune ::
  "('c, 'n, 'd, 'r, 't, 'w) res_env \<Rightarrow> bool \<Rightarrow> ('c, 'n, 'd, 'r, 't, 'w, unit) ract" where
  "health_prune E signed_time =
     act_bind (on_world (e_instants E)) (\<lambda>clock.
     act_bind (act_lift (instant_sub signed_time (clock 0) (3600 * NANOS_PER_SEC))) (\<lambda>stale_cutoff.
       act_modify (\<lambda>s. ((), s\<lparr>r_server_health := retain (\<lambda>_ h. keep_health stale_cutoff h) (r_server_health s)\<rparr>))))"

definition servers_to_check ::
  "('c, 'n, 'd, 'r, 't, 'w) res_env \<Rightarrow> ('c, 'n, 'd, 'r, 't, 'w, ip_addr list) ract" where
  "servers_to_check E =
     act_bind (act_modify (\<lambda>s. (map fst (lru_iter (e_rtt E) (r_server_rtt s)), s))) (\<lambda>servers.
     act_bind (sorted_servers E 999 servers) (\<lambda>servers.
       act_return (take HEALTH_CHECK_COUNT servers)))"

definition probe_succeeded ::
  "('c, 'n, 'd, 'r, 't, 'w) res_env \<Rightarrow> (nat \<Rightarrow> nat) \<Rightarrow> ip_addr \<Rightarrow> ('c, 'n, 'd, 'r, 't, 'w, unit) ract" where
  "probe_succeeded E clock server =
     act_bind (record_rtt E server (elapsed_ms (e_f64 E) (clock 1 - clock 0)) (clock 2)) (\<lambda>_.
       act_modify (\<lambda>s. ((), s\<lparr>r_server_health := (r_server_health s)(server \<mapsto>
         (health_of (r_server_health s) server)\<lparr>sh_consecutive_failures := 0, sh_last_success := Some (clock 3)\<rparr>)\<rparr>)))"

definition penalised ::
  "('c, 'n, 'd, 'r, 't, 'w) res_env \<Rightarrow> (nat \<Rightarrow> nat) \<Rightarrow> ip_addr \<Rightarrow> 'r \<Rightarrow> 'r" where
  "penalised E clock server rtt =
     (case lru_get (e_rtt E) rtt server of
        (Some (avg, _), rtt) \<Rightarrow>
          lru_put (e_rtt E) rtt server (f_add (e_f64 E) avg (f_lit (e_f64 E) HEALTH_PENALTY_MS 1), clock 1)
      | (None, rtt) \<Rightarrow> rtt)"

definition probe_failed ::
  "('c, 'n, 'd, 'r, 't, 'w) res_env \<Rightarrow> (nat \<Rightarrow> nat) \<Rightarrow> ip_addr \<Rightarrow> ('c, 'n, 'd, 'r, 't, 'w, unit) ract" where
  "probe_failed E clock server =
     act_modify (\<lambda>s.
       let h = health_of (r_server_health s) server;
           failures = sh_consecutive_failures h + 1
       in ((), s\<lparr>r_server_health := (r_server_health s)(server \<mapsto> h\<lparr>sh_consecutive_failures := failures\<rparr>),
                r_server_rtt := (if failures \<ge> HEALTH_PENALTY_THRESHOLD
                                 then penalised E clock server (r_server_rtt s) else r_server_rtt s)\<rparr>))"

definition check_server ::
  "('c, 'n, 'd, 'r, 't, 'w) res_env \<Rightarrow> (bytes \<Rightarrow> ip_addr \<Rightarrow> 'w \<Rightarrow> bool option \<times> 'w) \<Rightarrow> bytes \<Rightarrow> ip_addr \<Rightarrow>
     ('c, 'n, 'd, 'r, 't, 'w, unit) ract" where
  "check_server E probe q server =
     act_bind (on_world (e_instants E)) (\<lambda>clock.
     act_bind (on_world (probe q server)) (\<lambda>answered.
       case answered of
         None \<Rightarrow> act_return ()
       | Some recv_ok \<Rightarrow> if recv_ok then probe_succeeded E clock server else probe_failed E clock server))"

fun check_servers ::
  "('c, 'n, 'd, 'r, 't, 'w) res_env \<Rightarrow> (bytes \<Rightarrow> ip_addr \<Rightarrow> 'w \<Rightarrow> bool option \<times> 'w) \<Rightarrow> bytes \<Rightarrow> ip_addr list \<Rightarrow>
     ('c, 'n, 'd, 'r, 't, 'w, unit) ract" where
  "check_servers E probe q [] = act_return ()"
| "check_servers E probe q (server # servers) =
     act_bind (check_server E probe q server) (\<lambda>_. check_servers E probe q servers)"

definition health_round ::
  "('c, 'n, 'd, 'r, 't, 'w) res_env \<Rightarrow> bool \<Rightarrow> (bytes \<Rightarrow> ip_addr \<Rightarrow> 'w \<Rightarrow> bool option \<times> 'w) \<Rightarrow>
     ('c, 'n, 'd, 'r, 't, 'w, unit) ract" where
  "health_round E signed_time probe =
     act_bind (health_prune E signed_time) (\<lambda>_.
     act_bind (servers_to_check E) (\<lambda>servers.
       if servers = [] then act_return ()
       else
         act_bind (on_world (e_random E)) (\<lambda>i.
         act_bind (act_lift (ok_of (build_query_static [0] 1 1 i False False))) (\<lambda>q.
           check_servers E probe (case q of Some root_query \<Rightarrow> root_query | None \<Rightarrow> []) servers))))"

section \<open>Start\<close>

text \<open>
  \<open>RecursiveResolver::new\<close>: \<open>bound\<close> is the error of binding the socket, if any, and \<open>listing\<close> the order
  in which the entries of a hash map are visited.
\<close>

definition zero_stats :: resolver_stats where
  "zero_stats = \<lparr>rs_total_queries = 0, rs_cache_hits = 0, rs_cache_misses = 0, rs_failed_queries = 0,
     rs_served_stale = 0, rs_avg_resolve_time_ms = 0, rs_min_resolve_time_ms = 0, rs_max_resolve_time_ms = 0\<rparr>"

definition resolver_new ::
  "('c, 'n, 'd, 'r, 't, 'w) res_env \<Rightarrow> io_error option \<Rightarrow> (rtt_map \<Rightarrow> (ip_addr \<times> u64 \<times> nat) list) \<Rightarrow>
     (nat \<Rightarrow> nat) \<Rightarrow> (nat \<Rightarrow> nat) \<Rightarrow> bytes option \<Rightarrow> nat \<Rightarrow> 'w \<Rightarrow> ('c, 'n, 'd, 'r, 't, 'w) resolver dns_result" where
  "resolver_new E bound listing unix instant file cache_size w =
     (case bound of
        Some e \<Rightarrow> Err (Io e)
      | None \<Rightarrow>
          let persisted_rtt = load_rtt_cache unix instant file;
              rtt = fold (\<lambda>(ip, v) rtt. lru_put (e_rtt E) rtt ip v) (listing persisted_rtt) (lru_new (e_rtt E) 256)
          in Ok \<lparr>r_cache = with_max_entries (e_cache E) cache_size,
                 r_ns_cache = lru_new (e_ns E) NS_CACHE_MAX,
                 r_delegation_cache = lru_new (e_deleg E) DELEGATION_CACHE_MAX,
                 r_stats = zero_stats, r_server_rtt = rtt, r_server_health = Map.empty,
                 r_tcp_pool = pool_new, r_truncation_cache = Map.empty,
                 r_pending = [], r_spawned = [], r_world = w\<rparr>)"

section \<open>Steps and runs\<close>

text \<open>The task of a background refresh, spawned by a cache hit.\<close>

definition refresh_task ::
  "('c, 'n, 'd, 'r, 't, 'w) res_env \<Rightarrow> nat \<Rightarrow> bool \<Rightarrow> string \<Rightarrow> u16 \<Rightarrow> u16 \<Rightarrow> ('c, 'n, 'd, 'r, 't, 'w, unit) ract" where
  "refresh_task E fuel dnssec_ok name rtype rclass =
     act_bind (act_lift (ok_of (encode_domain_name name))) (\<lambda>encoded.
     act_bind (act_try (resolve_recursive E fuel None dnssec_ok (case encoded of Some b \<Rightarrow> b | None \<Rightarrow> []) rtype rclass 0 True))
       (\<lambda>_. act_return ()))"

text \<open>
  What can happen to the shared state: a call of the public interface, a task that an earlier call
  left behind, or a round of a background loop, each as one step.  A round that panics ends its loop in
  the code; here the loop may go on, so there are more runs than the code has.
\<close>

inductive resolver_step ::
  "('c, 'n, 'd, 'r, 't, 'w) res_env \<Rightarrow> (bytes \<Rightarrow> 'w \<Rightarrow> 'w) \<Rightarrow> (bytes \<Rightarrow> ip_addr \<Rightarrow> 'w \<Rightarrow> bool option \<times> 'w) \<Rightarrow>
     ('c, 'n, 'd, 'r, 't, 'w) resolver \<Rightarrow> ('c, 'n, 'd, 'r, 't, 'w) resolver \<Rightarrow> bool"
  for E write_file probe where
  step_resolve: "resolve_with_ad E fuel dnssec_ok name rtype rclass s = (r, s') \<Longrightarrow> resolver_step E write_file probe s s'"
| step_fallback: "resolve_with_fallback E fuel dnssec_ok name rtype rclass s = (q, s') \<Longrightarrow>
     resolver_step E write_file probe s s'"
| step_doh: "resolve_via_doh E dnssec_ok name rtype rclass s = (q, s') \<Longrightarrow> resolver_step E write_file probe s s'"
| step_dnssec: "resolve_dnssec E name rtype rclass s = (q, s') \<Longrightarrow> resolver_step E write_file probe s s'"
| step_prefetch: "prefetch E fuel dnssec_ok name rtype s = (u, s') \<Longrightarrow> resolver_step E write_file probe s s'"
| step_flush: "flush_cache E s = (u, s') \<Longrightarrow> resolver_step E write_file probe s s'"
| step_pending: "r_pending s = before @ (server, query_bytes, expected_id) # behind \<Longrightarrow>
     server_task E query_bytes expected_id server (s\<lparr>r_pending := before @ behind\<rparr>) = (m, s') \<Longrightarrow>
     resolver_step E write_file probe s s'"
| step_refresh: "r_spawned s = before @ (name, rtype, rclass) # behind \<Longrightarrow>
     refresh_task E fuel dnssec_ok name rtype rclass (s\<lparr>r_spawned := before @ behind\<rparr>) = (u, s') \<Longrightarrow>
     resolver_step E write_file probe s s'"
| step_rtt_saver: "rtt_saver_round E write_file s = (u, s') \<Longrightarrow> resolver_step E write_file probe s s'"
| step_pool_cleaner: "pool_cleaner_round E s = (u, s') \<Longrightarrow> resolver_step E write_file probe s s'"
| step_trunc_cleaner: "trunc_cleaner_round E s = (u, s') \<Longrightarrow> resolver_step E write_file probe s s'"
| step_cache_cleaner: "cache_cleaner_round E s = (u, s') \<Longrightarrow> resolver_step E write_file probe s s'"
| step_health: "health_round E signed_time probe s = (u, s') \<Longrightarrow> resolver_step E write_file probe s s'"

inductive resolver_run ::
  "('c, 'n, 'd, 'r, 't, 'w) res_env \<Rightarrow> (bytes \<Rightarrow> 'w \<Rightarrow> 'w) \<Rightarrow> (bytes \<Rightarrow> ip_addr \<Rightarrow> 'w \<Rightarrow> bool option \<times> 'w) \<Rightarrow>
     nat \<Rightarrow> ('c, 'n, 'd, 'r, 't, 'w) resolver \<Rightarrow> bool" for E write_file probe n where
  run_created: "resolver_new E None listing unix instant file n w = Ok s \<Longrightarrow> resolver_run E write_file probe n s"
| run_resolver_step: "resolver_run E write_file probe n s \<Longrightarrow> resolver_step E write_file probe s s' \<Longrightarrow>
     resolver_run E write_file probe n s'"

inductive_cases resolver_stepE: "resolver_step E write_file probe s s'"

context resolver_env
begin

lemma rtt_saver_keeps [keeps]: "preserves I (rtt_saver_round E write_file)"
  unfolding rtt_saver_round_def by (intro keeps preserves_modify) simp

lemma pool_cleaner_keeps [keeps]: "preserves I (pool_cleaner_round E)"
  unfolding pool_cleaner_round_def
  using cleanup_bounded by (intro keeps preserves_modify) (auto simp: resolver_inv_def pool_bounded_def)

lemma trunc_cleaner_keeps [keeps]: "preserves I (trunc_cleaner_round E)"
  unfolding trunc_cleaner_round_def by (intro keeps preserves_modify) (simp add: resolver_inv_def)

lemma cache_cleaner_keeps [keeps]: "preserves I (cache_cleaner_round E)"
  unfolding cache_cleaner_round_def
  by (intro keeps on_cache_keeps) (auto simp: cache.cap_purge intro: cache.purge_inv)

lemma penalised_ok: "rok r \<Longrightarrow> rok (penalised E clock server r) \<and> rcap (penalised E clock server r) = rcap r"
  by (simp add: penalised_def case_prod_unfold rtt.ok_rules rtt.cap_rules split: option.split)

lemma probe_succeeded_keeps [keeps]: "preserves I (probe_succeeded E clock server)"
  unfolding probe_succeeded_def by (intro keeps preserves_modify) (simp add: resolver_inv_def)

lemma probe_failed_keeps [keeps]: "preserves I (probe_failed E clock server)"
  unfolding probe_failed_def Let_def by (intro preserves_modify) (simp add: resolver_inv_def penalised_ok)

lemma check_servers_keeps [keeps]: "preserves I (check_servers E probe q servers)"
  by (induction servers) (auto simp: check_server_def intro!: keeps)

lemma servers_to_check_keeps [keeps]: "preserves I (servers_to_check E)"
  unfolding servers_to_check_def by (intro keeps preserves_modify) simp

lemma health_prune_keeps [keeps]: "preserves I (health_prune E signed_time)"
  unfolding health_prune_def by (intro keeps preserves_modify) (simp add: resolver_inv_def)

lemma health_round_keeps [keeps]: "preserves I (health_round E signed_time probe)"
  unfolding health_round_def by (intro keeps)

lemma refresh_task_keeps [keeps]: "preserves I (refresh_task E fuel dnssec_ok name rtype rclass)"
  unfolding refresh_task_def by (intro keeps keepingD)

lemma tasks_irrelevant: "I (s\<lparr>r_pending := p\<rparr>) = I s" "I (s\<lparr>r_spawned := q\<rparr>) = I s"
  by (simp_all add: resolver_inv_def)

lemma resolver_step_inv: "resolver_step E write_file probe s s' \<Longrightarrow> I s \<Longrightarrow> I s'"
  by (erule resolver_stepE) (auto elim!: preservesD [rotated 2] simp: tasks_irrelevant intro: keeps)

lemma fold_put_ok: "rok r \<Longrightarrow> rok (fold (\<lambda>(ip, v) r. lru_put (e_rtt E) r ip v) xs r) \<and>
    rcap (fold (\<lambda>(ip, v) r. lru_put (e_rtt E) r ip v) xs r) = rcap r"
  by (induction xs arbitrary: r) (simp_all add: case_prod_unfold rtt.ok_rules rtt.cap_rules)

lemma resolver_new_inv:
  assumes "resolver_new E None listing unix instant file n w = Ok s" shows "I s"
proof -
  have "cache_run (e_cache E) n t (with_max_entries (e_cache E) n)" for t by (rule run_start)
  from cache.run_inv [OF this, of 0] show ?thesis
    using assms fold_put_ok [of "lru_new (e_rtt E) 256"]
    by (auto simp: resolver_new_def resolver_inv_def Let_def ns.new_ok ns.new_cap deleg.new_ok deleg.new_cap
        rtt.new_ok rtt.new_cap NS_CACHE_MAX_def DELEGATION_CACHE_MAX_def pool_new_def)
qed

lemma resolver_run_inv: "resolver_run E write_file probe n s \<Longrightarrow> I s"
  by (induction rule: resolver_run.induct) (auto intro: resolver_new_inv resolver_step_inv)

end

section \<open>Answers in a run\<close>

context cache_lru
begin

lemma lookup_hit:
  assumes "cache_inv L ok t c" "cache_lookup L clock name rtype rclass c = (Some (recs, min_ttl), c')"
  shows "list_all (\<lambda>r. rr_name r = name \<and> rr_type r = rtype \<and> rr_parsed r = None) recs" "recs \<noteq> []"
proof -
  have st: "store_ok L ok t (c_entries c)" "ok (c_entries c)" using assms(1) by (auto simp: cache_inv_def store_ok_def)
  obtain vec where vec: "lru_look L (c_entries c) (name, rtype, rclass) = Some vec"
    "fst (drain_entries clock 0 vec) \<noteq> []"
    and recs: "recs = fst (fresh_records clock (length vec) 0xffffffff (fst (drain_entries clock 0 vec)))"
    using lookup_Some [OF st(2) assms(2)] by blast
  let ?fresh = "fst (drain_entries clock 0 vec)"
  have vok: "vec_ok t (name, rtype, rclass) ?fresh"
    using vec_ok_subseq [OF store_ok_look [OF st(1) vec(1)] drain_entries_fresh_subseq vec(2)] .
  show "recs \<noteq> []" using vec(2) recs fresh_records_nth [of clock "length vec" "0xffffffff" ?fresh] by force
  have "rr_name r = name \<and> rr_type r = rtype \<and> rr_parsed r = None" if rin: "r \<in> set recs" for r
  proof -
    obtain j where j: "j < length ?fresh"
      "r = (ce_record (?fresh ! j))\<lparr>rr_ttl := ttl_remaining (clock (length vec + j)) (?fresh ! j)\<rparr>"
      using rin recs fresh_record_from by blast
    then show ?thesis using vok nth_mem [OF j(1)] by (auto simp: vec_ok_def entry_ok_def)
  qed
  then show "list_all (\<lambda>r. rr_name r = name \<and> rr_type r = rtype \<and> rr_parsed r = None) recs"
    by (simp add: list_all_iff)
qed

lemma stale_hit:
  assumes "cache_inv L ok t c" "lookup_stale L now name rtype rclass c = (Some recs, c')"
  shows "list_all (\<lambda>r. rr_name r = name \<and> rr_type r = rtype) recs"
proof -
  have st: "store_ok L ok t (c_stale_entries c)" "ok (c_stale_entries c)"
    using assms(1) by (auto simp: cache_inv_def store_ok_def)
  obtain vec where vec: "lru_look L (c_stale_entries c) (name, rtype, rclass) = Some vec"
    "recs = map (\<lambda>e. (ce_record e)\<lparr>rr_ttl := 0\<rparr>) (filter (\<lambda>e. now - ce_expires_at e < STALE_MAX_AGE) vec)"
    using assms(2) by (auto simp: lookup_stale_eq [OF st(2)] Let_def split: option.splits if_splits)
  then show ?thesis using store_ok_look [OF st(1) vec(1)] by (auto simp: list_all_iff vec_ok_def entry_ok_def)
qed

end

lemma names_equal_refl: "valid_name name \<Longrightarrow> domain_names_equal name name"
  by (auto simp: valid_name_def domain_names_equal_wire)

lemma answer_exact:
  "valid_name name \<Longrightarrow> list_all (\<lambda>r. rr_name r = name \<and> rr_type r = rtype) recs \<Longrightarrow> answer_for n rtype name recs"
  by (rule answer_direct) (auto simp: list_all_iff names_equal_refl)

lemma yields_preserves:
  "preserves P m \<Longrightarrow> (\<And>s r s'. P s \<Longrightarrow> m s = (Ok r, s') \<Longrightarrow> Q r) \<Longrightarrow> yields P m Q"
  by (rule yieldsI) (auto dest: preservesD)

lemma yields_try:
  assumes "preserves P m" "yields P m Q"
  shows "yields P (act_try m) (\<lambda>r. case r of Inr x \<Rightarrow> Q x | Inl e \<Rightarrow> True)"
  by (rule yields_preserves [OF preserves_try [OF assms(1)]])
    (auto simp: act_try_Ok dest: yieldsD [OF assms(2)])

context resolver_env
begin

lemma inv_bounds:
  assumes "I s"
  shows "cache_len (e_cache E) (r_cache s) \<le> max n 1 \<and> stale_len (e_cache E) (r_cache s) \<le> STALE_MAX_ENTRIES \<and>
    lru_len (e_ns E) (r_ns_cache s) \<le> NS_CACHE_MAX \<and>
    lru_len (e_deleg E) (r_delegation_cache s) \<le> DELEGATION_CACHE_MAX \<and>
    lru_len (e_rtt E) (r_server_rtt s) \<le> 256 \<and> pool_bounded (r_tcp_pool s)"
proof -
  from assms obtain t where "cache_inv (e_cache E) ok t (r_cache s)" by (auto simp: resolver_inv_def)
  from cache.inv_ok [OF this] assms show ?thesis
    using cache.len_le_cap [of "c_entries (r_cache s)"] cache.len_le_cap [of "c_stale_entries (r_cache s)"]
      ns.len_le_cap [of "r_ns_cache s"] deleg.len_le_cap [of "r_delegation_cache s"] rtt.len_le_cap [of "r_server_rtt s"]
    by (simp add: resolver_inv_def cache_len_def stale_len_def pool_bounded_def)
qed

lemma lookup_answers:
  assumes "valid_name name"
  shows "yields I (on_cache (cache_lookup (e_cache E) clock name rtype rclass))
    (\<lambda>hit. case hit of Some (recs, ttl) \<Rightarrow> answer_for n' rtype name recs | None \<Rightarrow> True)"
proof (rule yields_preserves [OF cache_lookup_keeps])
  fix s r s' assume "I s" "on_cache (cache_lookup (e_cache E) clock name rtype rclass) s = (Ok r, s')"
  then obtain t c' where "cache_inv (e_cache E) ok t (r_cache s)"
    "cache_lookup (e_cache E) clock name rtype rclass (r_cache s) = (r, c')"
    by (auto simp: resolver_inv_def on_cache_def act_modify_def case_prod_unfold Let_def prod_eq_iff)
  then show "case r of Some (recs, ttl) \<Rightarrow> answer_for n' rtype name recs | None \<Rightarrow> True"
    using cache.lookup_hit(1) by (auto simp: list_all_iff split: option.split intro!: answer_exact [OF assms])
qed

lemma stale_answers:
  assumes "valid_name name"
  shows "yields I (on_cache (lookup_stale (e_cache E) now name rtype rclass))
    (\<lambda>hit. case hit of Some recs \<Rightarrow> answer_for n' rtype name recs | None \<Rightarrow> True)"
proof (rule yields_preserves [OF lookup_stale_keeps])
  fix s r s' assume "I s" "on_cache (lookup_stale (e_cache E) now name rtype rclass) s = (Ok r, s')"
  then obtain t c' where "cache_inv (e_cache E) ok t (r_cache s)"
    "lookup_stale (e_cache E) now name rtype rclass (r_cache s) = (r, c')"
    by (auto simp: resolver_inv_def on_cache_def act_modify_def case_prod_unfold Let_def prod_eq_iff)
  then show "case r of Some recs \<Rightarrow> answer_for n' rtype name recs | None \<Rightarrow> True"
    using cache.stale_hit by (auto split: option.split intro!: answer_exact [OF assms])
qed

abbreviation answered where
  "answered dnssec_ok rtype name \<equiv>
     \<lambda>(records, ad). answer_for MAX_CNAME_DEPTH rtype name records \<and> (ad \<longrightarrow> dnssec_ok)"

lemma recursive_answers:
  "yields I (resolve_recursive E fuel deadline dnssec_ok name rtype rclass 0 minimize) (answered dnssec_ok rtype name)"
proof (rule yields_preserves [OF keepingD [OF resolve_recursive_keeps]])
  fix s r s' assume "resolve_recursive E fuel deadline dnssec_ok name rtype rclass 0 minimize s = (Ok r, s')"
  from yieldsD [OF sound_resolverD [OF resolve_recursive_sound] TrueI this]
  show "answered dnssec_ok rtype name r" by (cases r) simp
qed

lemma yields_keeps: "preserves I m \<Longrightarrow> yields I m (\<lambda>_. True)"
  by (rule yields_preserves) simp_all

lemma refresh_answers:
  assumes "answer_for MAX_CNAME_DEPTH rtype name stale"
  shows "yields I (refresh_stale E (resolve_recursive E fuel) dnssec_ok name rtype rclass stale) (answered dnssec_ok rtype name)"
proof -
  have "yields I (resolve_recursive_stale E (resolve_recursive E fuel) dnssec_ok name rtype rclass) (answered dnssec_ok rtype name)"
    unfolding resolve_recursive_stale_def by (rule yields_bind [OF yields_keeps recursive_answers]) (intro keeps)
  moreover have "preserves I (resolve_recursive_stale E (resolve_recursive E fuel) dnssec_ok name rtype rclass)"
    unfolding resolve_recursive_stale_def by (intro keeps keepingD)
  ultimately have tried: "yields I (act_try (resolve_recursive_stale E (resolve_recursive E fuel) dnssec_ok name rtype rclass))
      (\<lambda>r. case r of Inr x \<Rightarrow> answered dnssec_ok rtype name x | Inl e \<Rightarrow> True)"
    by (intro yields_try)
  show ?thesis
    unfolding refresh_stale_def
  proof (rule yields_bind [OF tried])
    fix r assume "case r of Inr x \<Rightarrow> answered dnssec_ok rtype name x | Inl e \<Rightarrow> True"
    then show "yields I (case r of Inr (fresh, _) \<Rightarrow> act_bind (store_fresh E fresh) (\<lambda>_. act_return (fresh, False))
        | Inl e \<Rightarrow> act_bind (on_stats (\<lambda>st. st\<lparr>rs_served_stale := rs_served_stale st + 1\<rparr>)) (\<lambda>_. act_return (stale, False)))
        (answered dnssec_ok rtype name)"
      using assms
      by (auto split: sum.splits intro!: yields_bind [OF yields_keeps [OF store_fresh_keeps]]
          yields_bind [OF yields_keeps [OF on_stats_keeps]] yields_return)
  qed
qed

lemma fresh_answers:
  "yields I (resolve_fresh E (resolve_recursive E fuel) dnssec_ok start name rtype rclass) (answered dnssec_ok rtype name)"
  unfolding resolve_fresh_def
proof (intro yields_bind [OF yields_try [OF keepingD [OF resolve_recursive_keeps] recursive_answers]]
      yields_bind [OF yields_keeps [OF on_world_keeps]] yields_bind [OF yields_keeps [OF on_stats_keeps]])
  fix r :: "dns_error + resource_record list \<times> bool"
  assume "case r of Inr x \<Rightarrow> answered dnssec_ok rtype name x | Inl e \<Rightarrow> True"
  then show "yields I (case r of Inr (records, ad) \<Rightarrow> act_bind (store_fresh E records) (\<lambda>_. act_return (records, ad))
      | Inl e \<Rightarrow> act_bind (on_stats (\<lambda>st. st\<lparr>rs_failed_queries := rs_failed_queries st + 1\<rparr>)) (\<lambda>_. act_lift (Err e)))
      (answered dnssec_ok rtype name)"
    by (auto split: sum.splits intro!: yields_bind [OF yields_keeps [OF store_fresh_keeps]]
        yields_bind [OF yields_keeps [OF on_stats_keeps]] yields_return yields_lift)
qed

lemma resolve_with_ad_answers:
  "yields I (resolve_with_ad E fuel dnssec_ok name rtype rclass)
     (\<lambda>r. \<exists>encoded. encode_domain_name name = Ok encoded \<and> answered dnssec_ok rtype encoded r)"
proof -
  have "yields I (resolve_with_ad E fuel dnssec_ok name rtype rclass) (answered dnssec_ok rtype encoded)"
    if "encode_domain_name name = Ok encoded" for encoded
  proof -
    note valid = encode_domain_name_valid [OF that]
    show ?thesis
      unfolding resolve_with_ad_def resolve_with_ad_by_def that
      by (intro yields_bind [OF yields_keeps [OF on_world_keeps]]
          yields_bind [OF yields_lift [of _ "\<lambda>n. n = encoded"]])
        (auto split: option.split intro!: yields_bind [OF yields_keeps] yields_return keeps
          yields_bind [OF lookup_answers [OF valid, of _ _ _ MAX_CNAME_DEPTH]]
          yields_bind [OF stale_answers [OF valid, of _ _ _ MAX_CNAME_DEPTH]] refresh_answers fresh_answers)
  qed
  moreover have "\<exists>encoded. encode_domain_name name = Ok encoded"
    if "resolve_with_ad E fuel dnssec_ok name rtype rclass s = (Ok r, s')" for s r s'
    using that by (auto simp: resolve_with_ad_def resolve_with_ad_by_def act_bind_Ok act_lift_def)
  ultimately show ?thesis unfolding yields_def by blast
qed

end

section \<open>Cached keys in a run\<close>

context resolver_env
begin

lemma cached_unparsed:
  assumes "I s" "cached_for E encoded rtype rclass s = Some records"
  shows "records \<noteq> []" "list_all (\<lambda>r. rr_parsed r = None) records"
proof -
  let ?clock = "fst (e_instants E (snd (e_instants E (r_world s))))"
  obtain t where t: "cache_inv (e_cache E) ok t (r_cache s)" using assms(1) by (auto simp: resolver_inv_def)
  obtain ttl c where "cache_lookup (e_cache E) ?clock encoded rtype rclass (r_cache s) = (Some (records, ttl), c)"
    using assms(2) by (cases "cache_lookup (e_cache E) ?clock encoded rtype rclass (r_cache s)")
      (auto simp: cached_for_def Let_def)
  from cache.lookup_hit [OF t this] show "records \<noteq> []" "list_all (\<lambda>r. rr_parsed r = None) records"
    by (auto simp: list_all_iff)
qed

lemma rd1_material_keeps [keeps]: "preserves I (rd1_material E name rtype rclass nameservers material)"
  unfolding rd1_material_def Let_def by (intro keeps)

lemma cached_keys_rejected:
  assumes "I s" "List.map_filter (\<lambda>r. rrsig_signer (rr_parsed r)) rrsigs = signer # signers"
    "encode_domain_name (labels_to_string signer) = Ok zone" "cached_for E zone 48 rclass s = Some keys"
  shows "fst (act_bind (key_material E rr True name rclass (rrsigs, [])) (\<lambda>(rrsigs, dnskeys).
      act_bind (judge_answer E True name rclass labels direct rrsigs dnskeys) (f rrsigs dnskeys)) s) =
    Err (Malformed ''DNSSEC validation failed: signature invalid or expired'')"
proof -
  obtain s1 where s1: "resolve_by E rr True (labels_to_string signer) 48 rclass s = (Ok keys, s1)"
    using resolve_by_cached [OF assms(3,4)] by blast
  obtain cached s2 where s2: "resolve_dnssec E (labels_to_string signer) 46 rclass s1 = (Ok cached, s2)"
    using resolve_dnssec_returns by blast
  note keys = cached_unparsed [OF assms(1,4)]
  obtain rrsig where rrsig: "rrsig \<in> set rrsigs" "is_rrsig rrsig" using signer_signature [OF assms(2)] by blast
  then have "rrsigs \<noteq> []" by auto
  then have "key_material E rr True name rclass (rrsigs, []) s = (Ok (merge_key_rrsigs rrsigs cached, keys), s2)"
    using s1 s2 keys(1) assms(2) by (simp add: key_material_def act_bind_def act_try_def act_return_def Let_def)
  moreover have "fst (judge_answer E True name rclass labels direct (merge_key_rrsigs rrsigs cached) keys s2) =
      Err (Malformed ''DNSSEC validation failed: signature invalid or expired'')"
    using judged_bogus [OF keys(2,1) _ rrsig(2)] merge_key_rrsigs_keeps [of rrsigs cached] rrsig(1) by blast
  ultimately show ?thesis by (simp add: act_bind_def case_prod_unfold)
qed

end

end
