(* ===== verification/Resolver_Examples.thy ===== *)
theory Resolver_Examples
  imports Resolver_Tasks
begin

text \<open>
  Concrete networks for the resolver: an environment in which every server gives the same reply, what
  the resolver does in it from an empty cache (\<open>calmly\<close>, \<open>outcome_of\<close>), a reply that answers a question
  and a reply that keeps a resolver with DNSSEC from ever ending.
\<close>

section \<open>A concrete environment\<close>

text \<open>
  An environment with recency lists as caches, clocks that stand still and a network in which every
  server answers every query with the datagrams \<open>reply\<close>; TCP connections are refused.
\<close>

type_synonym ('k, 'v) list_cache = "nat \<times> ('k \<times> 'v) list"

type_synonym 'x plain_act =
  "((cache_key, cache_entry list) list_cache, (bytes, ip_addr list) list_cache,
    (bytes, ip_addr list \<times> nat) list_cache, (ip_addr, f64 \<times> nat) list_cache, unit, unit, 'x) ract"

definition plain_env ::
  "bytes list option \<Rightarrow> ((cache_key, cache_entry list) list_cache, (bytes, ip_addr list) list_cache,
    (bytes, ip_addr list \<times> nat) list_cache, (ip_addr, f64 \<times> nat) list_cache, unit, unit) res_env" where
  "plain_env reply =
     \<lparr>e_cache = list_lru, e_ns = list_lru, e_deleg = list_lru, e_rtt = list_lru,
      e_crypto = \<lparr>c_rsa_pkcs1_sha256 = (\<lambda>_ _ _ _. False), c_p256_der = (\<lambda>_ _ _. False), c_p256_fixed = (\<lambda>_ _ _. False),
        c_p384_der = (\<lambda>_ _ _. False), c_p384_fixed = (\<lambda>_ _ _. False), c_ed25519 = (\<lambda>_ _ _. False),
        c_sha1 = (\<lambda>_. []), c_sha256 = (\<lambda>_. []), c_sha384 = (\<lambda>_. [])\<rparr>,
      e_f64 = \<lparr>f_add = (+), f_mul = (\<lambda>a b. a), f_lt = (<), f_eq = (=), f_lit = (\<lambda>a b. of_nat a), f_secs = of_nat\<rparr>,
      e_enable_ipv6 = False,
      e_tcp = \<lparr>tcp_connect = (\<lambda>_ w. (None, w)), tcp_write_all = (\<lambda>_ _ w. (None, w)),
        tcp_read_exact = (\<lambda>_ _ w. (None, w))\<rparr>,
      e_tcp_write_within = (\<lambda>_ _ w. (False, w)),
      e_random = (\<lambda>w. (7, w)), e_instants = (\<lambda>w. (\<lambda>_. 7, w)), e_unix = (\<lambda>w. (\<lambda>_. 7, w)),
      e_udp = (\<lambda>_ _ w. (reply, w)), e_order = (\<lambda>_ w. ([], w)), e_touched = (\<lambda>_ w. ([], w)),
      e_deadline = (\<lambda>w. (None, w)), e_doh = (\<lambda>_ w. (Inl ''unreachable'', w))\<rparr>"

interpretation plain: resolver_env "plain_env reply" fst list_lru_ok fst list_lru_ok fst list_lru_ok fst list_lru_ok n
  for reply n
  unfolding resolver_env_def cache_lru_def by (simp add: plain_env_def listlru.lru_crate_axioms)

interpretation silent: cycle_free "plain_env None"
  by unfold_locales (simp_all add: plain_env_def)

type_synonym plain_resolver =
  "((cache_key, cache_entry list) list_cache, (bytes, ip_addr list) list_cache,
    (bytes, ip_addr list \<times> nat) list_cache, (ip_addr, f64 \<times> nat) list_cache, unit, unit) resolver"

text \<open>Nothing is cached that could end a resolution.\<close>

definition calm :: "plain_resolver \<Rightarrow> bool" where
  "calm s \<longleftrightarrow> r_truncation_cache s = Map.empty \<and> snd (c_entries (r_cache s)) = [] \<and>
     snd (c_stale_entries (r_cache s)) = [] \<and> snd (r_delegation_cache s) = []"

definition calmly :: "'x plain_act \<Rightarrow> ('x \<Rightarrow> bool) \<Rightarrow> bool" where
  "calmly m Q \<longleftrightarrow> ensures calm m (\<lambda>x s. Q x \<and> calm s)"

lemma calmlyD: "calmly m Q \<Longrightarrow> calm s \<Longrightarrow> \<exists>x s'. m s = (Ok x, s') \<and> Q x \<and> calm s'"
  unfolding calmly_def by (rule ensuresD)

lemma calmly_bind: "calmly m R \<Longrightarrow> (\<And>x. R x \<Longrightarrow> calmly (f x) Q) \<Longrightarrow> calmly (act_bind m f) Q"
  unfolding calmly_def by (rule ensures_bind) (auto intro: ensures_fixed)

lemma calmly_return: "Q x \<Longrightarrow> calmly (act_return x) Q"
  unfolding calmly_def by (rule ensures_return) simp

lemma calmly_lift: "r = Ok x \<Longrightarrow> Q x \<Longrightarrow> calmly (act_lift r) Q"
  unfolding calmly_def by (rule ensures_lift) simp_all

lemma calmly_modify: "(\<And>s. calm s \<Longrightarrow> calm (snd (f s)) \<and> Q (fst (f s))) \<Longrightarrow> calmly (act_modify f) Q"
  unfolding calmly_def by (rule ensures_modify) simp

lemma calmly_world: "(\<And>w. Q (fst (f w))) \<Longrightarrow> calmly (on_world f) Q"
  unfolding on_world_def by (rule calmly_modify) (simp add: calm_def case_prod_unfold Let_def)

lemma sort_by_nonempty: "xs \<noteq> [] \<Longrightarrow> sort_by precedes xs \<noteq> []"
proof -
  have ins: "length (insert_by precedes x ys) = Suc (length ys)" for x and ys :: "'a list"
    by (induction ys) auto
  have "length (fold (insert_by precedes) xs ys) = length xs + length ys" for ys
    by (induction xs arbitrary: ys) (simp_all add: ins)
  then have "length (sort_by precedes xs) = length xs" by (simp add: sort_by_def)
  then show "xs \<noteq> [] \<Longrightarrow> sort_by precedes xs \<noteq> []" by (metis length_0_conv)
qed

lemma deleg_walk_empty: "snd dc = [] \<Longrightarrow> deleg_walk list_lru clock i name dc = (None, dc)"
proof (induction "list_lru :: (bytes, ip_addr list \<times> nat, nat \<times> (bytes \<times> ip_addr list \<times> nat) list) lru_ops"
    clock i name dc rule: deleg_walk.induct)
  case (2 clock i b rest dc)
  then show ?case by (cases dc) (simp add: list_lru_def mru_touch_def Let_def)
qed simp

lemma no_delegation: "calmly (cached_delegation (plain_env reply) name) (\<lambda>r. r = None)"
  unfolding cached_delegation_def on_delegations_def
  by (rule calmly_bind [OF calmly_world [of "\<lambda>_. True"]], simp, rule calmly_modify)
    (simp add: calm_def find_cached_delegation_def plain_env_def deleg_walk_empty)

lemma record_rtt_calm: "calmly (record_rtt (plain_env reply) server rtt_ms now) (\<lambda>_. True)"
  unfolding record_rtt_def by (rule calmly_modify) (simp add: calm_def)

definition replies :: "bytes \<Rightarrow> message \<Rightarrow> bool" where
  "replies reply msg \<longleftrightarrow> first_match 7 [reply] = Ok (Some msg) \<and> \<not> h_tc (m_header msg)"

lemma first_match_short:
  assumes "length datagram \<le> 8192" "2 \<le> length datagram" "be16 (datagram ! 0) (datagram ! 1) = i"
  shows "first_match i [datagram] = ok_of (decode_message datagram)"
  using assms by simp

lemma replies_decoded:
  assumes "length reply \<le> 8192" "2 \<le> length reply" "be16 (reply ! 0) (reply ! 1) = 7"
    and "decode_message reply = Ok msg" "\<not> h_tc (m_header msg)"
  shows "replies reply msg"
  using first_match_short [OF assms(1-3)] assms(4,5) by (simp add: replies_def del: first_match.simps)

lemma udp_plain:
  assumes "replies reply msg"
  shows "calmly (udp_server_task (plain_env (Some [reply])) q 7 server) (\<lambda>r. r = Some msg)"
proof -
  let ?E = "plain_env (Some [reply])"
  have direct: "calmly (act_bind (tcp_fallback ?E q server msg) (\<lambda>over_tcp.
      case over_tcp of Some result \<Rightarrow> act_return result
      | None \<Rightarrow> act_bind (record_rtt ?E server r t) (\<lambda>_. act_return (Some msg))))
      (\<lambda>r. r = Some msg)" for r t
    using calmly_bind [OF record_rtt_calm calmly_return [of "\<lambda>r. r = Some msg"]] assms
    by (simp add: tcp_fallback_def replies_def)
  have received: "calmly (on_world (e_udp ?E q server)) (\<lambda>r. r = Some [reply])"
    by (rule calmly_world) (simp add: plain_env_def)
  have matched: "calmly (act_lift (first_match 7 [reply])) (\<lambda>r. r = Some msg)"
    using assms by (intro calmly_lift [of _ "Some msg"]) (simp_all add: replies_def del: first_match.simps)
  show ?thesis
    unfolding udp_server_task_def
    by (rule calmly_bind [OF calmly_world [of "\<lambda>_. True"]], simp, rule calmly_bind [OF received], simp only: option.case,
        rule calmly_bind [OF matched], simp only: option.case, rule direct)
qed

lemma select_plain:
  assumes "replies reply msg" "servers \<noteq> []"
  shows "calmly (select_loop (plain_env (Some [reply])) q 7 False servers) (\<lambda>r. r = Some msg)"
proof (unfold calmly_def ensures_def, intro allI impI)
  let ?E = "plain_env (Some [reply])"
  fix s assume s: "calm s"
  obtain server others where srv: "servers = server # others" using assms(2) by (cases servers) auto
  have "server_task ?E q 7 server s = udp_server_task ?E q 7 server s"
    using s by (simp add: server_task_def calm_def)
  then obtain s1 where "server_task ?E q 7 server s = (Ok (Some msg), s1)" "calm s1"
    using calmlyD [OF udp_plain [OF assms(1)] s] by force
  then show "\<exists>r s'. select_loop ?E q 7 False servers s = (Ok r, s') \<and> r = Some msg \<and> calm s'"
    by (simp add: srv) (simp add: calm_def)
qed

lemma query_plain:
  assumes "replies reply msg" "servers \<noteq> []"
  shows "calmly (query_servers_concurrent (plain_env (Some [reply])) q 7 servers) (\<lambda>r. r = Some msg)"
proof -
  have by_rtt: "calmly (sorted_servers (plain_env (Some [reply])) ms servers) (\<lambda>xs. xs \<noteq> [])" for ms
    unfolding sorted_servers_def
    by (rule calmly_bind [OF calmly_world [of "\<lambda>_. True"]], simp, rule calmly_modify)
      (simp add: calm_def Let_def sort_by_nonempty assms)
  have order: "calmly (on_world (e_order (plain_env (Some [reply])) k)) (\<lambda>is. is = [])" for k
    by (rule calmly_world) (simp add: plain_env_def)
  show ?thesis
    using assms unfolding query_servers_concurrent_def
    by (auto intro!: calmly_bind [OF by_rtt] calmly_bind [OF order] select_plain)
qed

lemma random_plain: "calmly (on_world (e_random (plain_env reply))) (\<lambda>i. i = 7)"
  by (rule calmly_world) (simp add: plain_env_def)

lemma lookup_misses: "calmly (on_cache (cache_lookup (e_cache (plain_env reply)) clock name rtype rclass)) (\<lambda>r. r = None)"
  unfolding on_cache_def
proof (rule calmly_modify)
  fix s assume "calm s"
  then show "calm (snd (let (x, c) = cache_lookup (e_cache (plain_env reply)) clock name rtype rclass (r_cache s)
      in (x, s\<lparr>r_cache := c\<rparr>))) \<and>
      fst (let (x, c) = cache_lookup (e_cache (plain_env reply)) clock name rtype rclass (r_cache s) in (x, s\<lparr>r_cache := c\<rparr>)) = None"
    by (cases "c_entries (r_cache s)") (simp add: calm_def cache_lookup_def plain_env_def list_lru_def mru_touch_def Let_def)
qed

lemma stale_misses: "calmly (on_cache (lookup_stale (e_cache (plain_env reply)) now name rtype rclass)) (\<lambda>r. r = None)"
  unfolding on_cache_def
proof (rule calmly_modify)
  fix s assume "calm s"
  then show "calm (snd (let (x, c) = lookup_stale (e_cache (plain_env reply)) now name rtype rclass (r_cache s)
      in (x, s\<lparr>r_cache := c\<rparr>))) \<and>
      fst (let (x, c) = lookup_stale (e_cache (plain_env reply)) now name rtype rclass (r_cache s) in (x, s\<lparr>r_cache := c\<rparr>)) = None"
    by (cases "c_stale_entries (r_cache s)") (simp add: calm_def lookup_stale_def plain_env_def list_lru_def mru_touch_def Let_def)
qed

lemma stats_calm: "calmly (on_stats f) (\<lambda>_. True)"
  unfolding on_stats_def by (rule calmly_modify) (simp add: calm_def)

section \<open>Outcomes\<close>

text \<open>The outcome of an action from every state in which nothing helpful is cached.\<close>

definition outcome_of :: "'x plain_act \<Rightarrow> 'x dns_result \<Rightarrow> bool" where
  "outcome_of m r \<longleftrightarrow> (\<forall>s. calm s \<longrightarrow> fst (m s) = r)"

lemma outcome_after: "calmly m Q \<Longrightarrow> (\<And>x. Q x \<Longrightarrow> outcome_of (f x) r) \<Longrightarrow> outcome_of (act_bind m f) r"
proof (unfold outcome_of_def, intro allI impI)
  fix s :: plain_resolver
  assume m: "calmly m Q" and "calm s" and f: "\<And>x. Q x \<Longrightarrow> \<forall>s. calm s \<longrightarrow> fst (f x s) = r"
  then obtain x s1 where "m s = (Ok x, s1)" "calm s1" "Q x" using calmlyD by blast
  then show "fst (act_bind m f s) = r" using f by (simp add: act_bind_eq)
qed

lemma diverge_bind: "outcome_of m Diverge \<Longrightarrow> outcome_of (act_bind m f) Diverge"
  by (simp add: outcome_of_def act_bind_def case_prod_unfold)

lemma diverge_try: "outcome_of m Diverge \<Longrightarrow> outcome_of (act_try m) Diverge"
  by (simp add: outcome_of_def act_try_def case_prod_unfold)

lemma resolve_outcome:
  assumes "encode_domain_name name = Ok encoded"
    and "\<And>start. outcome_of (resolve_fresh (plain_env reply) rr dnssec_ok start encoded rtype 1) r"
  shows "outcome_of (resolve_with_ad_by (plain_env reply) rr dnssec_ok name rtype 1) r"
  unfolding resolve_with_ad_by_def
  by (rule outcome_after [OF calmly_world [of "\<lambda>_. True"]], simp,
      rule outcome_after [OF calmly_lift [OF assms(1), of "\<lambda>n. n = encoded"]], simp,
      rule outcome_after [OF calmly_world [of "\<lambda>_. True"]], simp, simp only:, rule outcome_after [OF lookup_misses],
      simp only: option.case, rule outcome_after [OF stats_calm], rule outcome_after [OF calmly_world [of "\<lambda>_. True"]], simp,
      rule outcome_after [OF stale_misses], simp only: option.case, rule assms(2))

text \<open>The first iteration, up to the response.\<close>

lemma iterate_outcome:
  assumes "replies reply msg" "servers \<noteq> []" "minimized_name name labels revealed = Ok name"
    "build_query_static name rtype 1 7 dnssec_ok False = Ok q"
    and "outcome_of (act_bind (cache_response (plain_env (Some [reply])) msg) (\<lambda>_.
        let rcode = h_rcode (m_header msg) in
        if rcode = 3 then
          act_bind (validate_negative_dnssec_response (plain_env (Some [reply])) rr dnssec_ok msg name 1 0) (\<lambda>(nx_ad, soa_records).
            act_lift (Err (NxDomain soa_records nx_ad)))
        else if rcode \<noteq> 0 then
          act_return (Continue (if revealed \<ge> labels then rotate_servers servers else servers) revealed)
        else process_response (plain_env (Some [reply])) rr dnssec_ok name rtype 1 depth labels servers revealed msg)) r"
  shows "outcome_of (iterate_once (plain_env (Some [reply])) rr dnssec_ok name rtype 1 depth labels servers revealed) r"
  unfolding iterate_once_def if_not_P [OF assms(2)]
  by (rule outcome_after [OF calmly_lift [OF assms(3), of "\<lambda>n. n = name"]], simp, simp only:,
      rule outcome_after [OF random_plain], simp only:,
      rule outcome_after [OF calmly_lift [OF assms(4), of "\<lambda>_. True"]], simp,
      rule outcome_after [OF query_plain [OF assms(1,2)]], simp only: option.case, rule assms(5))

section \<open>A server that is never left\<close>

text \<open>
  A response of 23 bytes: NXDOMAIN with one RRSIG record and nothing else.
\<close>

definition hostile_reply :: bytes where
  "hostile_reply = [0, 7, 0x80, 3, 0, 0, 0, 0, 0, 1, 0, 0,  0, 0, 46, 0, 1, 0, 0, 0, 0, 0, 0]"

definition hostile_message :: message where
  "hostile_message =
     \<lparr>m_header = \<lparr>h_id = 7, h_qr = True, h_opcode = 0, h_aa = False, h_tc = False, h_rd = False, h_ra = False, h_z = 0,
        h_ad = False, h_cd = False, h_rcode = 3, h_qdcount = 0, h_ancount = 0, h_nscount = 1, h_arcount = 0\<rparr>,
      m_questions = [], m_answers = [],
      m_authorities = [\<lparr>rr_name = [0], rr_type = 46, rr_class = 1, rr_ttl = 0, rr_rdlength = 0, rr_rdata = [],
        rr_parsed = None\<rparr>],
      m_additionals = []\<rparr>"

abbreviation hostile_env where "hostile_env \<equiv> plain_env (Some [hostile_reply])"

lemma decode_hostile: "decode_message hostile_reply = Ok hostile_message" "be16 (hostile_reply ! 0) (hostile_reply ! 1) = 7"
  unfolding hostile_reply_def hostile_message_def by code_simp+

lemma replies_hostile: "replies hostile_reply hostile_message"
  by (rule replies_decoded [OF _ _ decode_hostile(2,1)]) (simp_all add: hostile_reply_def hostile_message_def)

lemma cache_response_hostile: "calmly (cache_response hostile_env hostile_message) (\<lambda>_. True)"
proof -
  have uncached: "filter cacheable (m_answers hostile_message @ m_authorities hostile_message @
      m_additionals hostile_message) = []" by (simp add: hostile_message_def cacheable_def)
  have ns: "calmly (on_ns_cache f) (\<lambda>_. True)" for f :: "_ \<Rightarrow> unit \<times> _"
    unfolding on_ns_cache_def by (rule calmly_modify) (simp add: calm_def case_prod_unfold Let_def)
  have same: "calmly (on_cache (\<lambda>c. ((), c))) (\<lambda>_. True)"
    unfolding on_cache_def by (rule calmly_modify) (simp add: calm_def)
  show ?thesis
    unfolding cache_response_def Let_def uncached insert_records.simps
    by (rule calmly_bind [OF calmly_world [of "\<lambda>_. True"]], simp, rule calmly_bind [OF same ns])
qed

lemma fresh_diverges:
  "outcome_of (rr None True encoded rtype 1 0 True) Diverge \<Longrightarrow>
     outcome_of (resolve_fresh hostile_env rr True start encoded rtype 1) Diverge"
  unfolding resolve_fresh_def by (intro diverge_bind diverge_try)

lemma negative_diverges:
  assumes "encode_domain_name (labels_to_string name) = Ok name" "outcome_of (rr None True name 48 1 0 True) Diverge"
  shows "outcome_of (validate_negative_dnssec_response hostile_env rr True hostile_message name 1 qtype) Diverge"
proof -
  have "outcome_of (resolve_by hostile_env rr True (labels_to_string name) 48 1) Diverge"
    unfolding resolve_by_def by (rule diverge_bind, rule resolve_outcome [OF assms(1)], rule fresh_diverges, rule assms(2))
  moreover have "of_type 46 (m_authorities hostile_message) \<noteq> []" "of_type 6 (m_authorities hostile_message) = []"
    by (simp_all add: hostile_message_def of_type_def)
  ultimately show ?thesis
    by (simp add: validate_negative_dnssec_response_def Let_def diverge_bind diverge_try)
qed

abbreviation evil where "evil \<equiv> [4, 101, 118, 105, 108, 0 :: u8]"

lemma evil_name: "encode_domain_name ''evil'' = Ok evil" "labels_to_string evil = ''evil''"
    "minimized_name evil (count_labels evil) 1 = Ok evil"
  by code_simp+

lemma build_short:
  "length name \<le> 100 \<Longrightarrow> build_query_static name rtype 1 7 d False = Ok (message_wire (query_of name rtype 1 7 d False))"
  unfolding build_query_static_def
  by (rule encode_message_fits)
    (simp_all add: query_of_def sized_message_def message_records_def to_resource_record_def rr_sized_def
      message_wire_def MAX_DNS_MESSAGE_SIZE_def question_wire_def rr_wire_def opt_new_def)

lemma iterate_diverges:
  assumes "outcome_of (rr None True evil 48 1 0 True) Diverge" "servers \<noteq> []"
  shows "outcome_of (iterate_once hostile_env rr True evil rtype 1 depth (count_labels evil) servers 1) Diverge"
proof (rule iterate_outcome [OF replies_hostile assms(2) evil_name(3) build_short])
  have neg: "outcome_of (validate_negative_dnssec_response hostile_env rr True hostile_message evil 1 0) Diverge"
    by (rule negative_diverges) (simp_all add: evil_name assms(1))
  have rcode: "h_rcode (m_header hostile_message) = 3" by (simp add: hostile_message_def)
  show "outcome_of (act_bind (cache_response hostile_env hostile_message) (\<lambda>_.
        let rcode = h_rcode (m_header hostile_message) in
        if rcode = 3 then
          act_bind (validate_negative_dnssec_response hostile_env rr True hostile_message evil 1 0) (\<lambda>(nx_ad, soa_records).
            act_lift (Err (NxDomain soa_records nx_ad)))
        else if rcode \<noteq> 0 then
          act_return (Continue (if 1 \<ge> count_labels evil then rotate_servers servers else servers) 1)
        else process_response hostile_env rr True evil rtype 1 depth (count_labels evil) servers 1 hostile_message)) Diverge"
    by (rule outcome_after [OF cache_response_hostile], simp only: rcode Let_def simp_thms if_True, rule diverge_bind [OF neg])
qed simp

lemma roots_nonempty: "initial_root_addrs \<noteq> []"
  by (simp add: initial_root_addrs_def ROOT_SERVERS_def)

lemma resolve_body_outcome:
  assumes "\<And>err. outcome_of (resolve_loop (plain_env reply) rr err d name rtype 1 0 (count_labels name) 32 initial_root_addrs 1) r"
  shows "outcome_of (resolve_body (plain_env reply) rr None d name rtype 1 0 True) r"
  unfolding resolve_body_def MAX_CNAME_DEPTH_def Let_def MAX_ITERATIONS_def
  by (simp only: option.case prod.case not_less_zero if_False)
    (rule outcome_after [OF no_delegation], simp only: option.case prod.case if_True assms)

lemma resolution_diverges: "outcome_of (resolve_recursive hostile_env fuel None True evil rtype 1 0 True) Diverge"
proof (induction fuel arbitrary: rtype)
  case 0
  show ?case by (simp add: outcome_of_def act_lift_def)
next
  case (Suc fuel)
  have "outcome_of (resolve_loop hostile_env (resolve_recursive hostile_env fuel) err True evil rtype 1 0 (count_labels evil)
      (Suc 31) initial_root_addrs 1) Diverge" for err
    unfolding resolve_loop.simps by (rule diverge_bind, rule iterate_diverges) (rule Suc, rule roots_nonempty)
  then show ?case unfolding resolve_recursive.simps by (intro resolve_body_outcome) simp
qed

section \<open>A server that answers\<close>

definition answer_reply :: bytes where
  "answer_reply = [0, 7, 0x80, 0, 0, 0, 0, 1, 0, 0, 0, 0,  1, 97, 0, 0, 1, 0, 1, 0, 0, 1, 44, 0, 4, 10, 0, 0, 1]"

definition answer_record :: resource_record where
  "answer_record = \<lparr>rr_name = [1, 97, 0], rr_type = 1, rr_class = 1, rr_ttl = 300, rr_rdlength = 4,
     rr_rdata = [10, 0, 0, 1], rr_parsed = Some (RD_A (Ipv4 10 0 0 1))\<rparr>"

definition answer_message :: message where
  "answer_message =
     \<lparr>m_header = \<lparr>h_id = 7, h_qr = True, h_opcode = 0, h_aa = False, h_tc = False, h_rd = False, h_ra = False, h_z = 0,
        h_ad = False, h_cd = False, h_rcode = 0, h_qdcount = 0, h_ancount = 1, h_nscount = 0, h_arcount = 0\<rparr>,
      m_questions = [], m_answers = [answer_record], m_authorities = [], m_additionals = []\<rparr>"

abbreviation answer_env where "answer_env \<equiv> plain_env (Some [answer_reply])"

lemma decode_answer: "decode_message answer_reply = Ok answer_message" "be16 (answer_reply ! 0) (answer_reply ! 1) = 7"
  unfolding answer_reply_def answer_message_def answer_record_def by code_simp+

lemma replies_answer: "replies answer_reply answer_message"
  by (rule replies_decoded [OF _ _ decode_answer(2,1)]) (simp_all add: answer_reply_def answer_message_def)

lemma returns_anyway:
  "(\<And>s. \<exists>x. fst (m s) = Ok x) \<Longrightarrow> (\<And>x s. fst (f x s) = r) \<Longrightarrow> fst (act_bind m f s) = r"
  by (metis act_bind_eq prod.collapse)

lemma resolution_answers:
  "outcome_of (resolve_recursive answer_env (Suc fuel) None False [1, 97, 0] 1 1 0 True) (Ok ([answer_record], False))"
proof -
  let ?rr = "resolve_recursive answer_env fuel"
  have match: "domain_names_equal (rr_name answer_record) [1, 97, 0] \<and> rr_type answer_record = 1"
    unfolding answer_record_def by code_simp
  have stored: "\<exists>x. fst (cache_response answer_env answer_message s) = Ok x" "\<exists>x. fst (cache_delegation answer_env n ips s) = Ok x"
    for s n ips
    by (simp_all add: cache_response_def cache_delegation_def on_world_def on_cache_def on_ns_cache_def on_delegations_def
        act_bind_def act_modify_def Let_def case_prod_unfold)
  have processed: "fst (process_response answer_env ?rr False [1, 97, 0] 1 1 0 labels servers revealed answer_message s) =
      Ok (Answer [answer_record] False)" for labels servers revealed s
    using match by (simp add: process_response_def answer_message_def check_direct_def Let_def)
      (rule returns_anyway, rule stored, simp add: act_return_def)
  have first: "outcome_of (iterate_once answer_env ?rr False [1, 97, 0] 1 1 0 (count_labels [1, 97, 0]) initial_root_addrs 1)
      (Ok (Answer [answer_record] False))"
  proof (rule iterate_outcome [OF replies_answer roots_nonempty _ build_short])
    show "minimized_name [1, 97, 0] (count_labels [1, 97, 0]) 1 = Ok [1, 97, 0]" by code_simp
    have "h_rcode (m_header answer_message) = 0" by (simp add: answer_message_def)
    then show "outcome_of (act_bind (cache_response answer_env answer_message) (\<lambda>_.
        let rcode = h_rcode (m_header answer_message) in
        if rcode = 3 then
          act_bind (validate_negative_dnssec_response answer_env ?rr False answer_message [1, 97, 0] 1 0) (\<lambda>(nx_ad, soa_records).
            act_lift (Err (NxDomain soa_records nx_ad)))
        else if rcode \<noteq> 0 then
          act_return (Continue (if 1 \<ge> count_labels [1, 97, 0] then rotate_servers initial_root_addrs else initial_root_addrs) 1)
        else process_response answer_env ?rr False [1, 97, 0] 1 1 0 (count_labels [1, 97, 0]) initial_root_addrs 1 answer_message))
        (Ok (Answer [answer_record] False))"
      unfolding outcome_of_def by (auto intro!: returns_anyway stored simp: processed)
  qed simp
  have "outcome_of (resolve_loop answer_env ?rr err False [1, 97, 0] 1 1 0 (count_labels [1, 97, 0]) (Suc 31) initial_root_addrs 1)
      (Ok ([answer_record], False))" for err
    using first unfolding resolve_loop.simps outcome_of_def
    by (auto simp: act_bind_def act_return_def case_prod_unfold)
  then show ?thesis unfolding resolve_recursive.simps by (intro resolve_body_outcome) simp
qed

lemma fresh_answers_plain:
  assumes "outcome_of (rr None d encoded rtype 1 0 True) (Ok (recs, ad))"
  shows "outcome_of (resolve_fresh (plain_env reply) rr d start encoded rtype 1) (Ok (recs, ad))"
proof (unfold outcome_of_def resolve_fresh_def, intro allI impI)
  fix s assume "calm s"
  then obtain s1 where s1: "act_try (rr None d encoded rtype 1 0 True) s = (Ok (Inr (recs, ad)), s1)"
    using assms by (cases "rr None d encoded rtype 1 0 True s") (auto simp: outcome_of_def act_try_def)
  show "fst (act_bind (act_try (rr None d encoded rtype 1 0 True)) (\<lambda>result.
      act_bind (on_world (e_instants (plain_env reply))) (\<lambda>clock.
      act_bind (on_stats (timed_stats (e_f64 (plain_env reply)) (elapsed_ms (e_f64 (plain_env reply)) (clock 0 - start)))) (\<lambda>_.
        case result of
          Inr (records, ad) \<Rightarrow> act_bind (store_fresh (plain_env reply) records) (\<lambda>_. act_return (records, ad))
        | Inl e \<Rightarrow> act_bind (on_stats (\<lambda>st. st\<lparr>rs_failed_queries := rs_failed_queries st + 1\<rparr>)) (\<lambda>_. act_lift (Err e))))) s) =
      Ok (recs, ad)"
    by (simp add: act_bind_def [of "act_try (rr None d encoded rtype 1 0 True)"] s1 del: split_paired_All)
      (simp add: act_bind_def on_world_def on_stats_def store_fresh_def on_cache_def act_modify_def act_return_def
        Let_def case_prod_unfold)
qed

end
