(* ===== verification/Resolver_Theorems.thy ===== *)
theory Resolver_Theorems
  imports Resolver_Examples
begin

text \<open>
  What the resolver guarantees, in every run and against every network, and where it fails.
\<close>

section \<open>Properties\<close>

definition plain_start :: "bytes list option \<Rightarrow> plain_resolver" where
  "plain_start reply = ok_value (resolver_new (plain_env reply) None (\<lambda>m. []) (\<lambda>_. 7) (\<lambda>_. 7) None 2 ())"

lemma plain_start_new: "resolver_new (plain_env reply) None (\<lambda>m. []) (\<lambda>_. 7) (\<lambda>_. 7) None 2 () = Ok (plain_start reply)"
  by (simp add: plain_start_def resolver_new_def Let_def)

lemma plain_start_calm: "calm (plain_start reply)"
  by (simp add: plain_start_def resolver_new_def Let_def calm_def plain_env_def with_max_entries_def list_lru_def)

lemma plain_run: "resolver_run (plain_env reply) (\<lambda>_ w. w) (\<lambda>_ _ w. (None, w)) 2 (plain_start reply)"
  by (rule run_created [OF plain_start_new])

lemma plain_resolver_env:
  "resolver_env (plain_env reply) fst list_lru_ok fst list_lru_ok fst list_lru_ok fst list_lru_ok"
  by (rule plain.resolver_env_axioms)

text \<open>
  In every run of the resolver, whatever the servers answer, the answer cache holds at most as many
  keys as configured and the other caches at most their fixed number of entries, and no server has
  more than two idle connections.
\<close>

theorem resolver_run_bounded:
  assumes "resolver_env E cap ok ncap nok dcap dok rcap rok" "resolver_run E write_file probe n s"
  shows "cache_len (e_cache E) (r_cache s) \<le> max n 1 \<and> stale_len (e_cache E) (r_cache s) \<le> STALE_MAX_ENTRIES \<and>
    lru_len (e_ns E) (r_ns_cache s) \<le> NS_CACHE_MAX \<and>
    lru_len (e_deleg E) (r_delegation_cache s) \<le> DELEGATION_CACHE_MAX \<and>
    lru_len (e_rtt E) (r_server_rtt s) \<le> 256 \<and> pool_bounded (r_tcp_pool s)"
  using resolver_env.resolver_run_inv [OF assms] assms(1)
  by (rule resolver_env.inv_bounds [rotated])

theorem resolver_run_bounded_witness:
  "cache_len list_lru (r_cache (snd (resolve_with_ad answer_env 12 False ''a'' 1 1 (plain_start (Some [answer_reply]))))) \<le> 2"
proof -
  have "resolver_run answer_env (\<lambda>_ w. w) (\<lambda>_ _ w. (None, w)) 2
      (snd (resolve_with_ad answer_env 12 False ''a'' 1 1 (plain_start (Some [answer_reply]))))"
    by (rule run_resolver_step [OF plain_run step_resolve [OF prod.collapse [symmetric]]])
  from resolver_run_bounded [OF plain_resolver_env this] show ?thesis by (simp add: plain_env_def)
qed

text \<open>
  C3. In every run of the resolver, an answer that \<open>resolve_with_ad\<close> returns, from the cache, stale or
  from the network, answers the question: its records have the name and type asked for, behind a chain
  of at most ten CNAME records that leads from the question to their name.  The AD flag is set only if
  the resolver validates.
\<close>

theorem resolve_answers_question:
  assumes "resolver_env E cap ok ncap nok dcap dok rcap rok" "resolver_run E write_file probe n s"
    and "resolve_with_ad E fuel dnssec_ok name rtype rclass s = (Ok (records, ad), s')"
  shows "\<exists>encoded. encode_domain_name name = Ok encoded \<and> answer_for MAX_CNAME_DEPTH rtype encoded records \<and>
    (ad \<longrightarrow> dnssec_ok)"
  using yieldsD [OF resolver_env.resolve_with_ad_answers [OF assms(1)] resolver_env.resolver_run_inv [OF assms(1,2)] assms(3)]
  by simp

lemma plain_answer:
  "\<exists>s'. resolve_with_ad answer_env 12 False ''a'' 1 1 (plain_start (Some [answer_reply])) = (Ok ([answer_record], False), s')"
proof -
  have enc: "encode_domain_name ''a'' = Ok [1, 97, 0]" by code_simp
  have "outcome_of (resolve_recursive answer_env (Suc 11) None False [1, 97, 0] 1 1 0 True) (Ok ([answer_record], False))"
    by (rule resolution_answers)
  then have "outcome_of (resolve_with_ad answer_env 12 False ''a'' 1 1) (Ok ([answer_record], False))"
    unfolding resolve_with_ad_def by (intro resolve_outcome [OF enc] fresh_answers_plain) simp
  then show ?thesis using plain_start_calm unfolding outcome_of_def by (metis prod.collapse)
qed

theorem resolve_answers_question_witness: "answer_for MAX_CNAME_DEPTH 1 [1, 97, 0] [answer_record]"
proof -
  have enc: "encode_domain_name ''a'' = Ok [1, 97, 0]" by code_simp
  obtain s' where "resolve_with_ad answer_env 12 False ''a'' 1 1 (plain_start (Some [answer_reply])) =
      (Ok ([answer_record], False), s')"
    using plain_answer by blast
  from resolve_answers_question [OF plain_resolver_env plain_run this] enc show ?thesis by simp
qed

text \<open>
  C11. Without DNSSEC every resolution ends, with a result, an error or a panic, as long as no message
  from the network makes the name decoder loop: twelve levels of recursion, one more than the depth at
  which CNAME chains are cut off, are enough for every name and every network.
\<close>

theorem unsigned_resolution_halts:
  assumes "cycle_free E" "12 \<le> fuel"
  shows "fst (resolve_with_ad E fuel False name rtype rclass s) \<noteq> Diverge"
  using cycle_free.resolve_with_ad_halts [OF assms(1), of fuel] assms(2) by (simp add: MAX_CNAME_DEPTH_def halts_def)

theorem unsigned_resolution_halts_witness:
  "fst (resolve_with_ad (plain_env None) 12 False ''a'' 1 1 (plain_start None)) \<noteq> Diverge"
  by (rule unsigned_resolution_halts [OF silent.cycle_free_axioms]) simp



text \<open>A network whose servers are silent, and the keys of a zone in the cache.\<close>

definition key_reply :: bytes where
  "key_reply = [0, 7, 0x80, 0, 0, 0, 0, 1, 0, 0, 0, 0,  1, 97, 0, 0, 48, 0, 1, 0, 0, 1, 44, 0, 5, 1, 1, 3, 8, 9]"

definition key_env where "key_env = (plain_env None)\<lparr>e_doh := (\<lambda>_ w. (Inr key_reply, w))\<rparr>"

definition key_start where "key_start = snd (resolve_via_doh key_env False ''a'' 48 1 (plain_start None))"

definition key_record :: resource_record where
  "key_record = \<lparr>rr_name = [1, 97, 0], rr_type = 48, rr_class = 1, rr_ttl = 300, rr_rdlength = 5, rr_rdata = [1, 1, 3, 8, 9],
     rr_parsed = Some (RD_DNSKEY 257 3 8 [9])\<rparr>"

definition key_message :: message where
  "key_message =
     \<lparr>m_header = \<lparr>h_id = 7, h_qr = True, h_opcode = 0, h_aa = False, h_tc = False, h_rd = False, h_ra = False, h_z = 0,
        h_ad = False, h_cd = False, h_rcode = 0, h_qdcount = 0, h_ancount = 1, h_nscount = 0, h_arcount = 0\<rparr>,
      m_questions = [], m_answers = [key_record], m_authorities = [], m_additionals = []\<rparr>"

lemma decode_key: "decode_message key_reply = Ok key_message"
  by code_simp

lemma encode_a: "encode_domain_name ''a'' = Ok [1, 97, 0]" by code_simp

lemma key_cache:
  "r_cache key_start = cache_insert list_lru 7 [1, 97, 0] 48 1 300 [1, 1, 3, 8, 9] 5 ((with_max_entries list_lru 2)\<lparr>c_misses := 1\<rparr>)"
  using build_short [of "[1, 97, 0]" 48 False]
  by (simp add: key_start_def resolve_via_doh_def doh_answer_def store_fresh_def cache_response_def cacheable_def
    encode_a decode_key key_env_def plain_env_def key_message_def key_record_def plain_start_def resolver_new_def Let_def
    cache_lookup_def with_max_entries_def list_lru_def mru_touch_def eq_ignore_case_def
    act_bind_def act_lift_def act_return_def on_world_def on_cache_def on_ns_cache_def act_modify_def)

lemma key_truncation: "r_truncation_cache key_start = Map.empty"
  using build_short [of "[1, 97, 0]" 48 False]
  by (simp add: key_start_def resolve_via_doh_def doh_answer_def store_fresh_def cache_response_def cacheable_def
    encode_a decode_key key_env_def plain_env_def key_message_def key_record_def plain_start_def resolver_new_def Let_def
    cache_lookup_def with_max_entries_def list_lru_def mru_touch_def eq_ignore_case_def
    act_bind_def act_lift_def act_return_def on_world_def on_cache_def on_ns_cache_def act_modify_def)

lemma key_cached: "r_cache s = r_cache key_start \<Longrightarrow> cached_for key_env [1, 97, 0] 48 1 s \<noteq> None"
  by (simp add: cached_for_def key_cache key_env_def plain_env_def cache_lookup_def cache_insert_def with_max_entries_def
    list_lru_def mru_touch_def mru_put_def mru_without_def mru_write_def is_expired_def NANOS_def min_def Let_def)

text \<open>A server that does not answer brings no keys.\<close>

lemma silent_query:
  "r_truncation_cache s = Map.empty \<Longrightarrow>
     \<exists>s1. query_servers_concurrent key_env q i [server] s = (Ok None, s1) \<and> r_cache s1 = r_cache s"
  by (simp add: query_servers_concurrent_def sorted_servers_def server_task_def udp_server_task_def key_env_def plain_env_def
      act_bind_def act_return_def on_world_def act_modify_def Let_def sort_by_def)

lemma silent_rd1:
  assumes "r_truncation_cache s = Map.empty"
  shows "\<exists>s1. rd1_material key_env name rtype rclass [server] ([sg], []) s = (Ok ([sg], []), s1) \<and> r_cache s1 = r_cache s"
proof -
  have random: "e_random key_env w = (7, w)" for w by (simp add: key_env_def plain_env_def)
  obtain q where q: "ok_of (build_query_static name rtype rclass 7 True True) = Ok q"
    using build_query_returns [of name rtype rclass 7 True True]
    by (cases "build_query_static name rtype rclass 7 True True") auto
  show ?thesis
  proof (cases q)
    case None
    with q random show ?thesis
      by (simp add: rd1_material_def query_rd1_def act_bind_def act_return_def act_lift_def on_world_def act_modify_def)
  next
    case (Some query)
    obtain s1 where "query_servers_concurrent key_env query 7 [server] (s\<lparr>r_world := r_world s\<rparr>) = (Ok None, s1)"
      "r_cache s1 = r_cache s" using silent_query [of "s\<lparr>r_world := r_world s\<rparr>" query 7 server] assms by auto
    with q Some random show ?thesis
      by (simp add: rd1_material_def query_rd1_def act_bind_def act_return_def act_lift_def on_world_def act_modify_def)
  qed
qed

definition example_signature :: resource_record where
  "example_signature = \<lparr>rr_name = [1, 97, 0], rr_type = 46, rr_class = 1, rr_ttl = 300, rr_rdlength = 0, rr_rdata = [],
     rr_parsed = Some (RD_RRSIG 1 8 1 300 100 0 0 [1, 97, 0] [])\<rparr>"

definition signed_message :: message where
  "signed_message = answer_message\<lparr>m_answers := [answer_record, example_signature]\<rparr>"


end
