(* ===== verification/Resolution.thy ===== *)
theory Resolution
  imports Resolver_Examples
begin

text \<open>
  What the resolver finds: a name that the servers delegate step by step, from the root to a server
  that knows it, is resolved.  The conditions are on the network alone (\<open>honest\<close>, \<open>delegated\<close>); that each
  piece of the resolver succeeds under them is the contract \<open>ensures\<close> of the theory Actions.
\<close>

section \<open>Honest delegations\<close>

text \<open>
  \<open>net\<close> tells what a server answers to a question for a name of type \<open>rtype\<close>.  The network is honest about
  it: a query for that name is answered by that message, under the identifier of the query, possibly
  behind datagrams with other identifiers.
\<close>

definition with_id :: "u16 \<Rightarrow> message \<Rightarrow> message" where
  "with_id i msg = msg\<lparr>m_header := (m_header msg)\<lparr>h_id := i\<rparr>\<rparr>"

lemma with_id_fields [simp]:
  "h_tc (m_header (with_id i msg)) = h_tc (m_header msg)" "h_rcode (m_header (with_id i msg)) = h_rcode (m_header msg)"
  "m_answers (with_id i msg) = m_answers msg" "m_authorities (with_id i msg) = m_authorities msg"
  "m_additionals (with_id i msg) = m_additionals msg"
  by (simp_all add: with_id_def)

definition honest :: "('c, 'n, 'd, 'r, 't, 'w) res_env \<Rightarrow> u16 \<Rightarrow> (ip_addr \<Rightarrow> bytes \<Rightarrow> message option) \<Rightarrow> bool" where
  "honest E rtype net \<longleftrightarrow>
     (\<forall>server qname msg i q v w. net server qname = Some msg \<longrightarrow> i = fst (e_random E v) \<longrightarrow>
        build_query_static qname rtype 1 i False False = Ok q \<longrightarrow>
        \<not> h_tc (m_header msg) \<and>
        (\<exists>datagrams w'. e_udp E q server w = (Some datagrams, w') \<and> first_match i datagrams = Ok (Some (with_id i msg))))"

text \<open>
  The address records that a response carries for a name server; a response that refers to \<open>servers\<close>, with
  addresses for every name server it lists; a response that answers with \<open>records\<close>.
\<close>

definition glue_of :: "bool \<Rightarrow> message \<Rightarrow> resource_record \<Rightarrow> resource_record list" where
  "glue_of v6 msg ns = filter (\<lambda>r. domain_names_equal (rr_name r) (case ns_target (rr_parsed ns) of Some name \<Rightarrow> name | None \<Rightarrow> rr_rdata ns) \<and>
     (rr_type r = 1 \<or> (v6 \<and> rr_type r = 28))) (m_additionals msg)"

definition refers :: "bool \<Rightarrow> bytes \<Rightarrow> u16 \<Rightarrow> message \<Rightarrow> ip_addr list \<Rightarrow> bool" where
  "refers v6 name rtype msg servers \<longleftrightarrow>
     h_rcode (m_header msg) = 0 \<and>
     list_all (\<lambda>r. \<not> (domain_names_equal (rr_name r) name \<and> (rr_type r = rtype \<or> rr_type r = 5))) (m_answers msg) \<and>
     of_type 2 (m_authorities msg) \<noteq> [] \<and> list_all (\<lambda>ns. glue_of v6 msg ns \<noteq> []) (of_type 2 (m_authorities msg)) \<and>
     servers = concat (map (\<lambda>ns. List.map_filter (\<lambda>g. record_ip v6 (rr_parsed g)) (glue_of v6 msg ns)) (of_type 2 (m_authorities msg)))"

definition answers :: "bytes \<Rightarrow> u16 \<Rightarrow> message \<Rightarrow> resource_record list \<Rightarrow> bool" where
  "answers name rtype msg records \<longleftrightarrow>
     h_rcode (m_header msg) = 0 \<and> records = filter (\<lambda>r. domain_names_equal (rr_name r) name \<and> rr_type r = rtype) (m_answers msg)"

text \<open>
  The name with the labels \<open>ls\<close> is delegated from \<open>servers\<close> in \<open>n\<close> steps: all of them answer the question for
  its last \<open>shown\<close> labels with the records, or all refer to servers from which it is delegated in one step
  less, when one more label is shown.
\<close>

inductive delegated ::
  "(ip_addr \<Rightarrow> bytes \<Rightarrow> message option) \<Rightarrow> bool \<Rightarrow> bytes list \<Rightarrow> u16 \<Rightarrow> nat \<Rightarrow> ip_addr list \<Rightarrow> nat \<Rightarrow> resource_record list \<Rightarrow> bool"
  for net v6 ls rtype where
  del_answer: "servers \<noteq> [] \<Longrightarrow>
     list_all (\<lambda>server. \<exists>msg. net server (wire_name (drop (length ls - shown) ls)) = Some msg \<and>
       answers (wire_name ls) rtype msg records) servers \<Longrightarrow> records \<noteq> [] \<Longrightarrow>
     delegated net v6 ls rtype (Suc 0) servers shown records"
| del_referral: "servers \<noteq> [] \<Longrightarrow>
     list_all (\<lambda>server. \<exists>msg. net server (wire_name (drop (length ls - shown) ls)) = Some msg \<and>
       refers v6 (wire_name ls) rtype msg servers') servers \<Longrightarrow>
     delegated net v6 ls rtype n servers' (Suc shown) records \<Longrightarrow>
     delegated net v6 ls rtype (Suc n) servers shown records"

lemma delegated_servers: "delegated net v6 ls rtype n servers shown records \<Longrightarrow> servers \<noteq> []"
  by (erule delegated.cases) auto

section \<open>Asking honest servers\<close>

text \<open>No server is known to truncate its responses, so all are asked over UDP.\<close>

abbreviation undisturbed :: "('c, 'n, 'd, 'r, 't, 'w) resolver \<Rightarrow> bool" where
  "undisturbed s \<equiv> r_truncation_cache s = Map.empty"

lemma ensures_world: "ensures undisturbed (on_world f) (\<lambda>x s. undisturbed s)"
  unfolding on_world_def by (rule ensures_modify) (simp add: case_prod_unfold Let_def)

lemma ensures_stores:
  "ensures undisturbed (on_cache f) (\<lambda>x s. undisturbed s)" "ensures undisturbed (on_ns_cache g) (\<lambda>x s. undisturbed s)"
  "ensures undisturbed (on_delegations h) (\<lambda>x s. undisturbed s)" "ensures undisturbed (on_stats k) (\<lambda>x s. undisturbed s)"
  unfolding on_cache_def on_ns_cache_def on_delegations_def on_stats_def
  by (rule ensures_modify, simp add: case_prod_unfold Let_def)+

lemma ensures_caching:
  "ensures undisturbed (cache_response E msg) (\<lambda>x s. undisturbed s)"
  "ensures undisturbed (cache_delegation E zone ips) (\<lambda>x s. undisturbed s)"
  "ensures undisturbed (store_fresh E records) (\<lambda>x s. undisturbed s)"
  "ensures undisturbed (record_rtt E server rtt now) (\<lambda>x s. undisturbed s)"
proof -
  show "ensures undisturbed (record_rtt E server rtt now) (\<lambda>x s. undisturbed s)"
    unfolding record_rtt_def by (rule ensures_modify) simp
qed (unfold cache_response_def cache_delegation_def store_fresh_def Let_def,
    (rule ensures_bind ensures_world ensures_stores)+)

lemma udp_honest:
  fixes E :: "('c, 'n, 'd, 'r, 't, 'w) res_env"
  assumes "honest E rtype net" "net server qname = Some msg" "i = fst (e_random E v)"
    "build_query_static qname rtype 1 i False False = Ok q"
  shows "ensures undisturbed (udp_server_task E q i server) (\<lambda>r s. r = Some (with_id i msg) \<and> undisturbed s)"
proof -
  have tc: "\<not> h_tc (m_header msg)" using assms unfolding honest_def by blast
  have asked: "ensures undisturbed (on_world (e_udp E q server))
      (\<lambda>r s. \<exists>ds. r = Some ds \<and> first_match i ds = Ok (Some (with_id i msg)) \<and> undisturbed s)"
    unfolding on_world_def
  proof (rule ensures_modify, goal_cases)
    case (1 s)
    moreover obtain ds w' where "e_udp E q server (r_world s) = (Some ds, w')" "first_match i ds = Ok (Some (with_id i msg))"
      using assms unfolding honest_def by blast
    ultimately show ?case by simp
  qed
  have matched: "ensures (\<lambda>s. first_match i ds = Ok (Some (with_id i msg)) \<and> undisturbed s) (act_lift (first_match i ds))
      (\<lambda>r s. r = Some (with_id i msg) \<and> undisturbed (s :: ('c, 'n, 'd, 'r, 't, 'w) resolver))" for ds
    by (intro ensures_fixed, rule ensures_lift) auto
  have timed: "ensures (\<lambda>s. r = Some (with_id i msg) \<and> undisturbed s)
      (case r of None \<Rightarrow> act_return None
       | Some m \<Rightarrow> act_bind (tcp_fallback E q server m) (\<lambda>over_tcp. case over_tcp of Some result \<Rightarrow> act_return result
         | None \<Rightarrow> act_bind (record_rtt E server ms now) (\<lambda>_. act_return r)))
      (\<lambda>r s. r = Some (with_id i msg) \<and> undisturbed s)" for r ms now
    by (rule ensures_fixed)
      (simp add: tcp_fallback_def tc, rule ensures_bind [OF ensures_caching(4)], rule ensures_return, simp)
  show ?thesis unfolding udp_server_task_def
    by (rule ensures_bind [OF ensures_world ensures_bind [OF asked ensures_Some [OF ensures_bind [OF matched timed]]]])
qed

lemma set_sort_by: "set (sort_by precedes xs) = set xs"
proof -
  have ins: "set (insert_by precedes x ys) = insert x (set ys)" for x and ys :: "'a list"
    by (induction ys) auto
  have "set (fold (insert_by precedes) xs ys) = set xs \<union> set ys" for ys
    by (induction xs arbitrary: ys) (auto simp: ins)
  then show ?thesis by (simp add: sort_by_def)
qed

lemma set_reorder: "set (reorder is xs) = set xs"
proof (induction "is" xs rule: reorder.induct)
  case (2 i "is" xs)
  have "set xs = insert (xs ! i) (set (take i xs) \<union> set (drop (i + 1) xs))" if "i < length xs"
    using id_take_nth_drop [OF that] by (metis Suc_eq_plus1 Un_insert_right list.simps(15) set_append)
  with 2 show ?case by auto
qed simp

lemma select_honest:
  fixes E :: "('c, 'n, 'd, 'r, 't, 'w) res_env"
  assumes "servers \<noteq> []" "\<And>server. server \<in> set servers \<Longrightarrow>
      ensures undisturbed (udp_server_task E q i server) (\<lambda>r s. (\<exists>m. r = Some m \<and> good m) \<and> undisturbed s)"
  shows "ensures undisturbed (select_loop E q i hanging servers) (\<lambda>r s. (\<exists>m. r = Some m \<and> good m) \<and> undisturbed s)"
proof (unfold ensures_def, intro allI impI)
  fix s :: "('c, 'n, 'd, 'r, 't, 'w) resolver"
  assume s: "undisturbed s"
  obtain server others where srv: "servers = server # others" using assms(1) by (cases servers) auto
  have "server_task E q i server s = udp_server_task E q i server s" using s by (simp add: server_task_def)
  with ensuresD [OF assms(2) s, of server] obtain m s1
    where "server_task E q i server s = (Ok (Some m), s1)" "good m" "undisturbed s1" by (auto simp: srv)
  then show "\<exists>x s'. select_loop E q i hanging servers s = (Ok x, s') \<and> (\<exists>m. x = Some m \<and> good m) \<and> undisturbed s'"
    by (simp add: srv)
qed

lemma query_honest:
  assumes "honest E rtype net" "servers \<noteq> []" "i = fst (e_random E v)" "build_query_static qname rtype 1 i False False = Ok q"
    and "list_all (\<lambda>server. \<exists>msg. net server qname = Some msg \<and> good msg) servers" "\<And>msg. good msg \<Longrightarrow> good (with_id i msg)"
  shows "ensures undisturbed (query_servers_concurrent E q i servers) (\<lambda>r s. (\<exists>m. r = Some m \<and> good m) \<and> undisturbed s)"
proof -
  have sorted: "ensures undisturbed (sorted_servers E ms servers) (\<lambda>xs s. set xs = set servers \<and> undisturbed s)" for ms
    unfolding sorted_servers_def
    by (rule ensures_bind [OF ensures_world], rule ensures_modify) (simp add: Let_def set_sort_by)
  have one: "ensures undisturbed (udp_server_task E q i server) (\<lambda>r s. (\<exists>m. r = Some m \<and> good m) \<and> undisturbed s)"
    if server: "server \<in> set servers" for server
  proof -
    obtain msg where msg: "net server qname = Some msg" "good msg" using assms(5) server unfolding list_all_iff by blast
    show ?thesis by (rule ensures_weaken [OF udp_honest [OF assms(1) msg(1) assms(3,4)]]) (use assms(6) [OF msg(2)] in auto)
  qed
  have "ensures (\<lambda>s. set xs = set servers \<and> undisturbed s)
      (act_bind (on_world (e_order E (length xs))) (\<lambda>order. select_loop E q i False (reorder order xs)))
      (\<lambda>r s. (\<exists>m. r = Some m \<and> good m) \<and> undisturbed s)" for xs
  proof (rule ensures_fixed)
    assume xs: "set xs = set servers"
    have "reorder is xs \<noteq> []" for "is" using set_reorder [of "is" xs] xs assms(2) by (metis set_empty)
    with one xs show "ensures undisturbed (act_bind (on_world (e_order E (length xs))) (\<lambda>order. select_loop E q i False (reorder order xs)))
        (\<lambda>r s. (\<exists>m. r = Some m \<and> good m) \<and> undisturbed s)"
      by (intro ensures_bind [OF ensures_world] select_honest) (simp_all add: set_reorder)
  qed
  from ensures_bind [OF sorted this] assms(2) show ?thesis by (simp add: query_servers_concurrent_def)
qed

section \<open>One iteration\<close>

lemma referral_glued:
  assumes "list_all (\<lambda>ns. glue_of v6 msg ns \<noteq> []) ns_records"
  shows "referral_servers N v6 (m_additionals msg) ns_records (new, names) nc =
    ((new @ concat (map (\<lambda>ns. List.map_filter (\<lambda>g. record_ip v6 (rr_parsed g)) (glue_of v6 msg ns)) ns_records), names), nc)"
  using assms by (induction ns_records arbitrary: new) (simp_all add: glue_of_def Let_def)

lemma follow_glued:
  assumes "refers (e_enable_ipv6 E) name rtype msg servers'"
  shows "ensures undisturbed (follow_referral E rr 1 depth msg (of_type 2 (m_authorities msg))) (\<lambda>r s. r = servers' \<and> undisturbed s)"
proof -
  have found: "ensures undisturbed
      (on_ns_cache (referral_servers (e_ns E) (e_enable_ipv6 E) (m_additionals msg) (of_type 2 (m_authorities msg)) ([], [])))
      (\<lambda>r s. r = (servers', []) \<and> undisturbed s)"
    unfolding on_ns_cache_def using assms by (intro ensures_modify) (simp add: refers_def referral_glued)
  have "ensures (\<lambda>s. r = (servers', []) \<and> undisturbed s)
      (case r of (new_servers, ns_to_resolve) \<Rightarrow>
         act_bind (if ns_to_resolve \<noteq> [] then resolve_ns_names_concurrently rr 1 depth ns_to_resolve else act_return [])
           (\<lambda>resolved. let known = filter (\<lambda>(ns_name, ips). ips \<noteq> []) resolved in
             act_bind (on_ns_cache (\<lambda>nc. ((), fold (\<lambda>(ns_name, ips) nc. lru_put (e_ns E) nc ns_name ips) known nc))) (\<lambda>_.
             act_return (new_servers @ concat (map snd known)))))
      (\<lambda>r s. r = servers' \<and> undisturbed s)" for r
    by (rule ensures_fixed) (simp, rule ensures_bind [OF ensures_stores(2)], rule ensures_return, simp)
  from ensures_bind [OF found this] show ?thesis by (simp add: follow_referral_def)
qed

lemma process_referral:
  assumes "refers (e_enable_ipv6 E) name rtype msg servers'" "servers' \<noteq> []"
  shows "ensures undisturbed (process_response E rr False name rtype 1 depth labels servers revealed msg)
    (\<lambda>r s. r = Continue servers' (if revealed < labels then revealed + 1 else revealed) \<and> undisturbed s)"
proof -
  have none: "filter (\<lambda>r. domain_names_equal (rr_name r) name \<and> rr_type r = rtype) (m_answers msg) = []"
    "filter (\<lambda>r. domain_names_equal (rr_name r) name \<and> rr_type r = 5) (m_answers msg) = []"
    and ns: "of_type 2 (m_authorities msg) \<noteq> []"
    using assms(1) by (auto simp: refers_def list_all_iff filter_empty_conv)
  have "ensures (\<lambda>s. r = servers' \<and> undisturbed s)
      (if r \<noteq> [] then act_bind (cache_delegation E zone r) (\<lambda>_.
         act_return (Continue r (if revealed < labels then revealed + 1 else revealed))) else other)
      (\<lambda>r s. r = Continue servers' (if revealed < labels then revealed + 1 else revealed) \<and> undisturbed s)" for r zone other
    using assms(2) by (intro ensures_fixed) (simp add: ensures_bind [OF ensures_caching(2) ensures_return])
  from ensures_bind [OF follow_glued [OF assms(1)] this] show ?thesis
    unfolding process_response_def none Let_def using ns by simp
qed

lemma process_answer:
  assumes "answers name rtype msg records" "records \<noteq> []"
  shows "ensures undisturbed (process_response E rr False name rtype 1 depth labels servers revealed msg)
    (\<lambda>r s. r = Answer records False \<and> undisturbed s)"
  using assms unfolding process_response_def answers_def Let_def check_direct_def
  by (simp add: ensures_bind [OF ensures_caching(2) ensures_return])

lemma query_fits:
  assumes "length qname \<le> 255"
  shows "\<exists>q. build_query_static qname rtype 1 i d r = Ok q"
proof -
  have "encode_message (query_of qname rtype 1 i d r) = Ok (message_wire (query_of qname rtype 1 i d r))"
    by (rule encode_message_fits) (use assms in \<open>simp_all add: query_of_def sized_message_def message_records_def
      to_resource_record_def rr_sized_def message_wire_def MAX_DNS_MESSAGE_SIZE_def question_wire_def rr_wire_def opt_new_def\<close>)
  then show ?thesis by (simp add: build_query_static_def)
qed

lemma iterate_honest:
  fixes E :: "('c, 'n, 'd, 'r, 't, 'w) res_env"
  assumes "honest E rtype net" "servers \<noteq> []" "minimized_name name labels revealed = Ok qname" "length qname \<le> 255"
    and "list_all (\<lambda>server. \<exists>msg. net server qname = Some msg \<and> good msg) servers"
    and "\<And>msg. good msg \<Longrightarrow> h_rcode (m_header msg) = 0"
    and "\<And>msg. good msg \<Longrightarrow>
      ensures undisturbed (process_response E rr False name rtype 1 depth labels servers revealed msg) Q"
    and "\<And>msg i. good msg \<Longrightarrow> good (with_id i msg)"
  shows "ensures undisturbed (iterate_once E rr False name rtype 1 depth labels servers revealed) Q"
proof -
  have respond: "ensures (\<lambda>s. (\<exists>m. response = Some m \<and> good m) \<and> undisturbed s)
      (case response of
         None \<Rightarrow> act_return (Continue (rotate_servers servers) revealed)
       | Some msg \<Rightarrow>
           act_bind (cache_response E msg) (\<lambda>_.
             let rcode = h_rcode (m_header msg) in
             if rcode = 3 then
               act_bind (validate_negative_dnssec_response E rr False msg name 1 0) (\<lambda>(nx_ad, soa_records).
                 act_lift (Err (NxDomain soa_records nx_ad)))
             else if rcode \<noteq> 0 then
               act_return (Continue (if revealed \<ge> labels then rotate_servers servers else servers) revealed)
             else process_response E rr False name rtype 1 depth labels servers revealed msg)) Q" for response
    by (rule ensures_fixed, elim exE conjE) (simp add: assms(6,7) ensures_bind [OF ensures_caching(1)])
  have ask: "ensures undisturbed (act_bind (act_lift (build_query_static qname rtype 1 i False False)) (\<lambda>query_bytes.
      act_bind (query_servers_concurrent E query_bytes i servers) (\<lambda>response.
        case response of
         None \<Rightarrow> act_return (Continue (rotate_servers servers) revealed)
       | Some msg \<Rightarrow>
           act_bind (cache_response E msg) (\<lambda>_.
             let rcode = h_rcode (m_header msg) in
             if rcode = 3 then
               act_bind (validate_negative_dnssec_response E rr False msg name 1 0) (\<lambda>(nx_ad, soa_records).
                 act_lift (Err (NxDomain soa_records nx_ad)))
             else if rcode \<noteq> 0 then
               act_return (Continue (if revealed \<ge> labels then rotate_servers servers else servers) revealed)
             else process_response E rr False name rtype 1 depth labels servers revealed msg)))) Q" if i: "i = fst (e_random E v)" for i v
  proof -
    obtain q where q: "build_query_static qname rtype 1 i False False = Ok q" using query_fits [OF assms(4)] by blast
    show ?thesis
      unfolding q
      by (rule ensures_bind [OF ensures_lift [OF refl, where Q = "\<lambda>x s. x = q \<and> undisturbed s"]], simp, rule ensures_fixed,
          simp only:, rule ensures_bind [OF query_honest [OF assms(1,2) i q assms(5,8)] respond])
  qed
  have drawn: "ensures undisturbed (on_world (e_random E)) (\<lambda>i s. (\<exists>v. i = fst (e_random E v)) \<and> undisturbed s)"
    unfolding on_world_def by (rule ensures_modify) (auto simp: case_prod_unfold Let_def)
  have ensures_drawn: "ensures (\<lambda>s. (\<exists>v. i = fst (e_random E v)) \<and> undisturbed s) m Q"
    if "\<And>v. i = fst (e_random E v) \<Longrightarrow> ensures undisturbed m Q" for i and m :: "('c, 'n, 'd, 'r, 't, 'w, iteration) ract"
    using that by (auto intro: ensures_fixed)
  show ?thesis
    unfolding iterate_once_def if_not_P [OF assms(2)] assms(3)
    by (rule ensures_bind [OF ensures_lift [OF refl, where Q = "\<lambda>x s. x = qname \<and> undisturbed s"]], simp, rule ensures_fixed,
        simp only:, rule ensures_bind [OF drawn], rule ensures_drawn, erule ask)
qed

section \<open>Resolution\<close>

lemma shown_name:
  assumes "valid_labels ls" "length (wire_name ls) \<le> 255" "min revealed (length ls) = min shown (length ls)"
  shows "minimized_name (wire_name ls) (count_labels (wire_name ls)) revealed = Ok (wire_name (drop (length ls - shown) ls))"
    and "length (wire_name (drop (length ls - shown) ls)) \<le> 255"
proof -
  have same: "length ls - revealed = length ls - shown" using assms(3) by linarith
  show "minimized_name (wire_name ls) (count_labels (wire_name ls)) revealed = Ok (wire_name (drop (length ls - shown) ls))"
    using assms(1) same by (simp add: minimized_name_def name_prefix_wire)
  have "wire_name ls = wire_labels (take k ls) @ wire_name (drop k ls)" for k
    unfolding wire_name_def by (metis append_assoc append_take_drop_id wire_labels_append)
  then have "length (wire_name (drop k ls)) \<le> length (wire_name ls)" for k by (metis le_add2 length_append)
  with assms(2) show "length (wire_name (drop (length ls - shown) ls)) \<le> 255" using order_trans by blast
qed

lemma loop_delegated:
  assumes "delegated net (e_enable_ipv6 E) ls rtype n servers shown records" "honest E rtype net"
    and valid: "valid_labels ls" "length (wire_name ls) \<le> 255"
    and "n \<le> k" "min revealed (length ls) = min shown (length ls)"
  shows "ensures undisturbed
    (resolve_loop E rr err False (wire_name ls) rtype 1 depth (count_labels (wire_name ls)) k servers revealed)
    (\<lambda>r s. r = (records, False) \<and> undisturbed s)"
  using assms(1,5,6)
proof (induction arbitrary: k revealed rule: delegated.induct)
  case (del_answer servers shown records)
  then obtain k' where k: "k = Suc k'" by (cases k) auto
  have "ensures undisturbed (iterate_once E rr False (wire_name ls) rtype 1 depth (count_labels (wire_name ls)) servers revealed)
      (\<lambda>r s. r = Answer records False \<and> undisturbed s)"
    by (rule iterate_honest [OF assms(2) del_answer(1) shown_name [OF valid del_answer(5)] del_answer(2)])
      (simp add: answers_def, rule process_answer, assumption, rule del_answer(3), simp add: answers_def)
  then show ?case
    unfolding k resolve_loop.simps
    by (rule ensures_bind) (rule ensures_fixed, simp add: ensures_return)
next
  case (del_referral servers shown servers' n records)
  let ?next = "if revealed < count_labels (wire_name ls) then revealed + 1 else revealed"
  obtain k' where k: "k = Suc k'" "n \<le> k'" using del_referral(5) by (cases k) auto
  have "min ?next (length ls) = min (Suc shown) (length ls)" using del_referral(6) by (auto simp: valid)
  note further = del_referral(4) [OF k(2) this]
  have "ensures undisturbed (iterate_once E rr False (wire_name ls) rtype 1 depth (count_labels (wire_name ls)) servers revealed)
      (\<lambda>r s. r = Continue servers' ?next \<and> undisturbed s)"
    by (rule iterate_honest [OF assms(2) del_referral(1) shown_name [OF valid del_referral(6)] del_referral(2)])
      (simp add: refers_def, rule process_referral, assumption, rule delegated_servers [OF del_referral(3)],
        simp add: refers_def glue_of_def)
  then show ?case
    unfolding k(1) resolve_loop.simps
    by (rule ensures_bind) (rule ensures_fixed, use further in simp)
qed

context resolver_env
begin

text \<open>Nothing is cached.\<close>

definition unused where
  "unused s \<longleftrightarrow> undisturbed s \<and> ok (c_entries (r_cache s)) \<and> lru_look (e_cache E) (c_entries (r_cache s)) = Map.empty \<and>
     ok (c_stale_entries (r_cache s)) \<and> lru_look (e_cache E) (c_stale_entries (r_cache s)) = Map.empty \<and>
     dok (r_delegation_cache s) \<and> lru_look (e_deleg E) (r_delegation_cache s) = Map.empty"

lemma new_unused: "resolver_new E None listing unix instant file m w = Ok s \<Longrightarrow> unused s"
  by (auto simp: resolver_new_def Let_def unused_def with_max_entries_def fun_eq_iff cache.new_ok cache.look_new
      deleg.new_ok deleg.look_new STALE_MAX_ENTRIES_def DELEGATION_CACHE_MAX_def)

lemma walk_unused: "dok dc \<Longrightarrow> lru_look (e_deleg E) dc = Map.empty \<Longrightarrow> fst (deleg_walk (e_deleg E) clock i name dc) = None"
proof (induction "e_deleg E" clock i name dc rule: deleg_walk.induct)
  case (2 clock i b rest dc)
  obtain dc' where got: "lru_get (e_deleg E) dc (b # rest) = (None, dc')"
    using deleg.get_value [OF 2(3), of "b # rest"] 2(4) by (cases "lru_get (e_deleg E) dc (b # rest)") (simp add: lru_look_def)
  have "dok dc'" "lru_look (e_deleg E) dc' = Map.empty"
    using deleg.get_ok [OF 2(3), of "b # rest"] deleg.look_get [OF 2(3), of "b # rest"] 2(4) by (simp_all add: got)
  with 2(1) [OF refl _ got [symmetric] refl] show ?case by (simp add: got Let_def)
qed simp

lemma lookup_unused: "ensures unused (on_cache (cache_lookup (e_cache E) clock name rtype rclass)) (\<lambda>r s. r = None \<and> unused s)"
  unfolding on_cache_def
  by (rule ensures_modify) (simp add: unused_def cache.lookup_eq cache.get_ok cache.look_get)

lemma stale_unused: "ensures unused (on_cache (lookup_stale (e_cache E) now name rtype rclass)) (\<lambda>r s. r = None \<and> unused s)"
  unfolding on_cache_def
  by (rule ensures_modify) (simp add: unused_def cache.lookup_stale_eq cache.get_ok cache.look_get)

lemma world_unused: "ensures unused (on_world f) (\<lambda>x s. unused s)"
  unfolding on_world_def by (rule ensures_modify) (simp add: unused_def case_prod_unfold Let_def)

lemma stats_unused: "ensures unused (on_stats f) (\<lambda>x s. unused s)"
  unfolding on_stats_def by (rule ensures_modify) (simp add: unused_def)

lemma delegation_unused: "ensures unused (cached_delegation E name) (\<lambda>r s. r = None \<and> undisturbed s)"
  unfolding cached_delegation_def on_delegations_def
  by (rule ensures_bind [OF world_unused], rule ensures_modify)
    (simp add: unused_def find_cached_delegation_def walk_unused case_prod_unfold Let_def)

lemma body_delegated:
  assumes "delegated net (e_enable_ipv6 E) ls rtype m initial_root_addrs 1 records" "honest E rtype net"
    and "valid_labels ls" "length (wire_name ls) \<le> 255" "m \<le> MAX_ITERATIONS"
  shows "ensures unused (resolve_body E rr None False (wire_name ls) rtype 1 0 True) (\<lambda>r s. r = (records, False) \<and> undisturbed s)"
  unfolding resolve_body_def MAX_CNAME_DEPTH_def Let_def
  by (simp only: option.case prod.case not_less_zero if_False)
    (rule ensures_bind [OF delegation_unused], rule ensures_fixed,
      simp only: option.case prod.case if_True loop_delegated [OF assms refl])

lemma fresh_delegated:
  assumes "ensures unused (rr None False name rtype 1 0 True) (\<lambda>r s. r = (records, False) \<and> undisturbed s)"
  shows "ensures unused (resolve_fresh E rr False start name rtype 1) (\<lambda>r s. r = (records, False) \<and> undisturbed s)"
proof -
  have timed: "ensures undisturbed (act_bind (on_world (e_instants E)) (\<lambda>clock.
      act_bind (on_stats (timed_stats (e_f64 E) (elapsed_ms (e_f64 E) (clock 0 - start)))) (\<lambda>_.
        act_bind (store_fresh E records) (\<lambda>_. act_return (records, False)))))
      (\<lambda>r s. r = (records, False) \<and> undisturbed s)"
    by (rule ensures_bind [OF ensures_world ensures_bind [OF ensures_stores(4) ensures_bind [OF ensures_caching(3) ensures_return]]])
      simp
  show ?thesis
    unfolding resolve_fresh_def
    by (rule ensures_bind [OF ensures_try [OF assms]])
      (use timed in \<open>auto simp: ensures_def simp del: split_paired_Ex\<close>)
qed

lemma new_delegated:
  assumes "delegated net (e_enable_ipv6 E) ls rtype m initial_root_addrs 1 records" "honest E rtype net"
    and "valid_labels ls" "length (wire_name ls) \<le> 255" "m \<le> MAX_ITERATIONS"
    and "encode_domain_name name = Ok (wire_name ls)"
  shows "ensures unused (resolve_with_ad E (Suc fuel) False name rtype 1) (\<lambda>r s. r = (records, False) \<and> undisturbed s)"
proof -
  have "ensures unused (resolve_recursive E (Suc fuel) None False (wire_name ls) rtype 1 0 True) (\<lambda>r s. r = (records, False) \<and> undisturbed s)"
    using body_delegated [OF assms(1-5)] by simp
  then have fresh: "ensures unused (resolve_fresh E (resolve_recursive E (Suc fuel)) False start (wire_name ls) rtype 1)
      (\<lambda>r s. r = (records, False) \<and> undisturbed s)" for start by (rule fresh_delegated)
  show ?thesis
    unfolding resolve_with_ad_def resolve_with_ad_by_def
    by (rule ensures_bind [OF world_unused], rule ensures_bind [OF ensures_lift [OF assms(6), where Q = "\<lambda>x s. x = wire_name ls \<and> unused s"]],
        simp, rule ensures_fixed, simp only:, rule ensures_bind [OF world_unused], rule ensures_bind [OF lookup_unused],
        rule ensures_fixed, simp only: option.case, rule ensures_bind [OF stats_unused], rule ensures_bind [OF world_unused],
        rule ensures_bind [OF stale_unused], rule ensures_fixed, simp only: option.case, rule fresh)
qed

end

section \<open>Properties\<close>

text \<open>
  C4. A new resolver that does not validate finds what the network delegates: when the root servers,
  asked for the last label of a name of at most 255 bytes, refer to servers that, asked for one label
  more, refer to others, and so on for at most 32 questions, with the address of every name server, until
  servers answer with the records of the name, and every query is answered under its own identifier, then
  \<open>resolve_with_ad\<close> returns these records, whatever the order of the replies, the other datagrams that
  arrive first and the round-trip times known before.
\<close>

theorem honest_delegation_resolved:
  assumes "resolver_env E cap ok ncap nok dcap dok rcap rok" "honest E rtype net"
    and "resolver_new E None listing unix instant saved limit w = Ok s"
    and "encode_domain_name name = Ok (wire_name ls)" "valid_labels ls" "length (wire_name ls) \<le> 255"
    and "delegated net (e_enable_ipv6 E) ls rtype n initial_root_addrs 1 records" "n \<le> MAX_ITERATIONS"
  shows "fst (resolve_with_ad E (Suc fuel) False name rtype 1 s) = Ok (records, False)"
  using ensuresD [OF resolver_env.new_delegated [OF assms(1,7,2,5,6,8,4)] resolver_env.new_unused [OF assms(1,3)], of fuel] by auto

text \<open>
  A network with one delegation: the root servers refer a question for \<open>b\<close> to the server \<open>n.b\<close> with the
  address 10.0.0.2, which knows the address of \<open>a.b\<close>.
\<close>

definition leaf_server :: ip_addr where "leaf_server = V4 (Ipv4 10 0 0 2)"

definition leaf_record :: resource_record where
  "leaf_record = \<lparr>rr_name = [1, 97, 1, 98, 0], rr_type = 1, rr_class = 1, rr_ttl = 300, rr_rdlength = 4,
     rr_rdata = [10, 0, 0, 1], rr_parsed = Some (RD_A (Ipv4 10 0 0 1))\<rparr>"

definition leaf_message :: message where
  "leaf_message =
     \<lparr>m_header = \<lparr>h_id = 7, h_qr = True, h_opcode = 0, h_aa = False, h_tc = False, h_rd = False, h_ra = False, h_z = 0,
        h_ad = False, h_cd = False, h_rcode = 0, h_qdcount = 0, h_ancount = 1, h_nscount = 0, h_arcount = 0\<rparr>,
      m_questions = [], m_answers = [leaf_record], m_authorities = [], m_additionals = []\<rparr>"

definition referral_message :: message where
  "referral_message =
     \<lparr>m_header = \<lparr>h_id = 7, h_qr = True, h_opcode = 0, h_aa = False, h_tc = False, h_rd = False, h_ra = False, h_z = 0,
        h_ad = False, h_cd = False, h_rcode = 0, h_qdcount = 0, h_ancount = 0, h_nscount = 1, h_arcount = 1\<rparr>,
      m_questions = [], m_answers = [],
      m_authorities = [\<lparr>rr_name = [1, 98, 0], rr_type = 2, rr_class = 1, rr_ttl = 300, rr_rdlength = 5,
        rr_rdata = [1, 110, 1, 98, 0], rr_parsed = Some (RD_NS [1, 110, 1, 98, 0])\<rparr>],
      m_additionals = [\<lparr>rr_name = [1, 110, 1, 98, 0], rr_type = 1, rr_class = 1, rr_ttl = 300, rr_rdlength = 4,
        rr_rdata = [10, 0, 0, 2], rr_parsed = Some (RD_A (Ipv4 10 0 0 2))\<rparr>]\<rparr>"

abbreviation referring_env where
  "referring_env \<equiv> (plain_env None)\<lparr>e_udp := (\<lambda>q server w. (Some [message_wire (if server = leaf_server then leaf_message else referral_message)], w))\<rparr>"

definition referring_net :: "ip_addr \<Rightarrow> bytes \<Rightarrow> message option" where
  "referring_net server qname =
     (if server = leaf_server then (if qname = [1, 97, 1, 98, 0] then Some leaf_message else None)
      else if qname = [1, 98, 0] then Some referral_message else None)"

lemma first_match_wire:
  assumes "wf_message m" "length (message_wire m) \<le> 8192"
  shows "first_match (h_id (m_header m)) [message_wire m] = Ok (Some (m\<lparr>m_header := counted_header m\<rparr>))"
proof -
  have "be16 (message_wire m ! 0) (message_wire m ! 1) = h_id (m_header m)" "2 \<le> length (message_wire m)"
    by (simp_all add: message_wire_def header_wire_def bytes_of_u16_def counted_header_def)
  with assms decode_message_wire [of m "[]"] show ?thesis by (simp add: first_match_short del: first_match.simps)
qed

lemma referring_replies:
  "first_match 7 [message_wire leaf_message] = Ok (Some (with_id 7 leaf_message))"
  "first_match 7 [message_wire referral_message] = Ok (Some (with_id 7 referral_message))"
proof -
  have valid: "valid_name (wire_name [[97], [98]])" "valid_name (wire_name [[98]])" "valid_name (wire_name [[110], [98]])"
    by (rule valid_name_wire, simp add: valid_label_def)+
  have wf: "wf_message leaf_message" "wf_message referral_message"
    using valid by (simp_all add: leaf_message_def leaf_record_def referral_message_def wf_message_def wf_header_def message_records_def wf_rr_def)
  have len: "length (message_wire leaf_message) \<le> 8192" "length (message_wire referral_message) \<le> 8192"
    by (simp_all add: leaf_message_def leaf_record_def referral_message_def message_wire_def rr_wire_def)
  show "first_match 7 [message_wire leaf_message] = Ok (Some (with_id 7 leaf_message))"
    "first_match 7 [message_wire referral_message] = Ok (Some (with_id 7 referral_message))"
    using first_match_wire [OF wf(1) len(1)] first_match_wire [OF wf(2) len(2)]
    by (simp_all add: with_id_def counted_header_def leaf_message_def referral_message_def del: first_match.simps)
qed

lemma referring_honest: "honest referring_env 1 referring_net"
  unfolding honest_def
proof (intro allI impI)
  fix server qname msg i q v w
  assume net: "referring_net server qname = Some msg" and i: "i = fst (e_random referring_env v)"
  have "i = 7" using i by (simp add: plain_env_def)
  with net show "\<not> h_tc (m_header msg) \<and> (\<exists>datagrams w'. e_udp referring_env q server w = (Some datagrams, w') \<and>
      first_match i datagrams = Ok (Some (with_id i msg)))"
    using referring_replies
    by (auto simp: referring_net_def leaf_message_def referral_message_def
        simp del: first_match.simps split: if_splits)
qed

lemma referring_resolver_env: "resolver_env referring_env fst list_lru_ok fst list_lru_ok fst list_lru_ok fst list_lru_ok"
  unfolding resolver_env_def cache_lru_def by (simp add: plain_env_def listlru.lru_crate_axioms)

lemma referring_delegated: "delegated referring_net False [[97], [98]] 1 2 initial_root_addrs 1 [leaf_record]"
proof -
  have leaf: "answers (wire_name [[97], [98]]) 1 leaf_message [leaf_record]"
    unfolding leaf_message_def leaf_record_def by code_simp
  have ref: "refers False (wire_name [[97], [98]]) 1 referral_message [leaf_server]"
    unfolding referral_message_def leaf_server_def by code_simp
  have roots: "list_all (\<lambda>server. server \<noteq> leaf_server) initial_root_addrs" unfolding leaf_server_def by code_simp
  have "delegated referring_net False [[97], [98]] 1 (Suc 0) [leaf_server] (Suc 1) [leaf_record]"
    by (rule del_answer) (use leaf in \<open>simp_all add: referring_net_def\<close>)
  then have "delegated referring_net False [[97], [98]] 1 (Suc (Suc 0)) initial_root_addrs 1 [leaf_record]"
    by (rule del_referral [OF roots_nonempty, rotated])
      (use roots ref in \<open>simp add: referring_net_def list_all_iff\<close>)
  then show ?thesis by (simp only: Suc_1 [symmetric] One_nat_def)
qed

theorem honest_delegation_resolved_witness:
  "fst (resolve_with_ad referring_env 1 False ''a.b'' 1 1
     (ok_value (resolver_new referring_env None (\<lambda>m. []) (\<lambda>_. 7) (\<lambda>_. 7) None 2 ()))) = Ok ([leaf_record], False)"
proof -
  let ?s = "ok_value (resolver_new referring_env None (\<lambda>m. []) (\<lambda>_. 7) (\<lambda>_. 7) None 2 ())"
  have name: "encode_domain_name ''a.b'' = Ok (wire_name [[97], [98]])" by code_simp
  have new: "resolver_new referring_env None (\<lambda>m. []) (\<lambda>_. 7) (\<lambda>_. 7) None 2 () = Ok ?s"
    by (simp add: resolver_new_def Let_def)
  have valid: "valid_labels [[97], [98]]" "length (wire_name [[97], [98]]) \<le> 255" by (simp_all add: valid_label_def)
  have "delegated referring_net (e_enable_ipv6 referring_env) [[97], [98]] 1 2 initial_root_addrs 1 [leaf_record]"
    using referring_delegated by (simp add: plain_env_def)
  from honest_delegation_resolved [OF referring_resolver_env referring_honest new name valid this, of 0]
  show ?thesis by (simp add: MAX_ITERATIONS_def)
qed

end
