(* ===== verification/Server_Replies.thy ===== *)
theory Server_Replies
  imports Server_Tcp Resolver_Answers
begin

text \<open>
  What the two servers guarantee about the content of their replies, given what the resolver behind
  them guarantees about its answers: the interface between \<open>src/src/server\<close> and
  \<open>src/src/resolver/recursive.rs\<close>.
\<close>

section \<open>Names in questions\<close>

text \<open>
  The servers hand the name of a question to the resolver as text.  A name survives that if its labels
  are UTF-8 and contain no dot.
\<close>

definition text_name :: "bytes \<Rightarrow> bool" where
  "text_name name \<longleftrightarrow> (\<exists>ls. name = wire_name ls \<and> valid_labels ls \<and> (\<forall>l \<in> set ls. utf8_valid l \<and> 46 \<notin> set l))"

lemma encode_printed_name:
  assumes "valid_labels ls" "\<forall>l \<in> set ls. utf8_valid l \<and> 46 \<notin> set l"
  shows "encode_domain_name (labels_to_string (wire_name ls)) = Ok (wire_name (map (map ascii_lower) ls))"
proof (cases "ls = []")
  case True
  then show ?thesis by (simp add: labels_to_string_def encode_domain_name_def trim_end_matches_def)
next
  case False
  have "p \<noteq> [] \<and> CHR ''.'' \<notin> set p" if p: "p \<in> set (map text_of_bytes ls)" for p
  proof -
    obtain l where l: "l \<in> set ls" "p = text_of_bytes l" using p by auto
    then have "of_char CHR ''.'' \<notin> set (as_bytes p)" using assms(2) by auto
    then have "CHR ''.'' \<notin> set p" unfolding as_bytes_def by force
    with l assms(1) show ?thesis by (auto simp: valid_labels_def valid_label_def text_of_bytes_def)
  qed
  then have "name_labels (labels_to_string (wire_name ls)) = map text_of_bytes ls"
    using assms False by (simp add: labels_to_string_wire name_labels_of_join)
  then show ?thesis using assms(1) by (simp add: encode_domain_name_Ok_iff comp_def)
qed

lemma eq_label_bytes_trans:
  "eq_label_bytes n a b = Some (a', b') \<Longrightarrow> eq_label_bytes n b c = Some (b'', c') \<Longrightarrow>
     b'' = b' \<and> eq_label_bytes n a c = Some (a', c')"
proof (induction n a b arbitrary: c rule: eq_label_bytes.induct)
  case (2 n x a y b)
  then have xy: "eq_ignore_case x y" "eq_label_bytes n a b = Some (a', b')" by (auto split: if_splits)
  from "2.prems"(2) obtain z d where c: "c = z # d" by (cases c) auto
  with "2.prems"(2) have yz: "eq_ignore_case y z" "eq_label_bytes n b d = Some (b'', c')" by (auto split: if_splits)
  have "eq_ignore_case x z" using xy(1) yz(1) unfolding eq_ignore_case_def by (rule trans)
  with "2.IH" [OF xy yz(2)] show ?case by (simp add: c)
qed auto

lemma names_equal_trans: "domain_names_equal a b \<Longrightarrow> domain_names_equal b c \<Longrightarrow> domain_names_equal a c"
proof (induction a b arbitrary: c rule: domain_names_equal.induct)
  case (4 la a lb b)
  from "4.prems"(1) have ab: "la = lb" by (simp split: if_splits)
  from "4.prems"(2) obtain d where c: "c = lb # d" by (cases c) (simp_all split: if_splits)
  show ?case
  proof (cases "lb = 0")
    case False
    with "4.prems"(1) ab obtain a' b' where a': "eq_label_bytes (unat lb) a b = Some (a', b')" "domain_names_equal a' b'"
      by (simp split: option.splits prod.splits)
    from "4.prems"(2) False c obtain b'' d' where b': "eq_label_bytes (unat lb) b d = Some (b'', d')" "domain_names_equal b'' d'"
      by (simp split: option.splits prod.splits)
    note t = eq_label_bytes_trans [OF a'(1) b'(1)]
    have "domain_names_equal a' d'"
      by (rule "4.IH" [of "(a', b')" a' b']) (use ab False a' b' t in simp_all)
    with t ab c False show ?thesis by simp
  qed (simp add: ab c)
qed auto

lemma answer_for_renamed:
  assumes "answer_for n rtype name records" "domain_names_equal name name'"
  shows "answer_for n rtype name' records"
  using assms
proof (induction arbitrary: name')
  case (answer_direct rtype name records n)
  then show ?case by (intro answer_for.answer_direct) (auto simp: list_all_iff intro: names_equal_trans)
next
  case (answer_cname cname name target n rtype records)
  then show ?case by (blast intro: answer_for.answer_cname names_equal_trans)
qed (rule answer_none)

definition answers_question :: "question \<Rightarrow> resource_record list \<Rightarrow> bool" where
  "answers_question q records \<longleftrightarrow>
     (\<exists>encoded. encode_domain_name (question_name_str q) = Ok encoded \<and> answer_for MAX_CNAME_DEPTH (q_type q) encoded records)"

lemma answers_text_question:
  assumes "answers_question q records" "text_name (q_name q)"
  shows "answer_for MAX_CNAME_DEPTH (q_type q) (q_name q) records"
proof -
  obtain ls where ls: "q_name q = wire_name ls" "valid_labels ls" "\<forall>l \<in> set ls. utf8_valid l \<and> 46 \<notin> set l"
    using assms(2) by (auto simp: text_name_def)
  have low: "valid_labels (map (map ascii_lower) ls)"
    using ls(2) by (auto simp: valid_labels_def valid_label_def)
  have "domain_names_equal (wire_name (map (map ascii_lower) ls)) (q_name q)"
    unfolding ls(1) domain_names_equal_wire [OF low ls(2)] by (simp add: comp_def)
  then show ?thesis
    using assms(1) encode_printed_name [OF ls(2,3)]
    by (auto simp: answers_question_def question_name_str_def ls(1) intro: answer_for_renamed)
qed

section \<open>Sound replies\<close>

definition cnames_first :: "resource_record list \<Rightarrow> resource_record list" where
  "cnames_first records = filter (\<lambda>r. rr_type r = 5) records @ filter (\<lambda>r. rr_type r \<noteq> 5) records"

text \<open>
  A reply without error and without truncation is the encoding of a message with one question and with
  records that answer it, canonical names first: they answer the printed form of its name, and the
  name itself if printing does not change it.  Every reply, with errors and truncated ones included,
  has AD set only if the resolver validates.
\<close>

definition sound_answer :: "bytes \<Rightarrow> bool" where
  "sound_answer b \<longleftrightarrow>
     (\<exists>m q records. b = message_wire m \<and> m_questions m = [q] \<and> m_answers m = cnames_first records \<and>
        answers_question q records \<and>
        (text_name (q_name q) \<longrightarrow> answer_for MAX_CNAME_DEPTH (q_type q) (q_name q) records))"

definition sound_reply :: "bool \<Rightarrow> bytes \<Rightarrow> bool" where
  "sound_reply validates b \<longleftrightarrow>
     (case header_from_bytes b of
        Ok h \<Rightarrow> (h_ad h \<longrightarrow> validates) \<and> (h_rcode h \<noteq> 0 \<or> h_tc h \<or> sound_answer b)
      | _ \<Rightarrow> False)"

lemma encoded_header:
  assumes "encode_message m = Ok b" "response_header (m_header m)" "12 \<le> n"
  shows "header_from_bytes (take n b) = Ok ((counted_header m)\<lparr>h_z := 2\<rparr>)"
proof -
  have b: "b = header_wire (counted_header m) @ drop 12 b"
    using encode_Ok_wire(1) [OF assms(1)] by (simp add: message_wire_def)
  have "take n b = header_wire (counted_header m) @ take (n - 12) (drop 12 b)"
    by (subst b) (use assms(3) in simp)
  moreover have "response_header (counted_header m)"
    using assms(2) by (simp add: response_header_def counted_header_def)
  ultimately show ?thesis using response_header_from_wire by simp
qed

lemma encoded_length: "encode_message m = Ok b \<Longrightarrow> 12 \<le> length b"
  using encode_Ok_wire(1) by (fastforce simp: message_wire_def)

lemma error_reply_sound:
  assumes "encode_message m = Ok b" "response_header (m_header m)" "h_rcode (m_header m) \<noteq> 0"
    "h_ad (m_header m) \<longrightarrow> validates"
  shows "sound_reply validates b"
  using encoded_header [OF assms(1,2) encoded_length [OF assms(1)]] assms(3,4)
  by (simp add: sound_reply_def counted_header_def)

lemma truncated_reply_sound:
  assumes "encode_message (truncated_response m) = Ok b" "response_header (m_header m)" "12 \<le> n"
    "h_ad (m_header m) \<longrightarrow> validates"
  shows "sound_reply validates (take n b)"
proof -
  have "response_header (m_header (truncated_response m))"
    using assms(2) by (simp add: truncated_response_def response_header_def)
  from encoded_header [OF assms(1) this assms(3)] assms(4) show ?thesis
    by (simp add: sound_reply_def counted_header_def truncated_response_def)
qed

lemma answer_reply_sound:
  assumes "encode_message (build_response h q records adds ad) = Ok b" "answers_question q records" "ad \<longrightarrow> validates"
  shows "sound_reply validates b"
proof -
  have "response_header (m_header (build_response h q records adds ad))" by simp
  note h = encoded_header [OF assms(1) this encoded_length [OF assms(1)]]
  have "m_questions (build_response h q records adds ad) = [q]"
    by (simp add: build_response_def Let_def case_prod_unfold)
  then have "sound_answer b"
    using encode_Ok_wire(1) [OF assms(1)] assms(2) answers_text_question [OF assms(2)]
    by (auto simp: sound_answer_def build_response_answers cnames_first_def intro!: exI)
  with h assms(3) show ?thesis by (simp add: sound_reply_def counted_header_def)
qed

lemma udp_answer_sound:
  assumes "udp_payload (build_response h q records adds ad) = Ok b" "answers_question q records" "ad \<longrightarrow> validates"
  shows "sound_reply validates b"
proof (cases "encode_message (build_response h q records adds ad) = Ok b")
  case False
  with assms(1) obtain t where t: "encode_message (truncated_response (build_response h q records adds ad)) = Ok t"
    "b = take (min (length t) MAX_UDP_PAYLOAD) t"
    by (auto simp: udp_payload_def outcome_simps split: if_splits)
  with encoded_length [OF t(1)] show ?thesis
    by (auto intro!: truncated_reply_sound [OF t(1)] simp: MAX_UDP_PAYLOAD_def assms(3))
qed (use assms(2,3) answer_reply_sound in blast)

lemma quick_error_sound:
  assumes "quick_error_response data rc = Ok (Some b)" "0 < rc" "rc < 16"
  shows "sound_reply validates b"
proof -
  obtain qs where "encode_message (quick_message data rc qs) = Ok b" using quick_error_Ok [OF assms(1)] by blast
  then show ?thesis
    by (rule error_reply_sound) (use assms(2,3) in \<open>simp_all add: quick_message_def new_response_def response_header_def\<close>)
qed

lemma nxdomain_sound:
  assumes "encode_message (nxdomain_message request q soa ad) = Ok b" "ad \<longrightarrow> validates" shows "sound_reply validates b"
  by (rule error_reply_sound [OF assms(1)])
    (use assms(2) in \<open>simp_all add: nxdomain_message_def new_response_def response_header_def\<close>)

lemma error_rcode_positive: "0 < error_rcode e"
  by (simp add: error_rcode_def)

lemma send_some_sound:
  assumes "b \<in> set (fst (send_some (quick_error_response data rc)))" "0 < rc" "rc < 16"
  shows "sound_reply validates b"
  using assms quick_error_sound [OF _ assms(2,3), of data b]
  by (cases "quick_error_response data rc" rule: send_some.cases) auto

lemma udp_error_sound:
  "b \<in> set (fst (udp_error data request q e)) \<Longrightarrow> honest_error validates e \<Longrightarrow> sound_reply validates b"
  using nxdomain_sound send_some_sound [OF _ error_rcode_positive error_rcode_less]
  by (cases e) (auto simp: udp_error_def send_ok_set)

lemma tcp_error_sound: "tcp_error data request q e = Ok b \<Longrightarrow> honest_error validates e \<Longrightarrow> sound_reply validates b"
  using nxdomain_sound quick_error_sound [OF _ error_rcode_positive error_rcode_less]
  by (cases e) (auto simp: tcp_error_def outcome_simps split: option.splits)

text \<open>
  What a connection is sent: nothing, or a sound reply in its frame, whole unless the write fails, and
  then as much of it as the failed write got out.
\<close>

definition sound_stream :: "bool \<Rightarrow> tcp_stream \<Rightarrow> bool" where
  "sound_stream validates st \<longleftrightarrow>
     ts_out st = [] \<or>
     (\<exists>b. sound_reply validates b \<and>
        ts_out st = (case ts_write_fails st of None \<Rightarrow> frame b | Some (e, n) \<Rightarrow> take n (frame b)))"

lemma write_sound:
  "ts_out st = [] \<Longrightarrow> sound_reply validates b \<Longrightarrow> sound_stream validates (snd (write_tcp_response b st))"
  by (auto simp: sound_stream_def write_tcp_response_def write_all_def frame_def Let_def split: option.split)

lemma write_try_sound:
  assumes "ts_out st = []" "\<And>b. r = Ok b \<Longrightarrow> sound_reply validates b"
  shows "sound_stream validates (snd (write_try r st))"
  using assms write_sound by (cases r) (auto simp: sound_stream_def)

lemma read_query_out: "read_query st = Ok (data, st') \<Longrightarrow> ts_out st' = ts_out st"
  by (auto simp: read_query_def read_exact_def Let_def split: outcome.splits if_splits prod.splits)

section \<open>The interface of the resolver\<close>

locale served_resolver =
  fixes R :: "'r resolver_ops" and I :: "'r \<Rightarrow> bool" and validates :: bool
  assumes ad_keeps: "I s \<Longrightarrow> I (snd (resolve_with_ad_op R name rtype rclass s))"
    and dnssec_keeps: "I s \<Longrightarrow> I (snd (resolve_dnssec_op R name rtype rclass s))"
    and ad_answers: "I s \<Longrightarrow> resolve_with_ad_op R name rtype rclass s = (Ok (records, ad), s') \<Longrightarrow>
      (\<exists>encoded. encode_domain_name name = Ok encoded \<and> answer_for MAX_CNAME_DEPTH rtype encoded records) \<and>
      (ad \<longrightarrow> validates)"
    and ad_errors: "I s \<Longrightarrow> resolve_with_ad_op R name rtype rclass s = (Err e, s') \<Longrightarrow> honest_error validates e"
begin

lemma additionals_keep: "I s \<Longrightarrow> I (snd (answer_additionals R wants qname qclass s))"
  using ad_keeps [of s "extract_zone qname" 48 qclass] dnssec_keeps
  by (auto simp: answer_additionals_def dnssec_additionals_def Let_def case_prod_unfold split: outcome.split)

lemma query_keeps: "I s \<Longrightarrow> I (snd (handle_query R data s))"
  using ad_keeps [of s] additionals_keep
  by (auto simp: handle_query_def udp_respond_def Let_def case_prod_unfold split: outcome.split)

lemma connection_keeps: "I s \<Longrightarrow> I (snd (handle_tcp_connection R st s))"
  using ad_keeps [of s] additionals_keep
  by (auto simp: handle_tcp_connection_def tcp_answer_def Let_def case_prod_unfold split: outcome.split option.split)

lemma question_answered:
  assumes "I s" "resolve_with_ad_op R (question_name_str q) (q_type q) rclass s = (Ok (records, ad), s')"
  shows "answers_question q records" "wants \<and> ad \<longrightarrow> validates"
  using ad_answers [OF assms] by (auto simp: answers_question_def)

lemma query_sound:
  assumes "I s" "b \<in> set (fst (fst (handle_query R data s)))"
  shows "sound_reply validates b"
proof -
  have "sound_reply validates b" if b: "b \<in> set (fst (fst (udp_respond R data request q s)))" for request q
  proof (cases "resolve_with_ad_op R (question_name_str q) (q_type q) (q_class q) s")
    case (Pair r s1)
    show ?thesis
    proof (cases r)
      case (Ok x)
      obtain records ad where "x = (records, ad)" by fastforce
      with Pair Ok have r: "resolve_with_ad_op R (question_name_str q) (q_type q) (q_class q) s = (Ok (records, ad), s1)"
        by simp
      from b r question_answered [OF assms(1) r] udp_answer_sound show ?thesis
        by (auto simp: udp_respond_def Let_def case_prod_unfold send_try_set outcome_simps)
    next
      case (Err e)
      with Pair ad_errors [OF assms(1)] have "honest_error validates e" by blast
      with b Pair Err udp_error_sound show ?thesis by (auto simp: udp_respond_def)
    qed (use b Pair in \<open>auto simp: udp_respond_def\<close>)
  qed
  with assms(2) send_some_sound [of b data 1] show ?thesis
    by (auto simp: handle_query_def split: outcome.split_asm if_splits)
qed

lemma tcp_answer_sound:
  assumes "I s" "tcp_answer R data request q s = (Ok b, s')" shows "sound_reply validates b"
proof (cases "resolve_with_ad_op R (question_name_str q) (q_type q) (q_class q) s")
  case (Pair r s1)
  show ?thesis
  proof (cases r)
    case (Ok x)
    obtain records ad where "x = (records, ad)" by fastforce
    with Pair Ok have r: "resolve_with_ad_op R (question_name_str q) (q_type q) (q_class q) s = (Ok (records, ad), s1)"
      by simp
    from assms(2) r question_answered [OF assms(1) r] answer_reply_sound show ?thesis
      by (auto simp: tcp_answer_def Let_def case_prod_unfold outcome_simps)
  next
    case (Err e)
    with Pair ad_errors [OF assms(1)] have "honest_error validates e" by blast
    with assms(2) Pair Err tcp_error_sound show ?thesis by (auto simp: tcp_answer_def)
  qed (use assms(2) Pair in \<open>auto simp: tcp_answer_def\<close>)
qed

lemma connection_sound:
  assumes "I s" "ts_out st = []"
  shows "sound_stream validates (snd (fst (handle_tcp_connection R st s)))"
proof (cases "read_query st")
  case (Ok x)
  obtain data st1 where x: "x = (data, st1)" by fastforce
  with Ok read_query_out assms(2) have st1: "ts_out st1 = []" by fastforce
  have "sound_stream validates (snd (write_try (fst (tcp_answer R data request q s)) st1))" for request q
    by (rule write_try_sound [OF st1]) (use tcp_answer_sound [OF assms(1)] in \<open>metis prod.collapse\<close>)
  moreover have "sound_stream validates (snd (write_tcp_response b st1))"
    if "quick_error_response data 1 = Ok (Some b)" for b
    by (rule write_sound [OF st1 quick_error_sound [OF that]]) simp_all
  moreover have "sound_stream validates st1" using st1 by (simp add: sound_stream_def)
  ultimately show ?thesis using Ok x
    by (auto simp: handle_tcp_connection_def Let_def case_prod_unfold split: outcome.split option.split)
qed (use assms(2) in \<open>simp_all add: handle_tcp_connection_def sound_stream_def\<close>)

end

end
