(* ===== verification/Api.thy ===== *)
theory Api
  imports Resolver Blocklist
begin

text \<open>
  The REST interface of \<open>src/src/api.rs\<close>: its routes, the handlers over the shared resolver, and the
  responses.  Matching a request with the routes and writing JSON is axum's part; a request that
  matches no route gets 404, one with another method than its route 405.  Dividing two counters as
  doubles is the argument \<open>ratio\<close>, the reading of the clock the argument \<open>now\<close>.
\<close>

section \<open>State and responses\<close>

text \<open>The resolver of \<open>AppState\<close> is the state the handlers act on.\<close>

record app_state =
  ap_start_time :: nat
  ap_blocklist :: "blocklist option"
  ap_query_count :: u64
  ap_blocked_count :: u64

record health_response =
  hr_status :: string
  hr_uptime_secs :: nat

record stats_response =
  sr_total_queries :: u64
  sr_blocked_queries :: u64
  sr_cache_hits :: u64
  sr_cache_misses :: u64
  sr_cache_hit_rate :: f64
  sr_cache_size :: nat

record flush_response =
  fr_status :: string
  fr_message :: string

record blocklist_stats_response =
  br_enabled :: bool
  br_total_blocked :: u64
  br_total_queries :: u64
  br_rules_loaded :: nat

record reload_response =
  rl_status :: string
  rl_message :: string

record error_response =
  er_error :: string

section \<open>Handlers\<close>

definition health_handler :: "nat \<Rightarrow> app_state \<Rightarrow> health_response" where
  "health_handler now state =
     \<lparr>hr_status = ''ok'', hr_uptime_secs = (now - ap_start_time state) div NANOS_PER_SEC\<rparr>"

definition cache_stats :: "('c, 'n, 'd, 'r, 't, 'w, u64 \<times> u64) ract" where
  "cache_stats = on_cache (\<lambda>c. ((c_hits c, c_misses c), c))"

text \<open>The cache's own hit rate, which guards against division by zero with the divisor itself.\<close>

definition hit_rate :: "f64 \<Rightarrow> (u64 \<Rightarrow> u64 \<Rightarrow> f64) \<Rightarrow> 'c dns_cache \<Rightarrow> f64" where
  "hit_rate zero ratio c =
     (let hits_and_misses = c_hits c + c_misses c in if hits_and_misses = 0 then zero else ratio (c_hits c) hits_and_misses)"

definition stats_handler ::
  "('c, 'n, 'd, 'r, 't, 'w) res_env \<Rightarrow> (u64 \<Rightarrow> u64 \<Rightarrow> f64) \<Rightarrow> app_state \<Rightarrow> ('c, 'n, 'd, 'r, 't, 'w, stats_response) ract" where
  "stats_handler E ratio state =
     act_bind cache_stats (\<lambda>(hits, misses).
       act_return
         \<lparr>sr_total_queries = ap_query_count state, sr_blocked_queries = ap_blocked_count state,
          sr_cache_hits = hits, sr_cache_misses = misses,
          sr_cache_hit_rate = (if ap_query_count state = 0 then f_lit (e_f64 E) 0 1 else ratio hits (hits + misses)),
          sr_cache_size = 0\<rparr>)"

definition cache_flush_handler ::
  "('c, 'n, 'd, 'r, 't, 'w) res_env \<Rightarrow> ('c, 'n, 'd, 'r, 't, 'w, flush_response) ract" where
  "cache_flush_handler E =
     act_bind (flush_cache E) (\<lambda>_.
       act_return \<lparr>fr_status = ''ok'', fr_message = ''DNS cache flushed successfully''\<rparr>)"

definition blocklist_stats_handler :: "app_state \<Rightarrow> blocklist_stats_response" where
  "blocklist_stats_handler state =
     (case ap_blocklist state of
        Some bl \<Rightarrow> \<lparr>br_enabled = True, br_total_blocked = ap_blocked_count state,
          br_total_queries = ap_query_count state, br_rules_loaded = 0\<rparr>
      | None \<Rightarrow> \<lparr>br_enabled = False, br_total_blocked = ap_blocked_count state,
          br_total_queries = ap_query_count state, br_rules_loaded = 0\<rparr>)"

definition blocklist_reload_handler :: "app_state \<Rightarrow> (nat \<times> error_response) + reload_response" where
  "blocklist_reload_handler state =
     (case ap_blocklist state of
        Some bl \<Rightarrow> Inr \<lparr>rl_status = ''ok'', rl_message = ''Blocklist reload initiated''\<rparr>
      | None \<Rightarrow> Inl (400, \<lparr>er_error = ''Blocklist is not enabled''\<rparr>))"

section \<open>Routes\<close>

datatype http_method = GET | POST

datatype endpoint = Health | Stats | Cache_Flush | Blocklist_Stats | Blocklist_Reload

datatype json =
    J_Health health_response
  | J_Stats stats_response
  | J_Flush flush_response
  | J_Blocklist blocklist_stats_response
  | J_Reload reload_response
  | J_Error error_response
  | J_None

definition build_router :: "(string \<times> http_method \<times> endpoint) list" where
  "build_router =
     [(''/api/health'', GET, Health),
      (''/api/stats'', GET, Stats),
      (''/api/cache/flush'', POST, Cache_Flush),
      (''/api/blocklist/stats'', GET, Blocklist_Stats),
      (''/api/blocklist/reload'', POST, Blocklist_Reload)]"

definition call_endpoint ::
  "('c, 'n, 'd, 'r, 't, 'w) res_env \<Rightarrow> (u64 \<Rightarrow> u64 \<Rightarrow> f64) \<Rightarrow> nat \<Rightarrow> app_state \<Rightarrow> endpoint \<Rightarrow>
     ('c, 'n, 'd, 'r, 't, 'w, nat \<times> json) ract" where
  "call_endpoint E ratio now state ep =
     (case ep of
        Health \<Rightarrow> act_return (200, J_Health (health_handler now state))
      | Stats \<Rightarrow> act_bind (stats_handler E ratio state) (\<lambda>r. act_return (200, J_Stats r))
      | Cache_Flush \<Rightarrow> act_bind (cache_flush_handler E) (\<lambda>r. act_return (200, J_Flush r))
      | Blocklist_Stats \<Rightarrow> act_return (200, J_Blocklist (blocklist_stats_handler state))
      | Blocklist_Reload \<Rightarrow>
          act_return (case blocklist_reload_handler state of
            Inr r \<Rightarrow> (200, J_Reload r)
          | Inl (status, e) \<Rightarrow> (status, J_Error e)))"

definition serve_request ::
  "('c, 'n, 'd, 'r, 't, 'w) res_env \<Rightarrow> (u64 \<Rightarrow> u64 \<Rightarrow> f64) \<Rightarrow> nat \<Rightarrow> app_state \<Rightarrow> http_method \<Rightarrow> string \<Rightarrow>
     ('c, 'n, 'd, 'r, 't, 'w, nat \<times> json) ract" where
  "serve_request E ratio now state meth path =
     (case map_of build_router path of
        None \<Rightarrow> act_return (404, J_None)
      | Some (m, ep) \<Rightarrow> if m = meth then call_endpoint E ratio now state ep else act_return (405, J_None))"

text \<open>\<open>start_api\<close>: the address must parse and be free.\<close>

definition start_api ::
  "(string \<Rightarrow> 'a option) \<Rightarrow> ('a \<Rightarrow> bool) \<Rightarrow> string \<Rightarrow> (string \<times> http_method \<times> endpoint) list option" where
  "start_api parse_addr can_bind bind_addr =
     (case parse_addr bind_addr of
        None \<Rightarrow> None
      | Some addr \<Rightarrow> if can_bind addr then Some build_router else None)"

section \<open>Properties of the handlers\<close>

lemma flush_serves:
  "serve_request E ratio now state POST ''/api/cache/flush'' s =
     (Ok (200, J_Flush \<lparr>fr_status = ''ok'', fr_message = ''DNS cache flushed successfully''\<rparr>),
      s\<lparr>r_cache := cache_clear (e_cache E) (r_cache s)\<rparr>)"
  by (simp add: serve_request_def build_router_def call_endpoint_def cache_flush_handler_def flush_cache_def
      on_cache_def act_bind_def act_return_def act_modify_def)

text \<open>Only a flush changes the resolver, and only its cache.\<close>

lemma request_effect:
  "snd (serve_request E ratio now state meth path s) =
     (if meth = POST \<and> path = ''/api/cache/flush'' then snd (flush_cache E s) else s)"
  by (simp add: serve_request_def build_router_def call_endpoint_def cache_flush_handler_def flush_cache_def
      stats_handler_def cache_stats_def on_cache_def act_bind_def act_return_def act_modify_def)

lemma request_answered: "fst (serve_request E ratio now state meth path s) \<in> range Ok"
  by (simp add: serve_request_def build_router_def call_endpoint_def cache_flush_handler_def flush_cache_def
      stats_handler_def cache_stats_def on_cache_def act_bind_def act_return_def act_modify_def)

end
