(* ===== verification/System.thy ===== *)
theory System
  imports Server_Replies Api Resolver_Tasks
begin

text \<open>
  The running program (\<open>main\<close> of \<open>src/src/main.rs\<close>, \<open>run_server\<close> of \<open>src/src/server/udp.rs\<close>,
  \<open>run_tcp_server\<close> of \<open>src/src/server/tcp.rs\<close>): one resolver shared by the UDP server, the TCP server, the
  startup prefetch, the REST interface and the background loops.  Binding a socket, a datagram
  received, a query handled, a connection accepted or served, a domain prefetched and a request of the
  REST interface are one step each.
\<close>

section \<open>The resolver behind the servers\<close>

definition resolver_of ::
  "('c, 'n, 'd, 'r, 't, 'w) res_env \<Rightarrow> nat \<Rightarrow> bool \<Rightarrow> ('c, 'n, 'd, 'r, 't, 'w) resolver resolver_ops" where
  "resolver_of E fuel dnssec_ok =
     \<lparr>resolve_with_ad_op = resolve_with_ad E fuel dnssec_ok,
      resolve_dnssec_op = (\<lambda>name rtype rclass s.
        case resolve_dnssec E name rtype rclass s of (Ok records, s') \<Rightarrow> (records, s') | (_, s') \<Rightarrow> ([], s'))\<rparr>"

section \<open>State\<close>

text \<open>
  The tasks of \<open>run_server\<close> and \<open>run_tcp_server\<close>: not spawned, before its socket is bound, in its loop, in a
  round of the loop that never ends, and ended, with the result its handle gives (\<open>Panic\<close>: the task has
  panicked).
\<close>

datatype loop_state = Absent | Binding | Serving | Hung | Ended "unit dns_result"

record ('c, 'n, 'd, 'r, 't, 'w) system =
  sy_resolver :: "('c, 'n, 'd, 'r, 't, 'w) resolver"
  sy_prefetch :: "(string \<times> u16) list"
  sy_udp_task :: loop_state
  sy_udp :: udp_server
  sy_tcp_task :: loop_state
  sy_tcp :: tcp_server
  sy_tcp_out :: "tcp_stream list" \<comment> \<open>the connections that have been served\<close>
  sy_blocklist :: "blocklist option"
  sy_loading :: bool
  sy_api :: "app_state option"
  sy_stop :: bool

definition prefetch_tasks :: "string list \<Rightarrow> (string \<times> u16) list" where
  "prefetch_tasks domains = concat (map (\<lambda>d. [(d, 1), (d, 28)]) domains)"

definition start_blocklist :: "'a server_config \<Rightarrow> blocklist option" where
  "start_blocklist config = (if s_blocklist_mode config \<noteq> ''none'' then Some (blocklist_new config) else None)"

text \<open>The start: creating the resolver must succeed (\<open>expect\<close>); the two servers are spawned.\<close>

definition system_start ::
  "('c, 'n, 'd, 'r, 't, 'w) res_env \<Rightarrow> 'a server_config \<Rightarrow> io_error option \<Rightarrow>
     (rtt_map \<Rightarrow> (ip_addr \<times> u64 \<times> nat) list) \<Rightarrow> (nat \<Rightarrow> nat) \<Rightarrow> (nat \<Rightarrow> nat) \<Rightarrow> bytes option \<Rightarrow> 'w \<Rightarrow>
     ('c, 'n, 'd, 'r, 't, 'w) system dns_result" where
  "system_start E config bound listing unix instant file w =
     (case resolver_new E bound listing unix instant file (s_cache_size config) w of
        Ok resolver \<Rightarrow>
          Ok \<lparr>sy_resolver = resolver, sy_prefetch = [], sy_udp_task = Binding, sy_udp = udp_start,
              sy_tcp_task = Binding, sy_tcp = tcp_start, sy_tcp_out = [],
              sy_blocklist = start_blocklist config, sy_loading = (start_blocklist config \<noteq> None),
              sy_api = map_option (\<lambda>_. \<lparr>ap_start_time = instant 0, ap_blocklist = start_blocklist config,
                ap_query_count = 0, ap_blocked_count = 0\<rparr>) (s_api_bind config),
              sy_stop = False\<rparr>
      | _ \<Rightarrow> Panic)"

text \<open>
  The service of Windows (\<open>my_service_main\<close>) runs the UDP server alone: no TCP server, no blocklist and no
  REST interface, whatever the configuration says.
\<close>

definition service_start ::
  "('c, 'n, 'd, 'r, 't, 'w) res_env \<Rightarrow> 'a server_config \<Rightarrow> io_error option \<Rightarrow>
     (rtt_map \<Rightarrow> (ip_addr \<times> u64 \<times> nat) list) \<Rightarrow> (nat \<Rightarrow> nat) \<Rightarrow> (nat \<Rightarrow> nat) \<Rightarrow> bytes option \<Rightarrow> 'w \<Rightarrow>
     ('c, 'n, 'd, 'r, 't, 'w) system dns_result" where
  "service_start E config bound listing unix instant file w =
     (case resolver_new E bound listing unix instant file (s_cache_size config) w of
        Ok resolver \<Rightarrow>
          Ok \<lparr>sy_resolver = resolver, sy_prefetch = [], sy_udp_task = Binding, sy_udp = udp_start,
              sy_tcp_task = Absent, sy_tcp = tcp_start, sy_tcp_out = [], sy_blocklist = None, sy_loading = False,
              sy_api = None, sy_stop = False\<rparr>
      | _ \<Rightarrow> Panic)"

section \<open>Steps\<close>

text \<open>The blocklist of the REST interface is the shared one.\<close>

definition api_state :: "('c, 'n, 'd, 'r, 't, 'w) system \<Rightarrow> app_state option" where
  "api_state st = map_option (\<lambda>a. a\<lparr>ap_blocklist := sy_blocklist st\<rparr>) (sy_api st)"

text \<open>Binding the socket of a server, which fails with an error or succeeds.\<close>

definition bind_task :: "io_error option \<Rightarrow> loop_state" where
  "bind_task failure = (case failure of Some e \<Rightarrow> Ended (Err (Io e)) | None \<Rightarrow> Serving)"

text \<open>
  A datagram, or an error, in the receive loop.  When the reply of a server at capacity cannot be built
  because its question never decodes, the loop hangs.
\<close>

definition udp_round ::
  "(io_error + nat) \<Rightarrow> bytes \<Rightarrow> ('c, 'n, 'd, 'r, 't, 'w) system \<Rightarrow> ('c, 'n, 'd, 'r, 't, 'w) system" where
  "udp_round result buf st =
     (case handle_recv result buf (sy_udp st) of
        Ok udp' \<Rightarrow> st\<lparr>sy_udp := udp'\<rparr>
      | Diverge \<Rightarrow> st\<lparr>sy_udp_task := Hung\<rparr>
      | _ \<Rightarrow> st\<lparr>sy_udp_task := Ended Panic\<rparr>)"

text \<open>The work of the tasks other than the receive loop; handlers run on when the loops have ended.\<close>

inductive system_work ::
  "('c, 'n, 'd, 'r, 't, 'w) res_env \<Rightarrow> (bytes \<Rightarrow> 'w \<Rightarrow> 'w) \<Rightarrow> (bytes \<Rightarrow> ip_addr \<Rightarrow> 'w \<Rightarrow> bool option \<times> 'w) \<Rightarrow> nat \<Rightarrow>
     (u64 \<Rightarrow> u64 \<Rightarrow> f64) \<Rightarrow> 'a server_config \<Rightarrow>
     ('c, 'n, 'd, 'r, 't, 'w) system \<Rightarrow> ('c, 'n, 'd, 'r, 't, 'w) system \<Rightarrow> bool"
  for E write_file probe fuel ratio config where
  sys_udp_bind: "sy_udp_task st = Binding \<Longrightarrow>
     system_work E write_file probe fuel ratio config st
       (st\<lparr>sy_udp_task := bind_task failure,
           sy_prefetch := (if failure = None then prefetch_tasks (s_prefetch_domains config) else [])\<rparr>)"
| sys_tcp_bind: "sy_tcp_task st = Binding \<Longrightarrow>
     system_work E write_file probe fuel ratio config st (st\<lparr>sy_tcp_task := bind_task failure\<rparr>)"
| sys_query: "us_tasks (sy_udp st) = before @ data # behind \<Longrightarrow>
     handle_query (resolver_of E fuel (s_dnssec_ok config)) data (sy_resolver st) = ((out, res), s') \<Longrightarrow> res \<noteq> Diverge \<Longrightarrow>
     system_work E write_file probe fuel ratio config st
       (st\<lparr>sy_udp := (sy_udp st)\<lparr>us_permits := us_permits (sy_udp st) + 1, us_tasks := before @ behind,
             us_sent := us_sent (sy_udp st) @ out\<rparr>,
           sy_resolver := s'\<rparr>)"
| sys_accept: "sy_tcp_task st = Serving \<Longrightarrow> (case result of Inr stream \<Rightarrow> ts_out stream = [] | Inl e \<Rightarrow> True) \<Longrightarrow>
     system_work E write_file probe fuel ratio config st (st\<lparr>sy_tcp := tcp_accept result (sy_tcp st)\<rparr>)"
| sys_connection: "tc_open (sy_tcp st) = before @ stream # behind \<Longrightarrow>
     handle_tcp_connection (resolver_of E fuel (s_dnssec_ok config)) stream (sy_resolver st) = ((res, stream'), s') \<Longrightarrow>
     res \<noteq> Diverge \<Longrightarrow>
     system_work E write_file probe fuel ratio config st
       (st\<lparr>sy_tcp := (sy_tcp st)\<lparr>tc_permits := tc_permits (sy_tcp st) + 1, tc_open := before @ behind\<rparr>,
           sy_tcp_out := sy_tcp_out st @ [stream'], sy_resolver := s'\<rparr>)"
| sys_prefetch: "sy_prefetch st = before @ (domain, rtype) # behind \<Longrightarrow>
     prefetch E fuel (s_dnssec_ok config) domain rtype (sy_resolver st) = (u, s') \<Longrightarrow>
     system_work E write_file probe fuel ratio config st (st\<lparr>sy_prefetch := before @ behind, sy_resolver := s'\<rparr>)"
| sys_background: "resolver_step E write_file probe (sy_resolver st) s' \<Longrightarrow>
     system_work E write_file probe fuel ratio config st (st\<lparr>sy_resolver := s'\<rparr>)"
| sys_load: "sy_loading st \<Longrightarrow>
     system_work E write_file probe fuel ratio config st
       (st\<lparr>sy_blocklist := map_option (blocklist_load fetch_url read_file stamp) (sy_blocklist st), sy_loading := False\<rparr>)"
| sys_api: "api_state st = Some state \<Longrightarrow> serve_request E ratio now state meth path (sy_resolver st) = (response, s') \<Longrightarrow>
     system_work E write_file probe fuel ratio config st (st\<lparr>sy_resolver := s'\<rparr>)"
| sys_signal: "system_work E write_file probe fuel ratio config st (st\<lparr>sy_stop := True\<rparr>)"

text \<open>
  The receive loop stops when it sees the flag, which it tests between datagrams; the accept loop has
  no such test.
\<close>

inductive system_step ::
  "('c, 'n, 'd, 'r, 't, 'w) res_env \<Rightarrow> (bytes \<Rightarrow> 'w \<Rightarrow> 'w) \<Rightarrow> (bytes \<Rightarrow> ip_addr \<Rightarrow> 'w \<Rightarrow> bool option \<times> 'w) \<Rightarrow> nat \<Rightarrow>
     (u64 \<Rightarrow> u64 \<Rightarrow> f64) \<Rightarrow> 'a server_config \<Rightarrow>
     ('c, 'n, 'd, 'r, 't, 'w) system \<Rightarrow> ('c, 'n, 'd, 'r, 't, 'w) system \<Rightarrow> bool"
  for E write_file probe fuel ratio config where
  sys_work: "system_work E write_file probe fuel ratio config st st' \<Longrightarrow> system_step E write_file probe fuel ratio config st st'"
| sys_recv: "sy_udp_task st = Serving \<Longrightarrow> (case result of Inr len \<Rightarrow> len \<le> length buf | Inl e \<Rightarrow> True) \<Longrightarrow>
     system_step E write_file probe fuel ratio config st (udp_round result buf st)"
| sys_stop: "sy_udp_task st = Serving \<Longrightarrow> sy_stop st \<Longrightarrow>
     system_step E write_file probe fuel ratio config st (st\<lparr>sy_udp_task := Ended (Ok ())\<rparr>)"

lemma udp_round_fields [simp]:
  "sy_resolver (udp_round result buf st) = sy_resolver st" "sy_prefetch (udp_round result buf st) = sy_prefetch st"
  "sy_tcp_task (udp_round result buf st) = sy_tcp_task st" "sy_tcp (udp_round result buf st) = sy_tcp st"
  "sy_tcp_out (udp_round result buf st) = sy_tcp_out st" "sy_blocklist (udp_round result buf st) = sy_blocklist st"
  "sy_api (udp_round result buf st) = sy_api st" "sy_stop (udp_round result buf st) = sy_stop st"
  by (simp_all add: udp_round_def split: outcome.split)

lemma udp_round_udp: "sy_udp (udp_round result buf st) = sy_udp st \<or> handle_recv result buf (sy_udp st) = Ok (sy_udp (udp_round result buf st))"
  by (auto simp: udp_round_def split: outcome.split)

inductive system_run ::
  "('c, 'n, 'd, 'r, 't, 'w) res_env \<Rightarrow> (bytes \<Rightarrow> 'w \<Rightarrow> 'w) \<Rightarrow> (bytes \<Rightarrow> ip_addr \<Rightarrow> 'w \<Rightarrow> bool option \<times> 'w) \<Rightarrow> nat \<Rightarrow>
     (u64 \<Rightarrow> u64 \<Rightarrow> f64) \<Rightarrow> 'a server_config \<Rightarrow> ('c, 'n, 'd, 'r, 't, 'w) system \<Rightarrow> bool"
  for E write_file probe fuel ratio config where
  sys_started: "system_start E config bound listing unix instant file w = Ok st \<Longrightarrow>
     system_run E write_file probe fuel ratio config st"
| sys_service: "service_start E config bound listing unix instant file w = Ok st \<Longrightarrow>
     system_run E write_file probe fuel ratio config st"
| sys_stepped: "system_run E write_file probe fuel ratio config st \<Longrightarrow> system_step E write_file probe fuel ratio config st st' \<Longrightarrow>
     system_run E write_file probe fuel ratio config st'"

section \<open>The parts of a run\<close>

text \<open>
  A run of the system is, seen from each part, a run of that part: of the resolver, of the UDP server
  and of the TCP server.
\<close>

lemma run_resolve_with_ad:
  "resolver_run E write_file probe n s \<Longrightarrow> resolver_run E write_file probe n (snd (resolve_with_ad E fuel d name rtype rclass s))"
  by (rule run_resolver_step [OF _ step_resolve [OF prod.collapse [symmetric]]])

lemma run_resolve_dnssec:
  "resolver_run E write_file probe n s \<Longrightarrow> resolver_run E write_file probe n (snd (resolve_dnssec E name rtype rclass s))"
  by (rule run_resolver_step [OF _ step_dnssec [OF prod.collapse [symmetric]]])

sublocale resolver_env \<subseteq> served: served_resolver "resolver_of E fuel dnssec_ok" "resolver_run E write_file probe n" dnssec_ok
  for fuel dnssec_ok write_file probe
proof unfold_locales
  fix s name rtype rclass records ad s'
  assume run: "resolver_run E write_file probe n s"
  from run_resolve_with_ad [OF run]
  show "resolver_run E write_file probe n (snd (resolve_with_ad_op (resolver_of E fuel dnssec_ok) name rtype rclass s))"
    by (simp add: resolver_of_def)
  obtain records s1 where "resolve_dnssec E name rtype rclass s = (Ok records, s1)"
    using resolve_dnssec_returns by blast
  with run_resolve_dnssec [OF run, of name rtype rclass]
  show "resolver_run E write_file probe n (snd (resolve_dnssec_op (resolver_of E fuel dnssec_ok) name rtype rclass s))"
    by (simp add: resolver_of_def)
next
  fix s name rtype rclass records ad s'
  assume run: "resolver_run E write_file probe n s"
    and "resolve_with_ad_op (resolver_of E fuel dnssec_ok) name rtype rclass s = (Ok (records, ad), s')"
  then have "resolve_with_ad E fuel dnssec_ok name rtype rclass s = (Ok (records, ad), s')"
    by (simp add: resolver_of_def)
  from yieldsD [OF resolve_with_ad_answers resolver_run_inv [OF run] this]
  show "(\<exists>encoded. encode_domain_name name = Ok encoded \<and> answer_for MAX_CNAME_DEPTH rtype encoded records) \<and> (ad \<longrightarrow> dnssec_ok)"
    by auto
next
  fix s name rtype rclass e s'
  assume "resolve_with_ad_op (resolver_of E fuel dnssec_ok) name rtype rclass s = (Err e, s')"
  then have "resolve_with_ad E fuel dnssec_ok name rtype rclass s = (Err e, s')" by (simp add: resolver_of_def)
  then show "honest_error dnssec_ok e" by (rule failsD [OF resolve_with_ad_fails])
qed

text \<open>What both ways to start have in common.\<close>

definition fresh_system where
  "fresh_system E config st \<longleftrightarrow>
     (\<exists>listing unix instant file w. resolver_new E None listing unix instant file (s_cache_size config) w = Ok (sy_resolver st)) \<and>
     sy_udp st = udp_start \<and> sy_tcp st = tcp_start \<and> sy_tcp_out st = [] \<and>
     (case api_state st of Some state \<Rightarrow> ap_query_count state = 0 \<and> ap_blocked_count state = 0 | None \<Rightarrow> True)"

lemma started_fresh:
  assumes "system_start E config bound listing unix instant file w = Ok st"
  shows "fresh_system E config st"
proof -
  from assms have "resolver_new E None listing unix instant file (s_cache_size config) w = Ok (sy_resolver st)"
    by (auto simp: system_start_def resolver_new_def Let_def split: outcome.splits option.splits)
  then have "\<exists>listing unix instant file w. resolver_new E None listing unix instant file (s_cache_size config) w = Ok (sy_resolver st)"
    by blast
  with assms show ?thesis
    by (simp add: fresh_system_def) (auto simp: system_start_def api_state_def split: outcome.splits option.splits)
qed

lemma service_fresh:
  assumes "service_start E config bound listing unix instant file w = Ok st"
  shows "fresh_system E config st"
proof -
  from assms have "resolver_new E None listing unix instant file (s_cache_size config) w = Ok (sy_resolver st)"
    by (auto simp: service_start_def resolver_new_def Let_def split: outcome.splits option.splits)
  then have "\<exists>listing unix instant file w. resolver_new E None listing unix instant file (s_cache_size config) w = Ok (sy_resolver st)"
    by blast
  with assms show ?thesis
    by (simp add: fresh_system_def) (auto simp: service_start_def api_state_def split: outcome.splits option.splits)
qed

lemma system_run_induct [consumes 1, case_names fresh stepped]:
  assumes "system_run E write_file probe fuel ratio config st"
    and "\<And>st. fresh_system E config st \<Longrightarrow> P st"
    and "\<And>st st'. system_run E write_file probe fuel ratio config st \<Longrightarrow>
           system_step E write_file probe fuel ratio config st st' \<Longrightarrow> P st \<Longrightarrow> P st'"
  shows "P st"
  using assms(1)
proof (induction rule: system_run.induct)
  case (sys_started bound listing unix instant "file" w st)
  from assms(2) [OF started_fresh [OF this]] show ?case .
next
  case (sys_service bound listing unix instant "file" w st)
  from assms(2) [OF service_fresh [OF this]] show ?case .
next
  case (sys_stepped st st')
  from assms(3) [OF this] show ?case .
qed

lemma system_udp_run:
  "system_run E write_file probe fuel ratio config st \<Longrightarrow>
     (udp_step (resolver_of E fuel (s_dnssec_ok config)))\<^sup>*\<^sup>* udp_start (sy_udp st)"
proof (induction rule: system_run_induct)
  case (stepped st st')
  from stepped(2) have "(udp_step (resolver_of E fuel (s_dnssec_ok config)))\<^sup>=\<^sup>= (sy_udp st) (sy_udp st')"
  proof cases
    case sys_work
    then show ?thesis by (cases rule: system_work.cases) (auto intro: udp_finish [simplified])
  next
    case (sys_recv result buf)
    with udp_round_udp [of result buf st] udp_recv [of result buf "sy_udp st" "sy_udp st'"] show ?thesis by auto
  qed simp
  with stepped(3) show ?case by (auto intro: rtranclp.rtrancl_into_rtrancl)
qed (simp add: fresh_system_def)

lemma system_tcp_run:
  "system_run E write_file probe fuel ratio config st \<Longrightarrow>
     (tcp_step (resolver_of E fuel (s_dnssec_ok config)))\<^sup>*\<^sup>* tcp_start (sy_tcp st)"
proof (induction rule: system_run_induct)
  case (stepped st st')
  from stepped(2) have "(tcp_step (resolver_of E fuel (s_dnssec_ok config)))\<^sup>=\<^sup>= (sy_tcp st) (sy_tcp st')"
    by (cases rule: system_step.cases) (auto 0 3 elim!: system_work.cases intro: tcp_accepted tcp_served [simplified])
  with stepped(3) show ?case by (auto intro: rtranclp.rtrancl_into_rtrancl)
qed (simp add: fresh_system_def)

lemma system_api_counts:
  assumes "system_run E write_file probe fuel ratio config st" "api_state st = Some state"
  shows "ap_query_count state = 0 \<and> ap_blocked_count state = 0"
  using assms
proof (induction arbitrary: state rule: system_run_induct)
  case (stepped st st')
  from stepped(2) have "sy_api st' = sy_api st" by (cases rule: system_step.cases) (auto elim: system_work.cases)
  with stepped.prems obtain a where "sy_api st = Some a" "state = a\<lparr>ap_blocklist := sy_blocklist st'\<rparr>"
    by (auto simp: api_state_def)
  with stepped.IH [of "a\<lparr>ap_blocklist := sy_blocklist st\<rparr>"] show ?case by (simp add: api_state_def)
next
  case (fresh st)
  then show ?case by (simp add: fresh_system_def)
qed

context resolver_env
begin

lemma system_resolver_work:
  assumes "system_work E write_file probe fuel ratio config st st'" "resolver_run E write_file probe n (sy_resolver st)"
  shows "resolver_run E write_file probe n (sy_resolver st')"
  using assms(1)
proof cases
  case (sys_query before data behind out res s')
  with served.query_keeps [OF assms(2), of fuel "s_dnssec_ok config" data] show ?thesis by simp
next
  case (sys_connection before stream behind res stream' s')
  with served.connection_keeps [OF assms(2), of fuel "s_dnssec_ok config" stream] show ?thesis by simp
next
  case (sys_prefetch before domain rtype behind u s')
  from run_resolver_step [OF assms(2) step_prefetch [OF sys_prefetch(3)]] sys_prefetch(1) show ?thesis by simp
next
  case (sys_background s')
  from run_resolver_step [OF assms(2) sys_background(2)] sys_background(1) show ?thesis by simp
next
  case (sys_api state now meth path response s')
  have "resolver_run E write_file probe n (snd (flush_cache E (sy_resolver st)))"
    by (rule run_resolver_step [OF assms(2) step_flush [OF prod.collapse [symmetric]]])
  with sys_api assms(2) request_effect [of E ratio now state meth path "sy_resolver st"] show ?thesis
    by (simp split: if_splits)
qed (use assms(2) in simp_all)

lemma system_resolver_step:
  assumes "system_step E write_file probe fuel ratio config st st'" "resolver_run E write_file probe n (sy_resolver st)"
  shows "resolver_run E write_file probe n (sy_resolver st')"
  using assms by (cases rule: system_step.cases) (simp_all add: system_resolver_work)

lemma system_resolver_run:
  "system_run E write_file probe fuel ratio config st \<Longrightarrow> s_cache_size config = n \<Longrightarrow>
     resolver_run E write_file probe n (sy_resolver st)"
proof (induction rule: system_run_induct)
  case (fresh st)
  then obtain listing unix instant saved w where "resolver_new E None listing unix instant saved n w = Ok (sy_resolver st)"
    unfolding fresh_system_def by blast
  then show ?case by (rule run_created)
next
  case (stepped st st')
  then show ?case using system_resolver_step [OF stepped(2)] by blast
qed

lemma system_streams:
  "system_run E write_file probe fuel ratio config st \<Longrightarrow> list_all (\<lambda>stream. ts_out stream = []) (tc_open (sy_tcp st))"
proof (induction rule: system_run_induct)
  case (stepped st st')
  from stepped(2,3) show ?case
    by (cases rule: system_step.cases) (auto elim!: system_work.cases simp: tcp_accept_def split: sum.splits)
qed (simp add: fresh_system_def tcp_start_def)

lemma recv_sound:
  assumes "handle_recv result buf st = Ok st'" "list_all (sound_reply validates) (us_sent st)"
  shows "list_all (sound_reply validates) (us_sent st')"
proof -
  have "sound_reply validates b" if "quick_error_response data 2 = Ok (Some b)" for data b
    by (rule quick_error_sound [OF that]) simp_all
  with assms show ?thesis
    by (auto simp: handle_recv_def outcome_simps split: sum.splits if_splits option.splits)
qed

lemma system_work_sound:
  assumes "system_work E write_file probe fuel ratio config st st'" "resolver_run E write_file probe n (sy_resolver st)"
    and "list_all (\<lambda>stream. ts_out stream = []) (tc_open (sy_tcp st))"
    and "list_all (sound_reply (s_dnssec_ok config)) (us_sent (sy_udp st))"
    and "list_all (sound_stream (s_dnssec_ok config)) (sy_tcp_out st)"
  shows "list_all (sound_reply (s_dnssec_ok config)) (us_sent (sy_udp st')) \<and>
    list_all (sound_stream (s_dnssec_ok config)) (sy_tcp_out st')"
  using assms(1)
proof cases
  case (sys_query before data behind out res s')
  with served.query_sound [OF assms(2), of _ fuel "s_dnssec_ok config" data] assms(4,5) show ?thesis
    by (auto simp: list_all_iff)
next
  case (sys_connection before stream behind res stream' s')
  with assms(3) served.connection_sound [OF assms(2), of stream "s_dnssec_ok config" fuel] assms(4,5) show ?thesis by simp
qed (use assms(4,5) in simp_all)

lemma system_step_sound:
  assumes "system_step E write_file probe fuel ratio config st st'" "resolver_run E write_file probe n (sy_resolver st)"
    and "list_all (\<lambda>stream. ts_out stream = []) (tc_open (sy_tcp st))"
    and "list_all (sound_reply (s_dnssec_ok config)) (us_sent (sy_udp st))"
    and "list_all (sound_stream (s_dnssec_ok config)) (sy_tcp_out st)"
  shows "list_all (sound_reply (s_dnssec_ok config)) (us_sent (sy_udp st')) \<and>
    list_all (sound_stream (s_dnssec_ok config)) (sy_tcp_out st')"
  using assms(1)
proof cases
  case sys_work
  from system_work_sound [OF this assms(2-5)] show ?thesis .
next
  case (sys_recv result buf)
  with udp_round_udp [of result buf st] recv_sound [of result buf "sy_udp st"] assms(4,5) show ?thesis by auto
qed (use assms(4,5) in simp)

lemma system_sound:
  "system_run E write_file probe fuel ratio config st \<Longrightarrow> s_cache_size config = n \<Longrightarrow>
     list_all (sound_reply (s_dnssec_ok config)) (us_sent (sy_udp st)) \<and>
     list_all (sound_stream (s_dnssec_ok config)) (sy_tcp_out st)"
proof (induction rule: system_run_induct)
  case (fresh st)
  then show ?case by (simp add: fresh_system_def udp_start_def)
next
  case (stepped st st')
  with system_step_sound [OF stepped(2) system_resolver_run system_streams] show ?case by blast
qed

end

section \<open>Handlers that end\<close>

lemma put_section_ends:
  assumes "\<And>x buf. x \<in> set xs \<Longrightarrow> put x buf \<noteq> Diverge"
  shows "put_section put xs buf offset \<noteq> Diverge"
  using assms
proof (induction xs arbitrary: buf offset)
  case (Cons x xs)
  have "write_at (put x) buf offset \<noteq> Diverge"
    using Cons.prems by (auto simp: write_at_def outcome_simps split: if_splits)
  with Cons show ?case by (auto simp: outcome_simps)
qed simp

lemma encode_message_ends: "encode_message m \<noteq> Diverge"
proof -
  have "question_to_bytes q buf \<noteq> Diverge" "rr_to_bytes r buf \<noteq> Diverge" "header_to_bytes h buf \<noteq> Diverge" for q r h buf
    by (auto simp: question_to_bytes_def rr_to_bytes_def header_to_bytes_def Let_def copy_slice_def outcome_simps split: if_splits)
  then show ?thesis
    by (auto simp: encode_message_def message_to_bytes_def outcome_simps put_section_ends)
qed

lemma udp_payload_ends: "udp_payload m \<noteq> Diverge"
  by (auto simp: udp_payload_def outcome_simps encode_message_ends)

text \<open>A question that cannot be decoded for ever keeps the decoding of the whole message busy.\<close>

lemma quick_question_ends:
  assumes "decode_message data \<noteq> Diverge" shows "quick_question data \<noteq> Diverge"
proof
  assume "quick_question data = Diverge"
  then have len: "12 \<le> length data" and q: "question_from_bytes data 12 = Diverge"
    and n: "be16 (data ! 4 AND 0x0f) (data ! 5) > 0"
    by (auto simp: quick_question_def Let_def split: if_splits outcome.splits)
  have "be16 (data ! 4) (data ! 5) \<noteq> 0"
  proof
    assume "be16 (data ! 4) (data ! 5) = 0"
    then have "[data ! 4, data ! 5] = bytes_of_u16 0" by (metis bytes_of_u16_be16)
    with n show False by (simp add: bytes_of_u16_def be16_def)
  qed
  then obtain k where "unat (be16 (data ! 4) (data ! 5)) = Suc k" by (metis not0_implies_Suc unat_eq_zero)
  then have "decode_message data = Diverge"
    using len q by (simp add: decode_message_def message_from_bytes_def header_from_bytes_eq Let_def)
  with assms show False by simp
qed

lemma quick_error_ends:
  assumes "decode_message data \<noteq> Diverge" shows "quick_error_response data rc \<noteq> Diverge"
  using quick_question_ends [OF assms] encode_message_ends
  by (auto simp: quick_error_response_def outcome_simps split: outcome.splits)

lemma send_ends:
  "snd (send_some r) = Diverge \<longleftrightarrow> r = Diverge" "snd (send_ok r') = Diverge \<longleftrightarrow> r' = Diverge"
  "snd (send_try r') = Diverge \<longleftrightarrow> r' = Diverge"
  by (cases r rule: send_some.cases; simp) (cases r'; simp)+

lemma errors_end:
  assumes "decode_message data \<noteq> Diverge"
  shows "snd (udp_error data request q e) \<noteq> Diverge" "tcp_error data request q e \<noteq> Diverge"
  using quick_error_ends [OF assms] encode_message_ends
  by (auto simp: udp_error_def tcp_error_def send_ends outcome_simps split: dns_error.split option.splits)

lemma write_ends: "fst (write_try r st) = Diverge \<longleftrightarrow> r = Diverge" "fst (write_tcp_response b st) \<noteq> Diverge"
  by (cases r; simp add: write_tcp_response_def write_all_def Let_def split: option.split)
    (simp add: write_tcp_response_def write_all_def Let_def split: option.split)

lemma read_query_ends: "read_query st \<noteq> Diverge"
  by (auto simp: read_query_def read_exact_def Let_def split: if_splits outcome.splits prod.splits)

text \<open>A resolver whose resolutions end.\<close>

definition resolver_ends :: "'r resolver_ops \<Rightarrow> bool" where
  "resolver_ends R \<longleftrightarrow> (\<forall>name rtype rclass s. fst (resolve_with_ad_op R name rtype rclass s) \<noteq> Diverge)"

lemma additionals_end: "resolver_ends R \<Longrightarrow> fst (answer_additionals R wants qname qclass s) \<noteq> Diverge"
  unfolding resolver_ends_def
  by (auto simp: answer_additionals_def dnssec_additionals_def Let_def case_prod_unfold split: outcome.split)

lemma query_ends:
  assumes "resolver_ends R" "decode_message data \<noteq> Diverge"
  shows "snd (fst (handle_query R data s)) \<noteq> Diverge"
proof -
  have "snd (fst (udp_respond R data request q s)) \<noteq> Diverge" for request q
  proof (cases "resolve_with_ad_op R (question_name_str q) (q_type q) (q_class q) s")
    case (Pair r s1)
    then have "r \<noteq> Diverge" using assms(1) unfolding resolver_ends_def by (metis fst_conv)
    then show ?thesis
      using Pair additionals_end [OF assms(1), of "client_wants_dnssec request" "question_name_str q" "q_class q" s1]
        errors_end(1) [OF assms(2)] udp_payload_ends
      by (cases r) (auto simp: udp_respond_def send_ends outcome_simps Let_def case_prod_unfold)
  qed
  then show ?thesis
    using assms(2) quick_error_ends [OF assms(2)] by (auto simp: handle_query_def send_ends split: outcome.split)
qed

lemma tcp_answer_ends:
  assumes "resolver_ends R" "decode_message data \<noteq> Diverge"
  shows "fst (tcp_answer R data request q s) \<noteq> Diverge"
proof (cases "resolve_with_ad_op R (question_name_str q) (q_type q) (q_class q) s")
  case (Pair r s1)
  then have "r \<noteq> Diverge" using assms(1) unfolding resolver_ends_def by (metis fst_conv)
  then show ?thesis
    using Pair additionals_end [OF assms(1), of "client_wants_dnssec request" "question_name_str q" "q_class q" s1]
      errors_end(2) [OF assms(2)] encode_message_ends
    by (cases r) (auto simp: tcp_answer_def outcome_simps Let_def case_prod_unfold)
qed

definition readable_stream :: "tcp_stream \<Rightarrow> bool" where
  "readable_stream st = (case read_query st of Ok (data, _) \<Rightarrow> decode_message data \<noteq> Diverge | _ \<Rightarrow> True)"

lemma connection_ends:
  assumes "resolver_ends R" "readable_stream st"
  shows "fst (fst (handle_tcp_connection R st s)) \<noteq> Diverge"
proof (cases "read_query st")
  case (Ok x)
  obtain data st1 where x: "x = (data, st1)" by fastforce
  with Ok assms(2) have d: "decode_message data \<noteq> Diverge" by (simp add: readable_stream_def)
  with Ok x tcp_answer_ends [OF assms(1) d] quick_error_ends [OF d] show ?thesis
    by (auto simp: handle_tcp_connection_def Let_def case_prod_unfold write_ends split: outcome.split option.split)
qed (use read_query_ends in \<open>auto simp: handle_tcp_connection_def\<close>)

section \<open>Draining the system\<close>

text \<open>The work in flight in both servers, and the tasks that can be decoded.\<close>

definition system_permits :: "('c, 'n, 'd, 'r, 't, 'w) system \<Rightarrow> nat" where
  "system_permits st = us_permits (sy_udp st) + tc_permits (sy_tcp st)"

definition system_tasks :: "('c, 'n, 'd, 'r, 't, 'w) system \<Rightarrow> (bytes + tcp_stream) list" where
  "system_tasks st = map Inl (us_tasks (sy_udp st)) @ map Inr (tc_open (sy_tcp st))"

definition decodable_task :: "bytes + tcp_stream \<Rightarrow> bool" where
  "decodable_task t = (case t of Inl data \<Rightarrow> decode_message data \<noteq> Diverge | Inr stream \<Rightarrow> readable_stream stream)"

lemma system_step_permits:
  assumes "system_step E write_file probe fuel ratio config st st'"
  shows "system_permits st' + length (system_tasks st') = system_permits st + length (system_tasks st)"
proof -
  have "us_permits (sy_udp st') + length (us_tasks (sy_udp st')) = us_permits (sy_udp st) + length (us_tasks (sy_udp st))"
    using assms
  proof cases
    case (sys_recv result buf)
    then show ?thesis
      using udp_round_udp [of result buf st] udp_step_permits [OF udp_recv [of result buf "sy_udp st" "sy_udp st'" undefined]] by auto
  qed (auto elim!: system_work.cases)
  moreover have "tc_permits (sy_tcp st') + length (tc_open (sy_tcp st')) = tc_permits (sy_tcp st) + length (tc_open (sy_tcp st))"
    using assms by (cases rule: system_step.cases) (auto elim!: system_work.cases simp: tcp_accept_permits)
  ultimately show ?thesis by (simp add: system_permits_def system_tasks_def)
qed

lemma system_step_end:
  assumes "resolver_ends (resolver_of E fuel (s_dnssec_ok config))"
    and "system_tasks st = t # ts" "decodable_task t"
  shows "\<exists>st'. system_step E write_file probe fuel ratio config st st' \<and> system_tasks st' = ts"
proof (cases "us_tasks (sy_udp st)")
  case (Cons data behind)
  with assms(2,3) have t: "decode_message data \<noteq> Diverge" "ts = map Inl behind @ map Inr (tc_open (sy_tcp st))"
    by (auto simp: system_tasks_def decodable_task_def)
  obtain out res s' where h: "handle_query (resolver_of E fuel (s_dnssec_ok config)) data (sy_resolver st) = ((out, res), s')"
    by (metis prod.collapse)
  with query_ends [OF assms(1) t(1), of "sy_resolver st"] have "res \<noteq> Diverge" by simp
  from sys_work [OF sys_query [OF _ h this, of "[]" behind write_file probe ratio]] Cons t(2) show ?thesis
    by (fastforce simp: system_tasks_def)
next
  case Nil
  with assms(2,3) obtain stream behind where t: "tc_open (sy_tcp st) = stream # behind" "readable_stream stream" "ts = map Inr behind"
    by (auto simp: system_tasks_def decodable_task_def Cons_eq_map_conv)
  obtain res stream' s' where h: "handle_tcp_connection (resolver_of E fuel (s_dnssec_ok config)) stream (sy_resolver st) =
      ((res, stream'), s')"
    by (metis prod.collapse)
  with connection_ends [OF assms(1) t(2), of "sy_resolver st"] have "res \<noteq> Diverge" by simp
  from sys_work [OF sys_connection [OF _ h this, of "[]" behind write_file probe ratio]] Nil t show ?thesis
    by (fastforce simp: system_tasks_def)
qed

lemma system_permit_tasks:
  assumes "resolver_ends (resolver_of E fuel (s_dnssec_ok config))"
  shows "permit_tasks system_permits system_tasks (system_step E write_file probe fuel ratio config) decodable_task"
  by unfold_locales (auto simp: system_step_permits intro: system_step_end [OF assms])

lemma unsigned_resolver_ends:
  assumes "cycle_free E" "12 \<le> fuel" shows "resolver_ends (resolver_of E fuel False)"
  using cycle_free.resolve_with_ad_halts [OF assms(1), of fuel] assms(2)
  by (simp add: resolver_ends_def resolver_of_def halts_def MAX_CNAME_DEPTH_def)

end
