(* ===== verification/System_Theorems.thy ===== *)
theory System_Theorems
  imports System Resolver_Theorems
begin

text \<open>
  What holds of the whole program in every run, and where it fails.
\<close>

section \<open>Example\<close>

text \<open>A running system whose network answers every query with one address record, and queries to it.\<close>

definition plain_config :: "unit server_config" where
  "plain_config = example_server\<lparr>s_cache_size := 2, s_api_bind := Some ''127.0.0.1:8080''\<rparr>"

definition started_system where
  "started_system =
     \<lparr>sy_resolver = plain_start (Some [answer_reply]), sy_prefetch = [], sy_udp_task = Binding, sy_udp = udp_start,
      sy_tcp_task = Binding, sy_tcp = tcp_start, sy_tcp_out = [], sy_blocklist = Some (blocklist_new plain_config), sy_loading = True,
      sy_api = Some \<lparr>ap_start_time = 7, ap_blocklist = Some (blocklist_new plain_config), ap_query_count = 0,
        ap_blocked_count = 0\<rparr>,
      sy_stop = False\<rparr>"

definition plain_system where
  "plain_system = started_system\<lparr>sy_udp_task := Serving, sy_tcp_task := Serving\<rparr>"

abbreviation plain_system_work where
  "plain_system_work \<equiv> system_work answer_env (\<lambda>_ w. w) (\<lambda>_ _ w. (None, w)) 12 (\<lambda>_ _. 0) plain_config"

abbreviation plain_system_step where
  "plain_system_step \<equiv> system_step answer_env (\<lambda>_ w. w) (\<lambda>_ _ w. (None, w)) 12 (\<lambda>_ _. 0) plain_config"

abbreviation plain_system_run where
  "plain_system_run \<equiv> system_run answer_env (\<lambda>_ w. w) (\<lambda>_ _ w. (None, w)) 12 (\<lambda>_ _. 0) plain_config"

lemma plain_config_fields [simp]:
  "s_cache_size plain_config = 2" "s_dnssec_ok plain_config = False" "s_prefetch_domains plain_config = []"
  "s_blocklist_mode plain_config = ''all''" "s_api_bind plain_config = Some ''127.0.0.1:8080''"
  by (simp_all add: plain_config_def example_server_def)

lemma plain_system_start:
  "system_start answer_env plain_config None (\<lambda>m. []) (\<lambda>_. 7) (\<lambda>_. 7) None () = Ok started_system"
  by (simp add: system_start_def plain_start_new started_system_def start_blocklist_def)

definition half_bound where "half_bound = started_system\<lparr>sy_udp_task := Serving\<rparr>"

lemma plain_binds: "plain_system_work started_system half_bound" "plain_system_work half_bound plain_system"
proof -
  have "plain_system_work started_system (started_system\<lparr>sy_udp_task := bind_task None, sy_prefetch := []\<rparr>)"
    using sys_udp_bind [of started_system answer_env "\<lambda>_ w. w" "\<lambda>_ _ w. (None, w)" 12 "\<lambda>_ _. 0" plain_config None]
    by (simp add: started_system_def prefetch_tasks_def)
  then show "plain_system_work started_system half_bound"
    by (simp add: half_bound_def started_system_def bind_task_def)
  have "plain_system_work half_bound (half_bound\<lparr>sy_tcp_task := bind_task None\<rparr>)"
    by (rule sys_tcp_bind) (simp add: half_bound_def started_system_def)
  then show "plain_system_work half_bound plain_system"
    by (simp add: half_bound_def plain_system_def bind_task_def)
qed

lemma plain_system_run: "plain_system_run plain_system"
  by (rule sys_stepped [OF sys_stepped [OF sys_started [OF plain_system_start] sys_work [OF plain_binds(1)]]
        sys_work [OF plain_binds(2)]])

definition ask :: "bytes \<Rightarrow> message" where
  "ask name =
     \<lparr>m_header = new_query 7 True, m_questions = [\<lparr>q_name = name, q_type = 1, q_class = 1\<rparr>], m_answers = [],
      m_authorities = [], m_additionals = []\<rparr>"

definition reply_for :: "bytes \<Rightarrow> message" where
  "reply_for name = build_response (counted_header (ask name)) \<lparr>q_name = name, q_type = 1, q_class = 1\<rparr> [answer_record] [] False"

lemma decode_ask:
  assumes "valid_name name"
  shows "decode_message (message_wire (ask name)) = Ok ((ask name)\<lparr>m_header := counted_header (ask name)\<rparr>)"
proof -
  have "wf_message (ask name)"
    using assms by (simp add: wf_message_def ask_def message_records_def wf_header_def new_query_def wf_question_def)
  then show ?thesis using decode_message_wire [of "ask name" "[]"] by simp
qed

lemma reply_for_fits:
  assumes "length name \<le> 255"
  shows "sized_message (reply_for name)" "length (message_wire (reply_for name)) \<le> MAX_UDP_PAYLOAD"
  using assms
  by (simp_all add: reply_for_def build_response_def sized_message_def message_records_def
      answer_record_def rr_sized_def message_wire_def question_wire_def rr_wire_def MAX_UDP_PAYLOAD_def)

lemma ask_answered:
  assumes "valid_name name" "length name \<le> 255" "labels_to_string name = ''a''"
  shows "\<exists>s'. handle_query (resolver_of answer_env 12 False) (message_wire (ask name)) (plain_start (Some [answer_reply])) =
    (([message_wire (reply_for name)], Ok ()), s')"
proof -
  obtain s' where s': "resolve_with_ad answer_env 12 False ''a'' 1 1 (plain_start (Some [answer_reply])) =
      (Ok ([answer_record], False), s')"
    using plain_answer by blast
  have fields: "\<not> h_qr (counted_header (ask name))" "\<not> client_wants_dnssec ((ask name)\<lparr>m_header := h\<rparr>)"
    "m_questions (ask name) = [\<lparr>q_name = name, q_type = 1, q_class = 1\<rparr>]" for h
    by (simp_all add: ask_def counted_header_def new_query_def client_wants_dnssec_def)
  have "handle_query (resolver_of answer_env 12 False) (message_wire (ask name)) (plain_start (Some [answer_reply])) =
      (send_try (udp_payload (reply_for name)), s')"
    by (simp add: handle_query_def decode_ask [OF assms(1)] fields udp_respond_def question_name_str_def assms(3)
        resolver_of_def s' answer_additionals_def reply_for_def)
  then show ?thesis using udp_payload_cases(1) [OF reply_for_fits(1)] reply_for_fits(2) assms(2) by simp
qed

definition asked_system where
  "asked_system name = plain_system\<lparr>sy_udp := udp_start\<lparr>us_permits := 1023, us_tasks := [message_wire (ask name)]\<rparr>\<rparr>"

lemma asked_system_run: "plain_system_run (asked_system name)"
proof -
  have "handle_recv (Inr (length (message_wire (ask name)))) (message_wire (ask name)) udp_start =
      Ok (udp_start\<lparr>us_permits := 1023, us_tasks := [message_wire (ask name)]\<rparr>)"
    by (simp add: handle_recv_def slice_def udp_start_def MAX_CONCURRENT_QUERIES_def)
  then have "udp_round (Inr (length (message_wire (ask name)))) (message_wire (ask name)) plain_system = asked_system name"
    by (simp add: udp_round_def asked_system_def plain_system_def started_system_def)
  moreover have "plain_system_step plain_system
      (udp_round (Inr (length (message_wire (ask name)))) (message_wire (ask name)) plain_system)"
    by (rule sys_recv) (simp_all add: plain_system_def)
  ultimately show ?thesis using sys_stepped [OF plain_system_run] by metis
qed

lemma answered_system_run:
  assumes "valid_name name" "length name \<le> 255" "labels_to_string name = ''a''"
  shows "\<exists>st. plain_system_run st \<and> us_sent (sy_udp st) = [message_wire (reply_for name)]"
proof -
  obtain s' where "handle_query (resolver_of answer_env 12 False) (message_wire (ask name)) (plain_start (Some [answer_reply])) =
      (([message_wire (reply_for name)], Ok ()), s')"
    using ask_answered [OF assms] by blast
  then have h: "handle_query (resolver_of answer_env 12 (s_dnssec_ok plain_config)) (message_wire (ask name))
      (sy_resolver (asked_system name)) = (([message_wire (reply_for name)], Ok ()), s')"
    by (simp add: asked_system_def plain_system_def started_system_def)
  have "us_tasks (sy_udp (asked_system name)) = [] @ message_wire (ask name) # []" by (simp add: asked_system_def)
  from sys_stepped [OF asked_system_run sys_work [OF sys_query [OF this h]]] show ?thesis
    by (intro exI conjI) (assumption | simp add: asked_system_def udp_start_def)+
qed

lemma name_a_text: "labels_to_string [1, 97, 0] = ''a''"
  by code_simp

section \<open>Properties\<close>

text \<open>
  C2. In every run of the program, every datagram the UDP server sends is a sound reply, and every
  connection the TCP server has served was sent nothing or one sound reply in its frame (the whole
  frame, or, when the write failed, the part written before it did).  A sound reply has AD set only if
  validation is on, whatever its response code and TC bit are; without error and without truncation
  it has one question and records that answer it, behind a chain of at most ten CNAME records, and for
  a name that printing does not change the records answer that very name.
\<close>

theorem system_replies_sound:
  assumes "resolver_env E cap ok ncap nok dcap dok rcap rok" "system_run E write_file probe fuel ratio config st"
  shows "list_all (sound_reply (s_dnssec_ok config)) (us_sent (sy_udp st)) \<and>
    list_all (sound_stream (s_dnssec_ok config)) (sy_tcp_out st)"
  using resolver_env.system_sound [OF assms refl] .

theorem system_replies_sound_witness: "sound_reply False (message_wire (reply_for [1, 97, 0]))"
proof -
  obtain st where "plain_system_run st" "us_sent (sy_udp st) = [message_wire (reply_for [1, 97, 0])]"
    using answered_system_run [OF valid_name_a _ name_a_text] by auto
  with system_replies_sound [OF plain_resolver_env] show ?thesis by fastforce
qed

text \<open>
  C5. In every run of the program no more than 1024 queries and 512 connections are in flight, the
  caches of the shared resolver stay within their limits, and no server has more than two idle
  connections.
\<close>

theorem system_bounded:
  assumes "resolver_env E cap ok ncap nok dcap dok rcap rok" "system_run E write_file probe fuel ratio config st"
  shows "length (us_tasks (sy_udp st)) \<le> MAX_CONCURRENT_QUERIES \<and> length (tc_open (sy_tcp st)) \<le> MAX_CONNECTIONS \<and>
    cache_len (e_cache E) (r_cache (sy_resolver st)) \<le> max (s_cache_size config) 1 \<and>
    stale_len (e_cache E) (r_cache (sy_resolver st)) \<le> STALE_MAX_ENTRIES \<and>
    lru_len (e_ns E) (r_ns_cache (sy_resolver st)) \<le> NS_CACHE_MAX \<and>
    lru_len (e_deleg E) (r_delegation_cache (sy_resolver st)) \<le> DELEGATION_CACHE_MAX \<and>
    lru_len (e_rtt E) (r_server_rtt (sy_resolver st)) \<le> 256 \<and> pool_bounded (r_tcp_pool (sy_resolver st))"
proof -
  have "us_permits (sy_udp st) + length (us_tasks (sy_udp st)) = MAX_CONCURRENT_QUERIES"
    by (rule udp_permits.permits_reachable [OF system_udp_run [OF assms(2)]])
  moreover have "tc_permits (sy_tcp st) + length (tc_open (sy_tcp st)) = MAX_CONNECTIONS"
    by (rule tcp_permits.permits_reachable [OF system_tcp_run [OF assms(2)]])
  moreover note resolver_env.inv_bounds [OF assms(1) resolver_env.resolver_run_inv [OF assms(1)
      resolver_env.system_resolver_run [OF assms refl]]]
  ultimately show ?thesis by simp
qed

theorem system_bounded_witness: "length (us_tasks (sy_udp (asked_system [1, 97, 0]))) \<le> 1024"
  using system_bounded [OF plain_resolver_env asked_system_run] by (simp add: MAX_CONCURRENT_QUERIES_def)

text \<open>
  C6. A system that does not validate can always finish its work: from every state of a run, as long
  as no message makes the decoder loop, it can reach a state in which no query and no connection is in
  flight and all 1024 and 512 permits are free.  (With DNSSEC a resolution need not end: Resolver_Theorems
  has one that does not.)
\<close>

theorem system_drains:
  assumes "cycle_free E" "12 \<le> fuel" "\<not> s_dnssec_ok config"
    and "system_run E write_file probe fuel ratio config st" "list_all decodable_task (system_tasks st)"
  shows "\<exists>st'. (system_step E write_file probe fuel ratio config)\<^sup>*\<^sup>* st st' \<and> us_tasks (sy_udp st') = [] \<and>
    tc_open (sy_tcp st') = [] \<and> us_permits (sy_udp st') = MAX_CONCURRENT_QUERIES \<and> tc_permits (sy_tcp st') = MAX_CONNECTIONS"
proof -
  have "resolver_ends (resolver_of E fuel (s_dnssec_ok config))" using unsigned_resolver_ends [OF assms(1,2)] assms(3) by simp
  from permit_tasks.drains [OF system_permit_tasks [OF this] assms(5)]
  obtain st' where st': "(system_step E write_file probe fuel ratio config)\<^sup>*\<^sup>* st st'" "system_tasks st' = []" by blast
  have run: "system_run E write_file probe fuel ratio config st'"
    using st'(1) assms(4) by (induction rule: rtranclp_induct) (auto intro: sys_stepped)
  from udp_permits.permits_reachable [OF system_udp_run [OF run]] tcp_permits.permits_reachable [OF system_tcp_run [OF run]] st'
  show ?thesis by (auto simp: system_tasks_def)
qed

lemma answer_cycle_free: "cycle_free answer_env"
proof unfold_locales
  fix q server w datagrams datagram
  assume "fst (e_udp answer_env q server w) = Some datagrams" "datagram \<in> set datagrams"
  then have "datagram = answer_reply" by (auto simp: plain_env_def)
  then show "decode_message (take 8192 datagram) \<noteq> Diverge"
    using replies_answer by (auto simp: replies_def ok_of_Diverge split: if_splits)
qed (simp add: plain_env_def)

theorem system_drains_witness:
  "\<exists>st'. plain_system_step\<^sup>*\<^sup>* (asked_system [1, 97, 0]) st' \<and>
     us_tasks (sy_udp st') = [] \<and> us_permits (sy_udp st') = 1024"
proof -
  have "list_all decodable_task (system_tasks (asked_system [1, 97, 0]))"
    using decode_ask [OF valid_name_a]
    by (simp add: system_tasks_def decodable_task_def asked_system_def plain_system_def started_system_def tcp_start_def)
  moreover have "12 \<le> (12 :: nat)" "\<not> s_dnssec_ok plain_config" by simp_all
  ultimately show ?thesis
    using system_drains [OF answer_cycle_free _ _ asked_system_run] by (fastforce simp: MAX_CONCURRENT_QUERIES_def)
qed




end
