(* ===== verification/Lifecycle.thy ===== *)
theory Lifecycle
  imports System_Theorems
begin

text \<open>
  From the start of the servers to the exit of the program (the end of \<open>main\<close> in \<open>src/src/main.rs\<close> and the
  stop test in the loop of \<open>run_server\<close>), with the time: the program waits until one of its servers has
  ended, gives the others five seconds and returns.  Time is in nanoseconds; timers fire when they are
  due and a task that can go on does so before time passes.
\<close>

section \<open>State\<close>

definition SHUTDOWN_GRACE_PERIOD :: nat where "SHUTDOWN_GRACE_PERIOD = 5 * NANOS_PER_SEC"

text \<open>The pause of the loop that tests the stop flag: 500 ms.\<close>

definition STOP_POLL :: nat where "STOP_POLL = NANOS_PER_SEC div 2"

text \<open>
  Waiting for a server to end, in the grace period until the given time, and exited with a status.
  \<open>main\<close> returns without a value, which is status 0.
\<close>

datatype phase = Waiting | Grace nat | Exited nat

text \<open>\<open>pr_poll\<close> is the time of the next test of the stop flag.\<close>

record ('c, 'n, 'd, 'r, 't, 'w) program =
  pr_system :: "('c, 'n, 'd, 'r, 't, 'w) system"
  pr_phase :: phase
  pr_now :: nat
  pr_poll :: nat

fun task_ended :: "loop_state \<Rightarrow> bool" where
  "task_ended (Ended _) = True"
| "task_ended _ = False"

definition running :: "('c, 'n, 'd, 'r, 't, 'w) program \<Rightarrow> bool" where
  "running p = (case pr_phase p of Exited _ \<Rightarrow> False | _ \<Rightarrow> True)"

definition program_start :: "nat \<Rightarrow> ('c, 'n, 'd, 'r, 't, 'w) system \<Rightarrow> ('c, 'n, 'd, 'r, 't, 'w) program" where
  "program_start now st = \<lparr>pr_system = st, pr_phase = Waiting, pr_now = now, pr_poll = now\<rparr>"

section \<open>Steps\<close>

text \<open>Nothing is due for the time \<open>d\<close>: binding a socket does not block, and neither does \<open>select!\<close> on ended tasks.\<close>

definition may_wait :: "('c, 'n, 'd, 'r, 't, 'w) program \<Rightarrow> nat \<Rightarrow> bool" where
  "may_wait p d \<longleftrightarrow>
     sy_udp_task (pr_system p) \<noteq> Binding \<and> sy_tcp_task (pr_system p) \<noteq> Binding \<and>
     (sy_udp_task (pr_system p) = Serving \<longrightarrow> pr_now p + d \<le> pr_poll p) \<and>
     (case pr_phase p of
        Waiting \<Rightarrow> \<not> task_ended (sy_udp_task (pr_system p)) \<and> \<not> task_ended (sy_tcp_task (pr_system p))
      | Grace until \<Rightarrow> pr_now p + d \<le> until
      | Exited _ \<Rightarrow> False)"

text \<open>
  The test of the flag starts anew with every round of the receive loop: a round ends the pause.  At
  the exit the runtime is dropped, with all tasks.
\<close>

inductive program_step ::
  "('c, 'n, 'd, 'r, 't, 'w) res_env \<Rightarrow> (bytes \<Rightarrow> 'w \<Rightarrow> 'w) \<Rightarrow> (bytes \<Rightarrow> ip_addr \<Rightarrow> 'w \<Rightarrow> bool option \<times> 'w) \<Rightarrow> nat \<Rightarrow>
     (u64 \<Rightarrow> u64 \<Rightarrow> f64) \<Rightarrow> 'a server_config \<Rightarrow>
     ('c, 'n, 'd, 'r, 't, 'w) program \<Rightarrow> ('c, 'n, 'd, 'r, 't, 'w) program \<Rightarrow> bool"
  for E write_file probe fuel ratio config where
  prog_work: "running p \<Longrightarrow> system_work E write_file probe fuel ratio config (pr_system p) st' \<Longrightarrow>
     program_step E write_file probe fuel ratio config p
       (p\<lparr>pr_system := st', pr_poll := (if sy_udp_task (pr_system p) = Binding then pr_now p else pr_poll p)\<rparr>)"
| prog_recv: "running p \<Longrightarrow> sy_udp_task (pr_system p) = Serving \<Longrightarrow>
     (case result of Inr len \<Rightarrow> len \<le> length buf | Inl e \<Rightarrow> True) \<Longrightarrow>
     program_step E write_file probe fuel ratio config p
       (p\<lparr>pr_system := udp_round result buf (pr_system p), pr_poll := pr_now p\<rparr>)"
| prog_poll: "running p \<Longrightarrow> sy_udp_task (pr_system p) = Serving \<Longrightarrow> pr_poll p \<le> pr_now p \<Longrightarrow> \<not> sy_stop (pr_system p) \<Longrightarrow>
     program_step E write_file probe fuel ratio config p (p\<lparr>pr_poll := pr_now p + STOP_POLL\<rparr>)"
| prog_stop: "running p \<Longrightarrow> sy_udp_task (pr_system p) = Serving \<Longrightarrow> pr_poll p \<le> pr_now p \<Longrightarrow> sy_stop (pr_system p) \<Longrightarrow>
     program_step E write_file probe fuel ratio config p
       (p\<lparr>pr_system := (pr_system p)\<lparr>sy_udp_task := Ended (Ok ())\<rparr>\<rparr>)"
| prog_select: "pr_phase p = Waiting \<Longrightarrow>
     task_ended (sy_udp_task (pr_system p)) \<or> task_ended (sy_tcp_task (pr_system p)) \<Longrightarrow>
     program_step E write_file probe fuel ratio config p (p\<lparr>pr_phase := Grace (pr_now p + SHUTDOWN_GRACE_PERIOD)\<rparr>)"
| prog_exit: "pr_phase p = Grace until \<Longrightarrow> until \<le> pr_now p \<Longrightarrow>
     program_step E write_file probe fuel ratio config p (p\<lparr>pr_phase := Exited 0\<rparr>)"
| prog_tick: "may_wait p d \<Longrightarrow> program_step E write_file probe fuel ratio config p (p\<lparr>pr_now := pr_now p + d\<rparr>)"

inductive program_run ::
  "('c, 'n, 'd, 'r, 't, 'w) res_env \<Rightarrow> (bytes \<Rightarrow> 'w \<Rightarrow> 'w) \<Rightarrow> (bytes \<Rightarrow> ip_addr \<Rightarrow> 'w \<Rightarrow> bool option \<times> 'w) \<Rightarrow> nat \<Rightarrow>
     (u64 \<Rightarrow> u64 \<Rightarrow> f64) \<Rightarrow> 'a server_config \<Rightarrow> ('c, 'n, 'd, 'r, 't, 'w) program \<Rightarrow> bool"
  for E write_file probe fuel ratio config where
  prog_started: "system_start E config bound listing unix instant file w = Ok st \<Longrightarrow>
     program_run E write_file probe fuel ratio config (program_start now st)"
| prog_stepped: "program_run E write_file probe fuel ratio config p \<Longrightarrow> program_step E write_file probe fuel ratio config p p' \<Longrightarrow>
     program_run E write_file probe fuel ratio config p'"

section \<open>The program runs the system\<close>

text \<open>What holds in every run of the system holds in every run of the program.\<close>

lemma program_step_system:
  assumes "program_step E write_file probe fuel ratio config p p'"
  shows "(system_step E write_file probe fuel ratio config)\<^sup>=\<^sup>= (pr_system p) (pr_system p')"
  using assms by (cases rule: program_step.cases) (auto intro: sys_work sys_recv sys_stop)

lemma program_system_run:
  "program_run E write_file probe fuel ratio config p \<Longrightarrow> system_run E write_file probe fuel ratio config (pr_system p)"
proof (induction rule: program_run.induct)
  case (prog_stepped p p')
  with program_step_system [OF prog_stepped(2)] show ?case by (auto intro: sys_stepped)
qed (auto simp: program_start_def intro: sys_started)

section \<open>Tasks and flags\<close>

lemma work_tasks:
  assumes "system_work E write_file probe fuel ratio config st st'"
  shows "sy_udp_task st \<noteq> Binding \<Longrightarrow> sy_udp_task st' = sy_udp_task st"
    and "sy_tcp_task st \<noteq> Binding \<Longrightarrow> sy_tcp_task st' = sy_tcp_task st"
    and "sy_stop st \<Longrightarrow> sy_stop st'"
    and "sy_udp_task st \<noteq> Absent \<Longrightarrow> sy_udp_task st' \<noteq> Absent"
  using assms by (cases rule: system_work.cases; simp add: bind_task_def split: option.split)+

lemma udp_round_task:
  "sy_udp_task st = Serving \<Longrightarrow>
     sy_udp_task (udp_round result buf st) = Serving \<or> sy_udp_task (udp_round result buf st) = Hung \<or>
     sy_udp_task (udp_round result buf st) = Ended Panic"
  by (simp add: udp_round_def split: outcome.split)

lemma step_keeps:
  assumes "program_step E write_file probe fuel ratio config p p'"
  shows "sy_stop (pr_system p) \<Longrightarrow> sy_stop (pr_system p')"
    and "sy_udp_task (pr_system p) = Hung \<Longrightarrow> sy_udp_task (pr_system p') = Hung"
    and "sy_tcp_task (pr_system p) = Serving \<Longrightarrow> sy_tcp_task (pr_system p') = Serving"
  using assms by (cases rule: program_step.cases; simp add: work_tasks)+

section \<open>Timers\<close>

text \<open>The next test of the flag is at most 500 ms away, and the grace period ends in time with status 0.\<close>

definition timely :: "('c, 'n, 'd, 'r, 't, 'w) program \<Rightarrow> bool" where
  "timely p \<longleftrightarrow>
     sy_udp_task (pr_system p) \<noteq> Absent \<and>
     (sy_udp_task (pr_system p) = Serving \<longrightarrow> pr_now p \<le> pr_poll p \<and> pr_poll p \<le> pr_now p + STOP_POLL) \<and>
     (case pr_phase p of
        Waiting \<Rightarrow> True
      | Grace until \<Rightarrow> pr_now p \<le> until \<and> until \<le> pr_now p + SHUTDOWN_GRACE_PERIOD
      | Exited code \<Rightarrow> code = 0)"

lemma step_timely:
  assumes "program_step E write_file probe fuel ratio config p p'" "timely p"
  shows "timely p'"
  using assms
proof (cases rule: program_step.cases)
  case (prog_work st')
  with assms(2) work_tasks(1,4) [OF prog_work(3)] show ?thesis
    by (cases "sy_udp_task (pr_system p) = Binding") (auto simp: timely_def split: phase.splits)
next
  case (prog_recv result buf)
  with assms(2) udp_round_task [of "pr_system p" result buf] show ?thesis by (auto simp: timely_def split: phase.splits)
qed (auto simp: timely_def may_wait_def split: phase.splits)

lemma run_timely: "program_run E write_file probe fuel ratio config p \<Longrightarrow> timely p"
proof (induction rule: program_run.induct)
  case (prog_stepped p p')
  from step_timely [OF prog_stepped(2,3)] show ?case .
qed (auto simp: timely_def program_start_def system_start_def split: outcome.splits)

text \<open>When the program exits at the latest, once the flag is set.\<close>

definition exit_by :: "('c, 'n, 'd, 'r, 't, 'w) program \<Rightarrow> nat" where
  "exit_by p =
     (case pr_phase p of
        Waiting \<Rightarrow>
          (if sy_udp_task (pr_system p) = Serving \<and> \<not> task_ended (sy_tcp_task (pr_system p)) then pr_poll p else pr_now p) +
          SHUTDOWN_GRACE_PERIOD
      | Grace until \<Rightarrow> until
      | Exited _ \<Rightarrow> pr_now p)"

lemma exit_by_bounds: "timely p \<Longrightarrow> pr_now p \<le> exit_by p \<and> exit_by p \<le> pr_now p + STOP_POLL + SHUTDOWN_GRACE_PERIOD"
  by (auto simp: timely_def exit_by_def split: phase.splits)

lemma task_cases: "task_ended t \<or> t = Absent \<or> t = Binding \<or> t = Serving \<or> t = Hung"
  by (cases t) auto

lemma exit_by_step:
  assumes "program_step E write_file probe fuel ratio config p p'" "timely p" "sy_stop (pr_system p)"
    and "sy_udp_task (pr_system p') \<noteq> Hung"
  shows "exit_by p' \<le> exit_by p"
  using assms(1)
proof (cases rule: program_step.cases)
  case (prog_work st')
  with assms(2) work_tasks(1,2) [OF prog_work(3)] show ?thesis
    by (cases "sy_udp_task (pr_system p) = Binding"; cases "sy_tcp_task (pr_system p) = Binding")
      (auto simp: timely_def exit_by_def running_def split: phase.splits)
next
  case (prog_recv result buf)
  with assms(2) show ?thesis by (auto simp: timely_def exit_by_def running_def split: phase.splits)
next
  case (prog_tick d)
  with assms(2,4) task_cases [of "sy_udp_task (pr_system p)"] show ?thesis
    by (auto simp: timely_def exit_by_def may_wait_def split: phase.splits)
qed (use assms(2,3) in \<open>auto simp: timely_def exit_by_def running_def split: phase.splits\<close>)

lemma exit_by_steps:
  assumes "(program_step E write_file probe fuel ratio config)\<^sup>*\<^sup>* p p'" "timely p" "sy_stop (pr_system p)"
    and "sy_udp_task (pr_system p') \<noteq> Hung"
  shows "exit_by p' \<le> exit_by p \<and> timely p' \<and> sy_stop (pr_system p')"
  using assms
proof (induction rule: rtranclp_induct)
  case (step p' p'')
  then have "sy_udp_task (pr_system p') \<noteq> Hung" using step_keeps(2) by blast
  with step exit_by_step [OF step(2)] step_timely [OF step(2)] step_keeps(1) [OF step(2)] show ?case by fastforce
qed simp

section \<open>Reaching the exit\<close>

definition can_exit ::
  "('c, 'n, 'd, 'r, 't, 'w) res_env \<Rightarrow> (bytes \<Rightarrow> 'w \<Rightarrow> 'w) \<Rightarrow> (bytes \<Rightarrow> ip_addr \<Rightarrow> 'w \<Rightarrow> bool option \<times> 'w) \<Rightarrow> nat \<Rightarrow>
     (u64 \<Rightarrow> u64 \<Rightarrow> f64) \<Rightarrow> 'a server_config \<Rightarrow> ('c, 'n, 'd, 'r, 't, 'w) program \<Rightarrow> bool" where
  "can_exit E write_file probe fuel ratio config p \<longleftrightarrow>
     (\<exists>p'. (program_step E write_file probe fuel ratio config)\<^sup>*\<^sup>* p p' \<and> pr_phase p' = Exited 0)"

lemma can_exit_step:
  "program_step E write_file probe fuel ratio config p p' \<Longrightarrow> can_exit E write_file probe fuel ratio config p' \<Longrightarrow>
     can_exit E write_file probe fuel ratio config p"
  unfolding can_exit_def by (meson converse_rtranclp_into_rtranclp)

lemma can_exit_done: "pr_phase p = Exited 0 \<Longrightarrow> can_exit E write_file probe fuel ratio config p"
  unfolding can_exit_def by blast

text \<open>The grace period passes, unless the stop flag is tested before its end.\<close>

lemma exit_in_grace:
  assumes "pr_phase p = Grace until" "timely p" "sy_tcp_task (pr_system p) \<noteq> Binding"
    and "sy_udp_task (pr_system p) \<noteq> Binding" "sy_udp_task (pr_system p) = Serving \<longrightarrow> until \<le> pr_poll p"
  shows "can_exit E write_file probe fuel ratio config p"
proof -
  let ?p = "p\<lparr>pr_now := pr_now p + (until - pr_now p)\<rparr>"
  have "program_step E write_file probe fuel ratio config p ?p"
    using assms by (intro prog_tick) (auto simp: may_wait_def timely_def)
  moreover have "program_step E write_file probe fuel ratio config ?p (?p\<lparr>pr_phase := Exited 0\<rparr>)"
    using assms(1) by (intro prog_exit) auto
  ultimately show ?thesis by (rule can_exit_step [OF _ can_exit_step [OF _ can_exit_done]]) simp
qed

text \<open>A program whose receive loop has ended waits for the grace period at once.\<close>

lemma exit_after_end:
  assumes "running p" "timely p" "task_ended (sy_udp_task (pr_system p))" "sy_tcp_task (pr_system p) \<noteq> Binding"
  shows "can_exit E write_file probe fuel ratio config p"
proof (cases "pr_phase p")
  case Waiting
  with assms(3) have s: "program_step E write_file probe fuel ratio config p (p\<lparr>pr_phase := Grace (pr_now p + SHUTDOWN_GRACE_PERIOD)\<rparr>)"
    by (intro prog_select) auto
  show ?thesis
    by (rule can_exit_step [OF s], rule exit_in_grace [OF _ step_timely [OF s assms(2)]]) (use assms(3,4) in auto)
next
  case (Grace until)
  show ?thesis by (rule exit_in_grace [OF Grace assms(2,4)]) (use assms(3) in auto)
qed (use assms(1) in \<open>simp add: running_def\<close>)

lemma exit_when_stopped:
  assumes "running p" "timely p" "sy_udp_task (pr_system p) = Serving" "sy_tcp_task (pr_system p) \<noteq> Binding" "sy_stop (pr_system p)"
    and wait: "may_wait p (pr_poll p - pr_now p)"
  shows "can_exit E write_file probe fuel ratio config p"
proof -
  let ?p = "p\<lparr>pr_now := pr_now p + (pr_poll p - pr_now p)\<rparr>"
  let ?q = "?p\<lparr>pr_system := (pr_system p)\<lparr>sy_udp_task := Ended (Ok ())\<rparr>\<rparr>"
  have p: "program_step E write_file probe fuel ratio config p ?p" by (rule prog_tick [OF wait])
  have "program_step E write_file probe fuel ratio config ?p (?p\<lparr>pr_system := (pr_system ?p)\<lparr>sy_udp_task := Ended (Ok ())\<rparr>\<rparr>)"
    using assms by (intro prog_stop) (auto simp: running_def)
  then have q: "program_step E write_file probe fuel ratio config ?p ?q" by simp
  have "timely ?q" by (rule step_timely [OF q step_timely [OF p assms(2)]])
  with assms(1,4) have "can_exit E write_file probe fuel ratio config ?q"
    by (intro exit_after_end) (auto simp: running_def)
  with p q show ?thesis by (blast intro: can_exit_step)
qed

lemma exit_from_serving_grace:
  assumes "running p" "timely p" "sy_udp_task (pr_system p) = Serving" "sy_tcp_task (pr_system p) \<noteq> Binding" "sy_stop (pr_system p)"
    and "pr_phase p = Grace until"
  shows "can_exit E write_file probe fuel ratio config p"
proof (cases "until \<le> pr_poll p")
  case True
  with exit_in_grace [OF assms(6,2,4)] assms(3) show ?thesis by simp
next
  case False
  with assms have "may_wait p (pr_poll p - pr_now p)" by (auto simp: may_wait_def timely_def)
  from exit_when_stopped [OF assms(1-5) this] show ?thesis .
qed

lemma exit_from_serving:
  assumes "running p" "timely p" "sy_udp_task (pr_system p) = Serving" "sy_tcp_task (pr_system p) \<noteq> Binding" "sy_stop (pr_system p)"
  shows "can_exit E write_file probe fuel ratio config p"
proof (cases "pr_phase p")
  case Waiting
  show ?thesis
  proof (cases "task_ended (sy_tcp_task (pr_system p))")
    case True
    with Waiting have s: "program_step E write_file probe fuel ratio config p (p\<lparr>pr_phase := Grace (pr_now p + SHUTDOWN_GRACE_PERIOD)\<rparr>)"
      by (intro prog_select) auto
    show ?thesis
      by (rule can_exit_step [OF s], rule exit_from_serving_grace [OF _ step_timely [OF s assms(2)]])
        (use assms in \<open>auto simp: running_def\<close>)
  next
    case False
    with Waiting assms have "may_wait p (pr_poll p - pr_now p)" by (auto simp: may_wait_def timely_def)
    from exit_when_stopped [OF assms this] show ?thesis .
  qed
next
  case (Grace until)
  from exit_from_serving_grace [OF assms this] show ?thesis .
qed (use assms(1) in \<open>simp add: running_def\<close>)

text \<open>Both sockets are bound first.\<close>

lemma exit_from_bound:
  assumes "running p" "timely p" "sy_udp_task (pr_system p) \<notin> {Binding, Hung}" "sy_tcp_task (pr_system p) \<noteq> Binding" "sy_stop (pr_system p)"
  shows "can_exit E write_file probe fuel ratio config p"
  using task_cases [of "sy_udp_task (pr_system p)"] exit_from_serving [OF assms(1,2) _ assms(4,5)]
    exit_after_end [OF assms(1,2) _ assms(4)] assms(2,3) by (auto simp: timely_def)

lemma exit_from_tcp_binding:
  assumes "running p" "timely p" "sy_udp_task (pr_system p) \<notin> {Binding, Hung}" "sy_stop (pr_system p)"
  shows "can_exit E write_file probe fuel ratio config p"
proof (cases "sy_tcp_task (pr_system p) = Binding")
  case True
  note s = prog_work [OF assms(1) sys_tcp_bind [OF True, of E write_file probe fuel ratio config None]]
  from exit_from_bound [OF _ step_timely [OF s assms(2)]] assms show ?thesis
    by (intro can_exit_step [OF s]) (auto simp: running_def bind_task_def)
next
  case False
  from exit_from_bound [OF assms(1-3) this assms(4)] show ?thesis .
qed

lemma stopped_can_exit:
  assumes "timely p" "sy_udp_task (pr_system p) \<noteq> Hung" "sy_stop (pr_system p)"
  shows "can_exit E write_file probe fuel ratio config p"
proof (cases "running p")
  case True
  show ?thesis
  proof (cases "sy_udp_task (pr_system p) = Binding")
    case binding: True
    note s = prog_work [OF True sys_udp_bind [OF binding, of E write_file probe fuel ratio config None]]
    from exit_from_tcp_binding [OF _ step_timely [OF s assms(1)]] assms True show ?thesis
      by (intro can_exit_step [OF s]) (auto simp: running_def bind_task_def)
  next
    case False
    with exit_from_tcp_binding [OF True assms(1)] assms show ?thesis by simp
  qed
next
  case False
  with assms(1) show ?thesis by (intro can_exit_done) (auto simp: running_def timely_def split: phase.splits)
qed

text \<open>A server that cannot bind its socket ends the program as well, and with status 0.\<close>

lemma bind_failure_exits_with_success:
  assumes "program_run E write_file probe fuel ratio config p" "running p"
    and "sy_udp_task (pr_system p) = Ended (Err (Io e))" "sy_tcp_task (pr_system p) \<noteq> Binding"
  shows "can_exit E write_file probe fuel ratio config p"
  by (rule exit_after_end [OF assms(2) run_timely [OF assms(1)] _ assms(4)]) (simp add: assms(3))

section \<open>A hung receive loop\<close>

lemma hung_forever:
  assumes "(program_step E write_file probe fuel ratio config)\<^sup>*\<^sup>* p p'" "pr_phase p = Waiting"
    and "sy_udp_task (pr_system p) = Hung" "sy_tcp_task (pr_system p) = Serving"
  shows "pr_phase p' = Waiting \<and> sy_udp_task (pr_system p') = Hung \<and> sy_tcp_task (pr_system p') = Serving"
  using assms
proof (induction rule: rtranclp_induct)
  case (step p' p'')
  with step_keeps(2,3) [OF step(2)] show ?case by (auto elim: program_step.cases)
qed simp

text \<open>
  A query whose question is a pointer to the identifier of the message, which is a pointer to itself;
  and the program after so many datagrams, none of them handled yet.
\<close>

definition cyclic_query :: bytes where
  "cyclic_query = [0xc0, 0, 1, 0, 0, 1, 0, 0, 0, 0, 0, 0, 0xc0, 0, 0, 1, 0, 1]"

abbreviation plain_program_step where
  "plain_program_step \<equiv> program_step answer_env (\<lambda>_ w. w) (\<lambda>_ _ w. (None, w)) 12 (\<lambda>_ _. 0) plain_config"

abbreviation plain_program_run where
  "plain_program_run \<equiv> program_run answer_env (\<lambda>_ w. w) (\<lambda>_ _ w. (None, w)) 12 (\<lambda>_ _. 0) plain_config"

definition loaded_system where
  "loaded_system k = plain_system\<lparr>sy_udp := udp_start\<lparr>us_permits := MAX_CONCURRENT_QUERIES - k, us_tasks := replicate k cyclic_query\<rparr>\<rparr>"

definition idle_program where
  "idle_program st = \<lparr>pr_system = st, pr_phase = Waiting, pr_now = 0, pr_poll = 0\<rparr>"

lemma idle_work:
  assumes "system_work E write_file probe fuel ratio config st st'"
  shows "program_step E write_file probe fuel ratio config (idle_program st) (idle_program st')"
  using prog_work [of "idle_program st" E write_file probe fuel ratio config st'] assms
  by (simp add: idle_program_def running_def split: if_splits)

lemma idle_recv:
  assumes "sy_udp_task st = Serving"
  shows "program_step E write_file probe fuel ratio config (idle_program st) (idle_program (udp_round (Inr (length data)) data st))"
  using prog_recv [of "idle_program st" data "Inr (length data)" E write_file probe fuel ratio config] assms
  by (simp add: idle_program_def running_def)

lemma loaded_serving [simp]: "sy_udp_task (loaded_system k) = Serving" "sy_tcp_task (loaded_system k) = Serving" "\<not> sy_stop (loaded_system k)"
  by (simp_all add: loaded_system_def plain_system_def started_system_def)

lemma cyclic_query_hangs: "quick_error_response cyclic_query 2 = Diverge"
proof -
  have "decode_domain_name cyclic_query 12 = Diverge"
    by (rule decode_self_pointer_diverges [of _ _ 0]) (simp_all add: cyclic_query_def ptr_target_def)
  then have "question_from_bytes cyclic_query 12 = Diverge" by (simp add: question_from_bytes_eq)
  moreover have "12 \<le> length cyclic_query" "0 < be16 ((cyclic_query ! 4) AND 0x0f) (cyclic_query ! 5)"
    by (simp_all add: cyclic_query_def be16_def)
  ultimately have "quick_question cyclic_query = Diverge" by (simp add: quick_question_def)
  then show ?thesis by (simp add: quick_error_response_def cyclic_query_def)
qed

lemma loaded_round:
  "k < MAX_CONCURRENT_QUERIES \<Longrightarrow>
     udp_round (Inr (length cyclic_query)) cyclic_query (loaded_system k) = loaded_system (Suc k)"
  by (simp add: udp_round_def handle_recv_def slice_def loaded_system_def plain_system_def started_system_def
      udp_start_def replicate_append_same)

lemma loaded_run: "k \<le> MAX_CONCURRENT_QUERIES \<Longrightarrow> plain_program_run (idle_program (loaded_system k))"
proof (induction k)
  case 0
  have "plain_program_run (idle_program started_system)"
    using prog_started [OF plain_system_start, where now = 0] by (simp add: program_start_def idle_program_def)
  from prog_stepped [OF prog_stepped [OF this idle_work [OF plain_binds(1)]] idle_work [OF plain_binds(2)]]
  show ?case by (simp add: loaded_system_def plain_system_def started_system_def udp_start_def)
next
  case (Suc k)
  then have run: "plain_program_run (idle_program (loaded_system k))" by simp
  from prog_stepped [OF run idle_recv [OF loaded_serving(1), where data = cyclic_query]] Suc.prems show ?case
    by (simp add: loaded_round)
qed

definition hung_system where
  "hung_system = (loaded_system MAX_CONCURRENT_QUERIES)\<lparr>sy_udp_task := Hung, sy_stop := True\<rparr>"

lemma hung_run: "plain_program_run (idle_program hung_system)"
proof -
  have "udp_round (Inr (length cyclic_query)) cyclic_query (loaded_system MAX_CONCURRENT_QUERIES) =
      (loaded_system MAX_CONCURRENT_QUERIES)\<lparr>sy_udp_task := Hung\<rparr>"
    by (simp add: udp_round_def handle_recv_def slice_def loaded_system_def cyclic_query_hangs)
  with prog_stepped [OF loaded_run [OF order.refl] idle_recv [OF loaded_serving(1), where data = cyclic_query]]
  have "plain_program_run (idle_program ((loaded_system MAX_CONCURRENT_QUERIES)\<lparr>sy_udp_task := Hung\<rparr>))" by simp
  from prog_stepped [OF this idle_work [OF sys_signal]] show ?thesis by (simp add: hung_system_def)
qed

section \<open>Properties\<close>




end
