(* ===== verification/Windows_Service.thy ===== *)
theory Windows_Service
  imports Lifecycle
begin

text \<open>
  The program as a service of Windows (\<open>service_handler\<close> of \<open>src/src/main.rs\<close>): the control handler, the
  relay from the flag of the service to the stop flag of the server, and the UDP server, which is the
  only one of a service.
\<close>

section \<open>Controls\<close>

text \<open>
  The controls a service manager sends, as far as the handler tells them apart, and its answers.  The
  service accepts \<open>STOP\<close> only; the manager delivers that and the interrogation, which needs no
  acceptance.
\<close>

datatype service_control = Control_Stop | Control_Shutdown | Control_Interrogate | Control_Other

datatype handler_result = NoError | NotImplemented

definition handle_control :: "service_control \<Rightarrow> bool \<Rightarrow> handler_result \<times> bool" where
  "handle_control event is_running =
     (case event of
        Control_Stop \<Rightarrow> (NoError, False)
      | Control_Shutdown \<Rightarrow> (NoError, False)
      | _ \<Rightarrow> (NotImplemented, is_running))"

definition controls_accepted :: "service_control \<Rightarrow> bool" where
  "controls_accepted event \<longleftrightarrow> event = Control_Stop"

definition delivered :: "service_control \<Rightarrow> bool" where
  "delivered event \<longleftrightarrow> controls_accepted event \<or> event = Control_Interrogate"

section \<open>State and steps\<close>

text \<open>
  \<open>sv_running\<close> is the flag \<open>RUNNING\<close>, \<open>sv_relay\<close> the time at which the relay looks at it next, until it has
  passed it on; \<open>sv_done\<close>: \<open>block_on\<close> has returned.
\<close>

record ('c, 'n, 'd, 'r, 't, 'w) service =
  sv_system :: "('c, 'n, 'd, 'r, 't, 'w) system"
  sv_now :: nat
  sv_poll :: nat
  sv_running :: bool
  sv_relay :: "nat option"
  sv_done :: bool

definition my_service_main :: "nat \<Rightarrow> ('c, 'n, 'd, 'r, 't, 'w) system \<Rightarrow> ('c, 'n, 'd, 'r, 't, 'w) service" where
  "my_service_main now st =
     \<lparr>sv_system = st, sv_now = now, sv_poll = now, sv_running = True, sv_relay = Some now, sv_done = False\<rparr>"

definition service_waits :: "('c, 'n, 'd, 'r, 't, 'w) service \<Rightarrow> nat \<Rightarrow> bool" where
  "service_waits v d \<longleftrightarrow>
     \<not> sv_done v \<and> sy_udp_task (sv_system v) \<noteq> Binding \<and> \<not> task_ended (sy_udp_task (sv_system v)) \<and>
     (sy_udp_task (sv_system v) = Serving \<longrightarrow> sv_now v + d \<le> sv_poll v) \<and>
     (case sv_relay v of Some t \<Rightarrow> sv_now v + d \<le> t | None \<Rightarrow> True)"

text \<open>There is no handler of signals in a service: its work does not set the stop flag.\<close>

inductive service_step ::
  "('c, 'n, 'd, 'r, 't, 'w) res_env \<Rightarrow> (bytes \<Rightarrow> 'w \<Rightarrow> 'w) \<Rightarrow> (bytes \<Rightarrow> ip_addr \<Rightarrow> 'w \<Rightarrow> bool option \<times> 'w) \<Rightarrow> nat \<Rightarrow>
     (u64 \<Rightarrow> u64 \<Rightarrow> f64) \<Rightarrow> 'a server_config \<Rightarrow>
     ('c, 'n, 'd, 'r, 't, 'w) service \<Rightarrow> ('c, 'n, 'd, 'r, 't, 'w) service \<Rightarrow> bool"
  for E write_file probe fuel ratio config where
  svc_control: "\<not> sv_done v \<Longrightarrow> delivered event \<Longrightarrow>
     service_step E write_file probe fuel ratio config v (v\<lparr>sv_running := snd (handle_control event (sv_running v))\<rparr>)"
| svc_relay_waits: "\<not> sv_done v \<Longrightarrow> sv_relay v = Some t \<Longrightarrow> t \<le> sv_now v \<Longrightarrow> sv_running v \<Longrightarrow>
     service_step E write_file probe fuel ratio config v (v\<lparr>sv_relay := Some (sv_now v + STOP_POLL)\<rparr>)"
| svc_relay_passes: "\<not> sv_done v \<Longrightarrow> sv_relay v = Some t \<Longrightarrow> t \<le> sv_now v \<Longrightarrow> \<not> sv_running v \<Longrightarrow>
     service_step E write_file probe fuel ratio config v
       (v\<lparr>sv_relay := None, sv_system := (sv_system v)\<lparr>sy_stop := True\<rparr>\<rparr>)"
| svc_work: "\<not> sv_done v \<Longrightarrow> system_work E write_file probe fuel ratio config (sv_system v) st' \<Longrightarrow>
     sy_stop st' = sy_stop (sv_system v) \<Longrightarrow>
     service_step E write_file probe fuel ratio config v
       (v\<lparr>sv_system := st', sv_poll := (if sy_udp_task (sv_system v) = Binding then sv_now v else sv_poll v)\<rparr>)"
| svc_recv: "\<not> sv_done v \<Longrightarrow> sy_udp_task (sv_system v) = Serving \<Longrightarrow>
     (case result of Inr len \<Rightarrow> len \<le> length buf | Inl e \<Rightarrow> True) \<Longrightarrow>
     service_step E write_file probe fuel ratio config v
       (v\<lparr>sv_system := udp_round result buf (sv_system v), sv_poll := sv_now v\<rparr>)"
| svc_poll: "\<not> sv_done v \<Longrightarrow> sy_udp_task (sv_system v) = Serving \<Longrightarrow> sv_poll v \<le> sv_now v \<Longrightarrow> \<not> sy_stop (sv_system v) \<Longrightarrow>
     service_step E write_file probe fuel ratio config v (v\<lparr>sv_poll := sv_now v + STOP_POLL\<rparr>)"
| svc_stop: "\<not> sv_done v \<Longrightarrow> sy_udp_task (sv_system v) = Serving \<Longrightarrow> sv_poll v \<le> sv_now v \<Longrightarrow> sy_stop (sv_system v) \<Longrightarrow>
     service_step E write_file probe fuel ratio config v
       (v\<lparr>sv_system := (sv_system v)\<lparr>sy_udp_task := Ended (Ok ())\<rparr>\<rparr>)"
| svc_done: "\<not> sv_done v \<Longrightarrow> task_ended (sy_udp_task (sv_system v)) \<Longrightarrow>
     service_step E write_file probe fuel ratio config v (v\<lparr>sv_done := True\<rparr>)"
| svc_tick: "service_waits v d \<Longrightarrow> service_step E write_file probe fuel ratio config v (v\<lparr>sv_now := sv_now v + d\<rparr>)"

inductive service_run ::
  "('c, 'n, 'd, 'r, 't, 'w) res_env \<Rightarrow> (bytes \<Rightarrow> 'w \<Rightarrow> 'w) \<Rightarrow> (bytes \<Rightarrow> ip_addr \<Rightarrow> 'w \<Rightarrow> bool option \<times> 'w) \<Rightarrow> nat \<Rightarrow>
     (u64 \<Rightarrow> u64 \<Rightarrow> f64) \<Rightarrow> 'a server_config \<Rightarrow> ('c, 'n, 'd, 'r, 't, 'w) service \<Rightarrow> bool"
  for E write_file probe fuel ratio config where
  svc_started: "service_start E config bound listing unix instant file w = Ok st \<Longrightarrow>
     service_run E write_file probe fuel ratio config (my_service_main now st)"
| svc_stepped: "service_run E write_file probe fuel ratio config v \<Longrightarrow> service_step E write_file probe fuel ratio config v v' \<Longrightarrow>
     service_run E write_file probe fuel ratio config v'"

section \<open>The service runs the system\<close>

lemma service_step_system:
  assumes "service_step E write_file probe fuel ratio config v v'"
  shows "(system_step E write_file probe fuel ratio config)\<^sup>=\<^sup>= (sv_system v) (sv_system v')"
  using assms
  by (cases rule: service_step.cases) (auto intro: sys_work sys_recv sys_stop sys_signal)

lemma service_system_run:
  "service_run E write_file probe fuel ratio config v \<Longrightarrow> system_run E write_file probe fuel ratio config (sv_system v)"
proof (induction rule: service_run.induct)
  case (svc_stepped v v')
  with service_step_system [OF svc_stepped(2)] show ?case by (auto intro: sys_stepped)
qed (auto simp: my_service_main_def intro: sys_service)

text \<open>A service has no TCP server: nothing is ever written to a connection.\<close>

lemma work_no_tcp:
  assumes "system_work E write_file probe fuel ratio config st st'" "sy_tcp_task st = Absent" "tc_open (sy_tcp st) = []"
    and "sy_blocklist st = None" "sy_api st = None"
  shows "sy_tcp_task st' = Absent \<and> sy_tcp st' = sy_tcp st \<and> sy_tcp_out st' = sy_tcp_out st \<and> sy_blocklist st' = None \<and> sy_api st' = None"
  using assms by (cases rule: system_work.cases) simp_all

lemma service_no_tcp:
  "service_run E write_file probe fuel ratio config v \<Longrightarrow>
     sy_tcp_task (sv_system v) = Absent \<and> tc_open (sy_tcp (sv_system v)) = [] \<and> sy_tcp_out (sv_system v) = [] \<and>
     sy_blocklist (sv_system v) = None \<and> sy_api (sv_system v) = None"
proof (induction rule: service_run.induct)
  case (svc_stepped v v')
  from svc_stepped(2) show ?case
  proof cases
    case (svc_work st')
    with work_no_tcp [OF svc_work(3)] svc_stepped(3) show ?thesis by simp
  qed (use svc_stepped(3) in simp_all)
qed (auto simp: my_service_main_def service_start_def tcp_start_def split: outcome.splits)

section \<open>Timers\<close>

definition service_timely :: "('c, 'n, 'd, 'r, 't, 'w) service \<Rightarrow> bool" where
  "service_timely v \<longleftrightarrow>
     sy_udp_task (sv_system v) \<noteq> Absent \<and>
     (sy_udp_task (sv_system v) = Serving \<longrightarrow> sv_now v \<le> sv_poll v \<and> sv_poll v \<le> sv_now v + STOP_POLL) \<and>
     (case sv_relay v of Some t \<Rightarrow> sv_now v \<le> t \<and> t \<le> sv_now v + STOP_POLL | None \<Rightarrow> sy_stop (sv_system v) \<and> \<not> sv_running v)"

lemma running_cleared: "\<not> snd (handle_control event False)"
  by (simp add: handle_control_def split: service_control.split)

lemma service_step_timely:
  assumes "service_step E write_file probe fuel ratio config v v'" "service_timely v"
  shows "service_timely v'"
  using assms
proof (cases rule: service_step.cases)
  case (svc_work st')
  with assms(2) work_tasks(1,4) [OF svc_work(3)] show ?thesis
    by (cases "sy_udp_task (sv_system v) = Binding") (auto simp: service_timely_def split: option.splits)
next
  case (svc_recv result buf)
  with assms(2) udp_round_task [of "sv_system v" result buf] show ?thesis by (auto simp: service_timely_def split: option.splits)
next
  case (svc_control event)
  with assms(2) running_cleared [of event] show ?thesis
    by (cases "sv_running v") (auto simp: service_timely_def split: option.splits)
qed (auto simp: service_timely_def service_waits_def split: option.splits)

lemma service_run_timely: "service_run E write_file probe fuel ratio config v \<Longrightarrow> service_timely v"
proof (induction rule: service_run.induct)
  case (svc_stepped v v')
  from service_step_timely [OF svc_stepped(2,3)] show ?case .
qed (auto simp: service_timely_def my_service_main_def service_start_def split: outcome.splits)

text \<open>When \<open>block_on\<close> returns at the latest, once the flag is cleared.\<close>

definition done_by :: "('c, 'n, 'd, 'r, 't, 'w) service \<Rightarrow> nat" where
  "done_by v =
     (if sv_done v \<or> task_ended (sy_udp_task (sv_system v)) then sv_now v
      else case sv_relay v of
             Some t \<Rightarrow> t + STOP_POLL
           | None \<Rightarrow> if sy_udp_task (sv_system v) = Serving then sv_poll v else sv_now v)"

lemma done_by_bounds: "service_timely v \<Longrightarrow> sv_now v \<le> done_by v \<and> done_by v \<le> sv_now v + 2 * STOP_POLL"
  by (auto simp: service_timely_def done_by_def split: option.splits)

lemma done_by_step:
  assumes "service_step E write_file probe fuel ratio config v v'" "service_timely v" "\<not> sv_running v"
    and "sy_udp_task (sv_system v') \<noteq> Hung"
  shows "done_by v' \<le> done_by v"
  using assms(1)
proof (cases rule: service_step.cases)
  case (svc_work st')
  with assms(2) work_tasks(1) [OF svc_work(3)] show ?thesis
    by (cases "sy_udp_task (sv_system v) = Binding") (auto simp: service_timely_def done_by_def split: option.splits)
next
  case (svc_tick d)
  with assms(2,4) task_cases [of "sy_udp_task (sv_system v)"] show ?thesis
    by (auto simp: service_timely_def done_by_def service_waits_def split: option.splits)
qed (use assms(2,3) in \<open>auto simp: service_timely_def done_by_def split: option.splits\<close>)

lemma service_step_keeps:
  assumes "service_step E write_file probe fuel ratio config v v'"
  shows "\<not> sv_running v \<Longrightarrow> \<not> sv_running v'"
    and "sy_udp_task (sv_system v) = Hung \<Longrightarrow> sy_udp_task (sv_system v') = Hung"
  using assms by (cases rule: service_step.cases; simp add: running_cleared work_tasks)+

lemma done_by_steps:
  assumes "(service_step E write_file probe fuel ratio config)\<^sup>*\<^sup>* v v'" "service_timely v" "\<not> sv_running v"
    and "sy_udp_task (sv_system v') \<noteq> Hung"
  shows "done_by v' \<le> done_by v \<and> service_timely v' \<and> \<not> sv_running v'"
  using assms
proof (induction rule: rtranclp_induct)
  case (step v' v'')
  then have "sy_udp_task (sv_system v') \<noteq> Hung" using service_step_keeps(2) by blast
  with step done_by_step [OF step(2)] service_step_timely [OF step(2)] service_step_keeps(1) [OF step(2)]
  show ?case by fastforce
qed simp

section \<open>Reaching the end\<close>

definition can_return ::
  "('c, 'n, 'd, 'r, 't, 'w) res_env \<Rightarrow> (bytes \<Rightarrow> 'w \<Rightarrow> 'w) \<Rightarrow> (bytes \<Rightarrow> ip_addr \<Rightarrow> 'w \<Rightarrow> bool option \<times> 'w) \<Rightarrow> nat \<Rightarrow>
     (u64 \<Rightarrow> u64 \<Rightarrow> f64) \<Rightarrow> 'a server_config \<Rightarrow> ('c, 'n, 'd, 'r, 't, 'w) service \<Rightarrow> bool" where
  "can_return E write_file probe fuel ratio config v \<longleftrightarrow>
     (\<exists>v'. (service_step E write_file probe fuel ratio config)\<^sup>*\<^sup>* v v' \<and> sv_done v')"

lemma can_return_step:
  "service_step E write_file probe fuel ratio config v v' \<Longrightarrow> can_return E write_file probe fuel ratio config v' \<Longrightarrow>
     can_return E write_file probe fuel ratio config v"
  unfolding can_return_def by (meson converse_rtranclp_into_rtranclp)

lemma can_return_ended:
  assumes "task_ended (sy_udp_task (sv_system v))"
  shows "can_return E write_file probe fuel ratio config v"
proof (cases "sv_done v")
  case False
  show ?thesis by (rule can_return_step [OF svc_done [OF False assms]]) (auto simp: can_return_def)
qed (auto simp: can_return_def)

text \<open>With the flag set the loop stops at its next test.\<close>

lemma can_return_flagged:
  assumes "\<not> sv_done v" "service_timely v" "sy_udp_task (sv_system v) = Serving" "sv_relay v = None"
  shows "can_return E write_file probe fuel ratio config v"
proof -
  let ?v = "v\<lparr>sv_now := sv_now v + (sv_poll v - sv_now v)\<rparr>"
  have tick: "service_step E write_file probe fuel ratio config v ?v"
    using assms by (intro svc_tick) (auto simp: service_waits_def service_timely_def)
  have stop: "service_step E write_file probe fuel ratio config ?v
      (?v\<lparr>sv_system := (sv_system ?v)\<lparr>sy_udp_task := Ended (Ok ())\<rparr>\<rparr>)"
    using assms by (intro svc_stop) (auto simp: service_timely_def)
  show ?thesis
    by (rule can_return_step [OF tick can_return_step [OF stop]], rule can_return_ended) simp
qed

text \<open>The relay passes the flag on; before that the loop looks for it once at most.\<close>

lemma can_return_relayed:
  assumes "\<not> sv_done v" "service_timely v" "sy_udp_task (sv_system v) = Serving" "sv_relay v = Some t"
    and "\<not> sv_running v" "t \<le> sv_poll v"
  shows "can_return E write_file probe fuel ratio config v"
proof -
  let ?v = "v\<lparr>sv_now := sv_now v + (t - sv_now v)\<rparr>"
  have tick: "service_step E write_file probe fuel ratio config v ?v"
    using assms by (intro svc_tick) (auto simp: service_waits_def service_timely_def)
  have relay: "service_step E write_file probe fuel ratio config ?v
      (?v\<lparr>sv_relay := None, sv_system := (sv_system ?v)\<lparr>sy_stop := True\<rparr>\<rparr>)"
    by (rule svc_relay_passes [of _ t]) (use assms in \<open>auto simp: service_timely_def\<close>)
  have "service_timely (?v\<lparr>sv_relay := None, sv_system := (sv_system ?v)\<lparr>sy_stop := True\<rparr>\<rparr>)"
    by (rule service_step_timely [OF relay service_step_timely [OF tick assms(2)]])
  with assms show ?thesis
    by (intro can_return_step [OF tick] can_return_step [OF relay] can_return_flagged) auto
qed

lemma can_return_serving:
  assumes "\<not> sv_done v" "service_timely v" "sy_udp_task (sv_system v) = Serving" "\<not> sv_running v"
  shows "can_return E write_file probe fuel ratio config v"
proof (cases "sv_relay v")
  case None
  from can_return_flagged [OF assms(1-3) this] show ?thesis .
next
  case (Some t)
  show ?thesis
  proof (cases "t \<le> sv_poll v")
    case True
    from can_return_relayed [OF assms(1-3) Some assms(4) True] show ?thesis .
  next
    case False
    let ?v = "v\<lparr>sv_now := sv_now v + (sv_poll v - sv_now v)\<rparr>"
    have tick: "service_step E write_file probe fuel ratio config v ?v"
      using assms Some False by (intro svc_tick) (auto simp: service_waits_def service_timely_def)
    have timely: "service_timely ?v" by (rule service_step_timely [OF tick assms(2)])
    show ?thesis
    proof (cases "sy_stop (sv_system v)")
      case True
      then have stop: "service_step E write_file probe fuel ratio config ?v
          (?v\<lparr>sv_system := (sv_system ?v)\<lparr>sy_udp_task := Ended (Ok ())\<rparr>\<rparr>)"
        using assms by (intro svc_stop) (auto simp: service_timely_def)
      show ?thesis by (rule can_return_step [OF tick can_return_step [OF stop]], rule can_return_ended) simp
    next
      case flag: False
      have poll: "service_step E write_file probe fuel ratio config ?v (?v\<lparr>sv_poll := sv_now ?v + STOP_POLL\<rparr>)"
        using assms flag by (intro svc_poll) (auto simp: service_timely_def)
      have "t \<le> sv_poll (?v\<lparr>sv_poll := sv_now ?v + STOP_POLL\<rparr>)"
        using assms(2) Some by (auto simp: service_timely_def)
      with assms Some service_step_timely [OF poll timely] show ?thesis
        by (intro can_return_step [OF tick] can_return_step [OF poll] can_return_relayed [of _ t]) auto
    qed
  qed
qed

lemma stopped_can_return:
  assumes "service_timely v" "\<not> sv_running v" "sy_udp_task (sv_system v) \<noteq> Hung"
  shows "can_return E write_file probe fuel ratio config v"
proof (cases "sv_done v")
  case False
  from task_cases [of "sy_udp_task (sv_system v)"] assms show ?thesis
  proof (elim disjE)
    assume binding: "sy_udp_task (sv_system v) = Binding"
    note s = svc_work [OF False sys_udp_bind [OF binding, of E write_file probe fuel ratio config None], simplified]
    from service_step_timely [OF s assms(1)] assms(2) False show ?thesis
      by (intro can_return_step [OF s] can_return_serving) (auto simp: bind_task_def)
  qed (auto intro: can_return_ended can_return_serving [OF False assms(1) _ assms(2)] simp: service_timely_def)
qed (auto simp: can_return_def)

section \<open>Properties\<close>


definition serving_service where
  "serving_service = (my_service_main 0 (plain_system\<lparr>sy_tcp_task := Absent, sy_blocklist := None, sy_loading := False, sy_api := None\<rparr>))"

lemma serving_service_run:
  "service_run answer_env (\<lambda>_ w. w) (\<lambda>_ _ w. (None, w)) 12 (\<lambda>_ _. 0) plain_config serving_service"
proof -
  let ?st = "started_system\<lparr>sy_tcp_task := Absent, sy_blocklist := None, sy_loading := False, sy_api := None\<rparr>"
  have "service_start answer_env plain_config None (\<lambda>m. []) (\<lambda>_. 7) (\<lambda>_. 7) None () = Ok ?st"
    by (simp add: service_start_def plain_start_new started_system_def)
  note run = svc_started [OF this, where now = 0]
  have b: "sy_udp_task (sv_system (my_service_main 0 ?st)) = Binding" by (simp add: my_service_main_def started_system_def)
  have "\<not> sv_done (my_service_main 0 ?st)" by (simp add: my_service_main_def)
  from svc_stepped [OF run svc_work [OF this sys_udp_bind [OF b, where failure = None]]] show ?thesis
    by (simp add: serving_service_def my_service_main_def plain_system_def started_system_def bind_task_def prefetch_tasks_def)
qed


end
