(* ===== verification/Dot_Listener.thy ===== *)
theory Dot_Listener
  imports Server_Tcp
begin

text \<open>
  Certificates and TLS settings (\<open>src/src/tls.rs\<close>) and the DNS-over-TLS listener (\<open>src/src/dot.rs\<close>).  The
  program does not declare these two modules, and they do not compile as they stand (\<open>Arc\<close> is not
  imported, the acceptor is wrapped twice, and the connection handler takes a \<open>TcpStream\<close>); they are read
  here with the types they mean.  The certificate and TLS libraries and the file system are arguments.
\<close>

section \<open>Certificates\<close>

datatype dn_type = OrganizationName | CommonName

record cert_params =
  cp_distinguished_name :: "(dn_type \<times> string) list"
  cp_subject_alt_names :: "string list"

text \<open>
  What is used of the libraries: making a key, signing a certificate with it (DER), the DER form of a
  key, and the test that a server configuration can be built from a certificate and a key.  Errors are
  their texts.
\<close>

record ('k, 'w) tls_lib =
  key_generate :: "'w \<Rightarrow> (string + 'k) \<times> 'w"
  self_signed :: "cert_params \<Rightarrow> 'k \<Rightarrow> 'w \<Rightarrow> (string + bytes) \<times> 'w"
  serialize_der :: "'k \<Rightarrow> bytes"
  with_single_cert :: "bytes \<Rightarrow> bytes \<Rightarrow> string option"

record tls_config =
  tls_cert :: bytes
  tls_key :: bytes
  tls_alpn :: "bytes list"

text \<open>The names of the protocols: \<open>h2\<close>, \<open>http/1.1\<close> and \<open>dot\<close>.\<close>

definition bytes_of_string :: "string \<Rightarrow> bytes" where
  "bytes_of_string s = map of_char s"

definition build_tls_config :: "('k, 'w) tls_lib \<Rightarrow> string \<Rightarrow> string list \<Rightarrow> bytes \<Rightarrow> bytes \<Rightarrow> string + tls_config" where
  "build_tls_config L what alpn cert_der key_der =
     (case with_single_cert L cert_der key_der of
        Some e \<Rightarrow> Inl (what @ e)
      | None \<Rightarrow> Inr \<lparr>tls_cert = cert_der, tls_key = key_der, tls_alpn = map bytes_of_string alpn\<rparr>)"

text \<open>Making a key and signing a certificate for it, which both generators do.\<close>

definition sign_params :: "('k, 'w) tls_lib \<Rightarrow> cert_params \<Rightarrow> 'w \<Rightarrow> (string + bytes \<times> bytes) \<times> 'w" where
  "sign_params L params w =
     (case key_generate L w of
        (Inl e, w) \<Rightarrow> (Inl (''Failed to generate key pair: '' @ e), w)
      | (Inr key_pair, w) \<Rightarrow>
          (case self_signed L params key_pair w of
             (Inl e, w) \<Rightarrow> (Inl (''Failed to generate certificate: '' @ e), w)
           | (Inr cert, w) \<Rightarrow> (Inr (cert, serialize_der L key_pair), w)))"

definition generate_self_signed_cert ::
  "('k, 'w) tls_lib \<Rightarrow> string list \<Rightarrow> string \<Rightarrow> 'w \<Rightarrow> (string + bytes \<times> bytes \<times> tls_config) \<times> 'w" where
  "generate_self_signed_cert L subject_alt_names organization w =
     (let params = \<lparr>cp_distinguished_name = [(OrganizationName, organization), (CommonName, ''FastDNS'')],
                    cp_subject_alt_names = subject_alt_names\<rparr>
      in case sign_params L params w of
           (Inl e, w) \<Rightarrow> (Inl e, w)
         | (Inr (cert_der, key_der), w) \<Rightarrow>
             (case build_tls_config L ''Failed to build TLS config: '' [''h2'', ''http/1.1''] cert_der key_der of
                Inl e \<Rightarrow> (Inl e, w)
              | Inr server_config \<Rightarrow> (Inr (cert_der, key_der, server_config), w)))"

definition generate_self_signed_for_hostname ::
  "('k, 'w) tls_lib \<Rightarrow> string \<Rightarrow> 'w \<Rightarrow> (string + bytes \<times> bytes) \<times> 'w" where
  "generate_self_signed_for_hostname L hostname w =
     sign_params L \<lparr>cp_distinguished_name = [(CommonName, hostname)], cp_subject_alt_names = [hostname]\<rparr> w"

text \<open>
  The parsed names of a certificate: an error of the parser, no such extension, or the DNS names.  The
  feature \<open>x509-parser\<close> is not one of this crate, so the test against them is never compiled in.
\<close>

datatype san = San_Unparsed string | San_Missing | San_Names "string list"

definition X509_PARSER :: bool where "X509_PARSER = False"

definition validate_certificate_hostname :: "bool \<Rightarrow> (bytes \<Rightarrow> san) \<Rightarrow> bytes \<Rightarrow> string \<Rightarrow> string + unit" where
  "validate_certificate_hostname x509_parser parse_san cert_der hostname =
     (if x509_parser then
        (case parse_san cert_der of
           San_Unparsed e \<Rightarrow> Inl e
         | San_Missing \<Rightarrow> Inl ''Certificate has no SAN''
         | San_Names dns_names \<Rightarrow>
             if list_ex (\<lambda>name. name = hostname) dns_names then Inr ()
             else Inl (''Certificate does not match hostname '' @ [CHR 39] @ hostname @ [CHR 39]))
      else if hostname = [] then Inl ''Hostname is empty'' else Inr ())"

section \<open>Files\<close>

text \<open>Reading a file and creating a directory or file give an error text or succeed.\<close>

definition load_tls_config ::
  "('k, 'w) tls_lib \<Rightarrow> (string \<Rightarrow> string + bytes) \<Rightarrow> string \<Rightarrow> string \<Rightarrow> string + tls_config" where
  "load_tls_config L read_file cert_path key_path =
     (case read_file cert_path of
        Inl e \<Rightarrow> Inl (''Failed to read certificate file '' @ [CHR 39] @ cert_path @ [CHR 39] @ '': '' @ e)
      | Inr cert_bytes \<Rightarrow>
          (case read_file key_path of
             Inl e \<Rightarrow> Inl (''Failed to read private key file '' @ [CHR 39] @ key_path @ [CHR 39] @ '': '' @ e)
           | Inr key_bytes \<Rightarrow>
               build_tls_config L ''Failed to build TLS config: '' [''h2'', ''http/1.1''] cert_bytes key_bytes))"

record 'f file_ops =
  fs_exists :: "'f \<Rightarrow> string \<Rightarrow> bool"
  fs_create_dir_all :: "string \<Rightarrow> 'f \<Rightarrow> string option \<times> 'f"
  fs_write :: "string \<Rightarrow> bytes \<Rightarrow> 'f \<Rightarrow> string option \<times> 'f"

definition ensure_ca_directory :: "'f file_ops \<Rightarrow> string \<Rightarrow> 'f \<Rightarrow> (string + unit) \<times> 'f" where
  "ensure_ca_directory F ca_dir f =
     (if \<not> fs_exists F f ca_dir then
        (case fs_create_dir_all F ca_dir f of
           (Some e, f) \<Rightarrow> (Inl (''Failed to create CA directory '' @ [CHR 39] @ ca_dir @ [CHR 39] @ '': '' @ e), f)
         | (None, f) \<Rightarrow> (Inr (), f))
      else (Inr (), f))"

definition write_ca_certificate :: "'f file_ops \<Rightarrow> string \<Rightarrow> bytes \<Rightarrow> 'f \<Rightarrow> (string + unit) \<times> 'f" where
  "write_ca_certificate F ca_path cert_der f =
     (case fs_write F ca_path cert_der f of
        (Some e, f) \<Rightarrow> (Inl (''Failed to write CA certificate '' @ [CHR 39] @ ca_path @ [CHR 39] @ '': '' @ e), f)
      | (None, f) \<Rightarrow> (Inr (), f))"

definition create_dot_acceptor :: "('k, 'w) tls_lib \<Rightarrow> bytes \<Rightarrow> bytes \<Rightarrow> string + tls_config" where
  "create_dot_acceptor L cert_der key_der = build_tls_config L ''Failed to build DoT TLS config: '' [''dot''] cert_der key_der"

section \<open>The listener\<close>

text \<open>
  An accepted connection waits for a permit before the next one is accepted; \<open>dl_result\<close> is the error with
  which the listener has ended.  The open connections have not been through the handshake yet.
\<close>

record 's dot_listener =
  dl_permits :: nat
  dl_pending :: "'s option"
  dl_open :: "'s list"
  dl_result :: "dns_error option"

definition dot_loop_start :: "'s dot_listener" where
  "dot_loop_start = \<lparr>dl_permits = MAX_CONNECTIONS, dl_pending = None, dl_open = [], dl_result = None\<rparr>"

definition start_dot ::
  "('k, 'w) tls_lib \<Rightarrow> bytes \<Rightarrow> bytes \<Rightarrow> io_error option \<Rightarrow> (tls_config \<times> 's dot_listener) dns_result" where
  "start_dot L cert_der key_der bound =
     (case create_dot_acceptor L cert_der key_der of
        Inl e \<Rightarrow> Err (Transport e)
      | Inr acceptor \<Rightarrow>
          (case bound of Some e \<Rightarrow> Err (Io e) | None \<Rightarrow> Ok (acceptor, dot_loop_start)))"

definition dot_accept :: "(io_error + 's) \<Rightarrow> 's dot_listener \<Rightarrow> 's dot_listener" where
  "dot_accept result st =
     (case result of Inl e \<Rightarrow> st\<lparr>dl_result := Some (Io e)\<rparr> | Inr stream \<Rightarrow> st\<lparr>dl_pending := Some stream\<rparr>)"

text \<open>
  The task of a connection: \<open>handshake\<close> gives the stream behind TLS, or nothing when it fails or takes
  more than ten seconds.
\<close>

definition dot_connection ::
  "'r resolver_ops \<Rightarrow> ('s \<Rightarrow> tcp_stream option) \<Rightarrow> 's \<Rightarrow> 'r \<Rightarrow> (unit dns_result \<times> tcp_stream option) \<times> 'r" where
  "dot_connection R handshake stream s =
     (case handshake stream of
        None \<Rightarrow> ((Ok (), None), s)
      | Some tls_stream \<Rightarrow>
          (case handle_tcp_connection R tls_stream s of ((res, tls_stream), s) \<Rightarrow> ((res, Some tls_stream), s)))"

inductive dot_step :: "'r resolver_ops \<Rightarrow> ('s \<Rightarrow> tcp_stream option) \<Rightarrow> 's dot_listener \<Rightarrow> 's dot_listener \<Rightarrow> bool"
  for R handshake where
  dot_accepts: "dl_result st = None \<Longrightarrow> dl_pending st = None \<Longrightarrow> dot_step R handshake st (dot_accept result st)"
| dot_spawns: "dl_result st = None \<Longrightarrow> dl_pending st = Some stream \<Longrightarrow> dl_permits st > 0 \<Longrightarrow>
     dot_step R handshake st
       (st\<lparr>dl_pending := None, dl_permits := dl_permits st - 1, dl_open := dl_open st @ [stream]\<rparr>)"
| dot_served: "dl_open st = before @ stream # behind \<Longrightarrow> dot_connection R handshake stream s = ((res, out), s') \<Longrightarrow>
     res \<noteq> Diverge \<Longrightarrow>
     dot_step R handshake st (st\<lparr>dl_permits := dl_permits st + 1, dl_open := before @ behind\<rparr>)"

definition dot_ends :: "'r resolver_ops \<Rightarrow> ('s \<Rightarrow> tcp_stream option) \<Rightarrow> 's \<Rightarrow> bool" where
  "dot_ends R handshake stream \<longleftrightarrow> (\<exists>s. fst (fst (dot_connection R handshake stream s)) \<noteq> Diverge)"

lemma dot_step_permits:
  "dot_step R handshake st st' \<Longrightarrow> dl_permits st' + length (dl_open st') = dl_permits st + length (dl_open st)"
  by (induction rule: dot_step.induct) (auto simp: dot_accept_def split: sum.split)

lemma dot_step_end:
  assumes "dl_open st = stream # behind" "dot_ends R handshake stream"
  shows "\<exists>st'. dot_step R handshake st st' \<and> dl_open st' = behind"
proof -
  obtain s where "fst (fst (dot_connection R handshake stream s)) \<noteq> Diverge"
    using assms(2) by (auto simp: dot_ends_def)
  then obtain res out s' where h: "dot_connection R handshake stream s = ((res, out), s')" "res \<noteq> Diverge"
    by (metis prod.collapse)
  show ?thesis using dot_served [OF _ h, of st "[]" behind] assms(1) by fastforce
qed

interpretation dot_permits: permit_server dl_permits dl_open "dot_step R handshake" "dot_ends R handshake" dot_loop_start
    MAX_CONNECTIONS for R handshake
  by unfold_locales (auto simp: dot_loop_start_def dot_step_permits dot_step_end)

section \<open>Properties\<close>

text \<open>
  The listener never has more than 512 connections open, one more may wait for a permit, and if its
  connections can be served to their end it can be rid of all of them.
\<close>

theorem dot_listener_bounded:
  assumes "(dot_step R handshake)\<^sup>*\<^sup>* dot_loop_start st" "list_all (dot_ends R handshake) (dl_open st)"
  shows "length (dl_open st) \<le> MAX_CONNECTIONS \<and>
    (\<exists>st'. (dot_step R handshake)\<^sup>*\<^sup>* st st' \<and> dl_open st' = [] \<and> dl_permits st' = MAX_CONNECTIONS)"
  using dot_permits.permits_reachable [OF assms(1)] dot_permits.drains_completely [OF assms] by simp

text \<open>One failing \<open>accept\<close> ends the listener for good, where the TCP server would go on.\<close>

lemma accept_error_ends_listener:
  assumes "(dot_step R handshake)\<^sup>*\<^sup>* (dot_accept (Inl e) st) st'"
  shows "dl_result st' = Some (Io e) \<and> set (dl_open st') \<subseteq> set (dl_open st)"
  using assms
proof (induction rule: rtranclp_induct)
  case (step st' st'')
  then show ?case by (auto elim!: dot_step.cases)
qed (simp add: dot_accept_def)

text \<open>
  Without the parser every certificate is valid for every host name that is not empty.  With it, a
  certificate generated for a host name would be valid for that name and no other, given that the
  parser reads back the names a certificate was signed with.
\<close>

lemma hostname_not_checked:
  "hostname \<noteq> [] \<Longrightarrow> validate_certificate_hostname X509_PARSER parse_san cert_der hostname = Inr ()"
  by (simp add: validate_certificate_hostname_def X509_PARSER_def)

lemma generated_certificate_matches:
  assumes "\<And>params key w der w'. self_signed L params key w = (Inr der, w') \<Longrightarrow> parse_san der = San_Names (cp_subject_alt_names params)"
    and "generate_self_signed_for_hostname L hostname w = (Inr (cert_der, key_der), w')"
  shows "validate_certificate_hostname True parse_san cert_der other = Inr () \<longleftrightarrow> other = hostname"
  using assms(2)
  by (auto simp: generate_self_signed_for_hostname_def sign_params_def validate_certificate_hostname_def
      dest!: assms(1) split: prod.splits sum.splits if_splits)

end
