(* ===== verification/Presentation.thy ===== *)
theory Presentation
  imports Wire_Record
begin

text \<open>
  Text forms: the \<open>Display\<close> of addresses and \<open>ResourceRecord::rdata_str\<close> of \<open>src/src/dns/types.rs\<close>, which
  the health check, the diagnostic queries and the transports print, and the parser of IPv4 addresses.
\<close>

section \<open>Addresses\<close>

fun show_ipv4 :: "ipv4 \<Rightarrow> string" where
  "show_ipv4 (Ipv4 a b c d) =
     show_nat (unat a) @ ''.'' @ show_nat (unat b) @ ''.'' @ show_nat (unat c) @ ''.'' @ show_nat (unat d)"

definition hex_digit :: "nat \<Rightarrow> char" where
  "hex_digit d = (if d < 10 then char_of (48 + d) else char_of (87 + d))"

fun show_hex :: "nat \<Rightarrow> string" where
  "show_hex n = (if n < 16 then [hex_digit n] else show_hex (n div 16) @ [hex_digit (n mod 16)])"

declare show_hex.simps [simp del]

fun segments :: "bytes \<Rightarrow> u16 list" where
  "segments (a # b # bs) = be16 a b # segments bs"
| "segments _ = []"

text \<open>The first longest run of zero segments: \<open>(start, len)\<close>.\<close>

fun longest_zeros :: "u16 list \<Rightarrow> nat \<Rightarrow> nat \<times> nat \<Rightarrow> nat \<times> nat \<Rightarrow> nat \<times> nat" where
  "longest_zeros [] i current longest = longest"
| "longest_zeros (s # ss) i (start, len) longest =
     (if s = 0
      then let current = (if len = 0 then i else start, len + 1) in
        longest_zeros ss (i + 1) current (if snd current > snd longest then current else longest)
      else longest_zeros ss (i + 1) (0, 0) longest)"

definition show_segments :: "u16 list \<Rightarrow> string" where
  "show_segments ss = join_with '':'' (map (\<lambda>s. show_hex (unat s)) ss)"

definition ipv4_mapped :: "bytes \<Rightarrow> ipv4 option" where
  "ipv4_mapped bs =
     (if take 12 bs = replicate 10 0 @ [255, 255] \<and> length bs = 16
      then Some (Ipv4 (bs ! 12) (bs ! 13) (bs ! 14) (bs ! 15)) else None)"

definition show_ipv6 :: "ipv6 \<Rightarrow> string" where
  "show_ipv6 ip =
     (case ipv4_mapped (octets6 ip) of
        Some v4 \<Rightarrow> ''::ffff:'' @ show_ipv4 v4
      | None \<Rightarrow>
          let ss = segments (octets6 ip); (start, len) = longest_zeros ss 0 (0, 0) (0, 0) in
          if len > 1 then show_segments (take start ss) @ ''::'' @ show_segments (drop (start + len) ss)
          else show_segments ss)"

fun show_ip :: "ip_addr \<Rightarrow> string" where
  "show_ip (V4 ip) = show_ipv4 ip"
| "show_ip (V6 ip) = show_ipv6 ip"

section \<open>Parsing IPv4 addresses\<close>

definition digit_value :: "char \<Rightarrow> nat option" where
  "digit_value c = (let n = of_char c in if 48 \<le> n \<and> n \<le> 57 then Some (n - 48) else None)"

fun read_digits :: "string \<Rightarrow> nat \<Rightarrow> nat option" where
  "read_digits [] acc = Some acc"
| "read_digits (c # cs) acc =
     (case digit_value c of Some d \<Rightarrow> read_digits cs (10 * acc + d) | None \<Rightarrow> None)"

text \<open>An octet: one to three digits, no leading zero, at most 255.\<close>

definition read_octet :: "string \<Rightarrow> u8 option" where
  "read_octet s =
     (if s = [] \<or> length s > 3 \<or> (length s > 1 \<and> hd s = CHR ''0'') then None
      else case read_digits s 0 of
             Some n \<Rightarrow> if n \<le> 255 then Some (of_nat n) else None
           | None \<Rightarrow> None)"

definition parse_ipv4 :: "string \<Rightarrow> ipv4 option" where
  "parse_ipv4 s =
     (case map read_octet (split_on CHR ''.'' s) of
        [Some a, Some b, Some c, Some d] \<Rightarrow> Some (Ipv4 a b c d)
      | _ \<Rightarrow> None)"

section \<open>Record data\<close>

definition show_hex_byte :: "u8 \<Rightarrow> string" where
  "show_hex_byte b = [hex_digit (unat b div 16), hex_digit (unat b mod 16)]"

text \<open>\<open>{:02x?}\<close> of a byte vector.\<close>

definition show_hex_bytes :: "bytes \<Rightarrow> string" where
  "show_hex_bytes bs = ''['' @ join_with '', '' (map show_hex_byte bs) @ '']''"

definition show_u16 :: "u16 \<Rightarrow> string" where
  "show_u16 n = show_nat (unat n)"

definition show_raw :: "bytes \<Rightarrow> string" where
  "show_raw rdata =
     (if length rdata \<le> 20 then show_hex_bytes rdata else ''<'' @ show_nat (length rdata) @ '' bytes>'')"

definition rdata_str :: "resource_record \<Rightarrow> string" where
  "rdata_str r =
     (case rr_parsed r of
        Some (RD_A ip) \<Rightarrow> show_ipv4 ip
      | Some (RD_AAAA ip) \<Rightarrow> show_ipv6 ip
      | Some (RD_CNAME target) \<Rightarrow> labels_to_string target
      | Some (RD_NS target) \<Rightarrow> labels_to_string target
      | Some (RD_PTR target) \<Rightarrow> labels_to_string target
      | Some (RD_MX preference exchange) \<Rightarrow> labels_to_string exchange @ '' '' @ show_u16 preference
      | Some (RD_SOA _ _ _ _ _ _ _) \<Rightarrow> ''(SOA)''
      | Some (RD_TXT parts) \<Rightarrow> concat parts
      | Some (RD_SRV priority weight port target) \<Rightarrow>
          show_u16 priority @ '' '' @ show_u16 weight @ '' '' @ show_u16 port @ '' '' @ labels_to_string target
      | Some (RD_RRSIG _ _ _ _ _ _ _ _ _) \<Rightarrow> ''(RRSIG)''
      | Some (RD_DNSKEY _ _ _ _) \<Rightarrow> ''(DNSKEY)''
      | Some (RD_NSEC _ _) \<Rightarrow> ''(NSEC)''
      | Some (RD_DS key_tag algorithm digest_type _) \<Rightarrow>
          ''DS key_tag='' @ show_u16 key_tag @ '' alg='' @ show_nat (unat algorithm) @ '' digest_type='' @
          show_nat (unat digest_type)
      | _ \<Rightarrow> show_raw (rr_rdata r))"

section \<open>Round trip of IPv4 addresses\<close>

lemma read_digits_append:
  "read_digits (xs @ ys) acc = (case read_digits xs acc of Some n \<Rightarrow> read_digits ys n | None \<Rightarrow> None)"
  by (induction xs arbitrary: acc) (auto split: option.split)

lemma digit_value_shown: "d < 10 \<Longrightarrow> digit_value (char_of (48 + d)) = Some d"
  by (simp add: digit_value_def Let_def of_char_of)

lemma read_shown: "read_digits (show_nat n) 0 = Some n"
proof (induction n rule: show_nat.induct)
  case (1 n)
  then show ?case
    by (cases "n < 10") (simp_all add: show_nat.simps [of n] read_digits_append digit_value_shown)
qed

lemma show_nat_head: "show_nat n \<noteq> [] \<and> (hd (show_nat n) = CHR ''0'' \<longrightarrow> n = 0)"
proof (induction n rule: show_nat.induct)
  case (1 n)
  show ?case
  proof (cases "n < 10")
    case True
    moreover have "char_of (48 + n) = CHR ''0'' \<Longrightarrow> n = 0"
      using digit_value_shown [OF True] by (simp add: digit_value_def)
    ultimately show ?thesis by (simp add: show_nat.simps [of n])
  next
    case False
    with 1 show ?thesis by (auto simp: show_nat.simps [of n] div_eq_0_iff)
  qed
qed

lemma show_nat_length: "n < 1000 \<Longrightarrow> length (show_nat n) \<le> 3 \<and> (length (show_nat n) > 1 \<longrightarrow> n \<ge> 10)"
  by (simp add: show_nat.simps [of n] show_nat.simps [of "n div 10"] show_nat.simps [of "n div 10 div 10"])

lemma show_nat_dot: "CHR ''.'' \<notin> set (show_nat n)"
proof
  assume "CHR ''.'' \<in> set (show_nat n)"
  from show_nat_digits [OF this] obtain d where "d < 10" "CHR ''.'' = char_of (48 + d :: nat)" by blast
  then have "digit_value CHR ''.'' = Some d" using digit_value_shown by simp
  then show False by (simp add: digit_value_def)
qed

lemma read_shown_octet: "read_octet (show_nat (unat b)) = Some b"
proof -
  have "unat b \<le> 255" using unat_u8_less [of b] by linarith
  with show_nat_length [of "unat b"] show_nat_head [of "unat b"] show ?thesis
    by (auto simp: read_octet_def read_shown)
qed

lemma parse_shown_ipv4: "parse_ipv4 (show_ipv4 ip) = Some ip"
proof (cases ip)
  case (Ipv4 a b c d)
  let ?ps = "map (\<lambda>x. show_nat (unat x)) [a, b, c, d]"
  have "show_ipv4 ip = join_with ''.'' ?ps" by (simp add: Ipv4)
  then have "split_on CHR ''.'' (show_ipv4 ip) = ?ps"
    using split_on_join [of ?ps "CHR ''.''"] show_nat_dot by simp
  then show ?thesis by (simp add: parse_ipv4_def read_shown_octet Ipv4)
qed

end
