(* ===== verification/Transport.thy ===== *)
theory Transport
  imports Presentation Server_Tcp Actions
begin

text \<open>
  The encrypted transports: \<open>src/src/transport/mod.rs\<close>, \<open>src/src/transport/doh.rs\<close> and
  \<open>src/src/transport/dot.rs\<close>.  The HTTP client and the TLS library are arguments, records of the operations
  the code calls over a state \<open>'w\<close> of the outside world; an operation under a timeout gives \<open>Timeout\<close>, the
  error's text or its result.  The \<open>Debug\<close> form of the last error is the argument \<open>debug\<close>.
\<close>

section \<open>Transports\<close>

datatype TransportSource = Source_Udp ip_addr | Source_DoH | Source_DoT

datatype TransportProtocol = Protocol_Udp | Protocol_DoH | Protocol_DoT

record dns_response =
  dr_raw_data :: bytes
  dr_source :: TransportSource
  dr_rtt :: nat

datatype 'x timed = Timeout | Failed string | Done 'x

definition within :: "dns_error \<Rightarrow> (string \<Rightarrow> dns_error) \<Rightarrow> 'x timed \<Rightarrow> 'x dns_result" where
  "within late wrong r = (case r of Timeout \<Rightarrow> Err late | Failed e \<Rightarrow> Err (wrong e) | Done x \<Rightarrow> Ok x)"

definition on_wire :: "('w \<Rightarrow> 'x \<times> 'w) \<Rightarrow> ('w, 'x) act" where
  "on_wire f w = (let (x, w) = f w in (Ok x, w))"

section \<open>DNS over HTTPS\<close>

definition CLOUDFLARE_DOH :: string where "CLOUDFLARE_DOH = ''https://cloudflare-dns.com/dns-query''"
definition GOOGLE_DOH :: string where "GOOGLE_DOH = ''https://dns.google/dns-query''"
definition QUAD9_DOH :: string where "QUAD9_DOH = ''https://dns.quad9.net/dns-query''"

text \<open>
  \<open>post\<close> sends a body with its headers to a URL; a response has a status and a body, whose reading can
  fail too.
\<close>

record 'w http_ops =
  http_post :: "string \<Rightarrow> (string \<times> string) list \<Rightarrow> bytes \<Rightarrow> 'w \<Rightarrow> (string + nat \<times> (string + bytes)) \<times> 'w"
  http_status_text :: "nat \<Rightarrow> string"

definition doh_headers :: "(string \<times> string) list" where
  "doh_headers = [(''Content-Type'', ''application/dns-message''), (''Accept'', ''application/dns-message'')]"

definition is_success :: "nat \<Rightarrow> bool" where
  "is_success status \<longleftrightarrow> 200 \<le> status \<and> status < 300"

definition doh_query :: "'w http_ops \<Rightarrow> bytes \<Rightarrow> string \<Rightarrow> ('w, bytes) act" where
  "doh_query H query_bytes endpoint =
     act_bind (on_wire (http_post H endpoint doh_headers query_bytes)) (\<lambda>response.
       act_lift (case response of
         Inl e \<Rightarrow> Err (Transport (''DoH request failed: '' @ e))
       | Inr (status, body) \<Rightarrow>
           if \<not> is_success status
           then Err (Transport (''DoH server returned HTTP '' @ http_status_text H status))
           else (case body of
                   Inl e \<Rightarrow> Err (Transport (''DoH response read failed: '' @ e))
                 | Inr response_bytes \<Rightarrow> Ok response_bytes)))"

text \<open>The loop over the endpoints: the first response, or the last error.\<close>

fun first_response ::
  "('e \<Rightarrow> ('w, bytes) act) \<Rightarrow> 'e list \<Rightarrow> dns_error option \<Rightarrow> ('w, dns_error option + bytes) act" where
  "first_response query [] last_error = act_return (Inl last_error)"
| "first_response query (endpoint # endpoints) last_error =
     act_bind (act_try (query endpoint)) (\<lambda>r.
       case r of
         Inr response \<Rightarrow> act_return (Inr response)
       | Inl e \<Rightarrow> first_response query endpoints (Some e))"

definition doh_query_with_fallback ::
  "'w http_ops \<Rightarrow> (dns_error option \<Rightarrow> string) \<Rightarrow> bytes \<Rightarrow> ('w, bytes) act" where
  "doh_query_with_fallback H debug query_bytes =
     act_bind (first_response (doh_query H query_bytes) [CLOUDFLARE_DOH, GOOGLE_DOH, QUAD9_DOH] None) (\<lambda>r.
       act_lift (case r of
         Inr response \<Rightarrow> Ok response
       | Inl last_error \<Rightarrow> Err (Transport (''All DoH endpoints failed: '' @ debug last_error))))"

text \<open>The same as the operation the resolver falls back to: an error by its text.\<close>

definition doh_fallback ::
  "'w http_ops \<Rightarrow> (dns_error option \<Rightarrow> string) \<Rightarrow> bytes \<Rightarrow> 'w \<Rightarrow> (string + bytes) \<times> 'w" where
  "doh_fallback H debug query_bytes w =
     (case doh_query_with_fallback H debug query_bytes w of
        (Ok response, w) \<Rightarrow> (Inr response, w)
      | (Err e, w) \<Rightarrow> (Inl (dns_error_display e), w)
      | (_, w) \<Rightarrow> (Inl [], w))"

section \<open>DNS over TLS\<close>

definition CLOUDFLARE_DOT :: "string \<times> string" where "CLOUDFLARE_DOT = (''1.1.1.1'', ''cloudflare-dns.com'')"
definition GOOGLE_DOT :: "string \<times> string" where "GOOGLE_DOT = (''8.8.8.8'', ''dns.google'')"
definition QUAD9_DOT :: "string \<times> string" where "QUAD9_DOT = (''9.9.9.9'', ''dns.quad9.net'')"

definition DOT_PORT :: u16 where "DOT_PORT = 853"

record ('t, 'w) tls_ops =
  tls_server_name :: "string \<Rightarrow> string option" \<comment> \<open>the error of a name that is not valid\<close>
  tls_connect :: "string \<Rightarrow> 'w \<Rightarrow> 't timed \<times> 'w"
  tls_handshake :: "string \<Rightarrow> 't \<Rightarrow> 'w \<Rightarrow> 't timed \<times> 'w"
  tls_write :: "bytes \<Rightarrow> 't \<Rightarrow> 'w \<Rightarrow> unit timed \<times> 'w"
  tls_read :: "nat \<Rightarrow> 't \<Rightarrow> 'w \<Rightarrow> bytes timed \<times> 'w"

definition wrap_dns_tcp :: "bytes \<Rightarrow> bytes" where
  "wrap_dns_tcp query = bytes_of_u16 (of_nat (length query)) @ query"

definition dot_query :: "('t, 'w) tls_ops \<Rightarrow> bytes \<Rightarrow> ip_addr \<Rightarrow> string \<Rightarrow> ('w, bytes) act" where
  "dot_query D query_bytes server hostname =
     (let addr = show_ip server @ '':'' @ show_u16 DOT_PORT in
      act_bind (act_lift (case tls_server_name D hostname of
          None \<Rightarrow> Ok ()
        | Some e \<Rightarrow> Err (Transport (''Invalid DoT hostname '' @ [CHR 0x27] @ hostname @ [CHR 0x27] @ '': '' @ e)))) (\<lambda>_.
      act_bind (on_wire (tls_connect D addr)) (\<lambda>r.
      act_bind (act_lift (within (Transport (''DoT connection to '' @ addr @ '' timed out''))
          (\<lambda>e. Transport (''DoT connection failed: '' @ e)) r)) (\<lambda>stream.
      act_bind (on_wire (tls_handshake D hostname stream)) (\<lambda>r.
      act_bind (act_lift (within (Transport (''DoT TLS handshake to '' @ hostname @ '' timed out''))
          (\<lambda>e. Transport (''DoT TLS handshake failed: '' @ e)) r)) (\<lambda>tls_stream.
      act_bind (on_wire (tls_write D (wrap_dns_tcp query_bytes) tls_stream)) (\<lambda>r.
      act_bind (act_lift (within (Transport ''DoT send timed out'')
          (\<lambda>e. Transport (''DoT send failed: '' @ e)) r)) (\<lambda>_.
      act_bind (on_wire (tls_read D 2 tls_stream)) (\<lambda>r.
      act_bind (act_lift (within (Transport ''DoT response length read timed out'')
          (\<lambda>e. Transport (''DoT response length read failed: '' @ e)) r)) (\<lambda>len_buf.
        let response_len = unat (be16 (len_buf ! 0) (len_buf ! 1)) in
        if response_len > 65535
        then act_lift (Err (Transport (''DoT response too large: '' @ show_nat response_len @ '' bytes'')))
        else
          act_bind (on_wire (tls_read D response_len tls_stream)) (\<lambda>r.
          act_lift (within (Transport ''DoT response data read timed out'')
            (\<lambda>e. Transport (''DoT response data read failed: '' @ e)) r))))))))))))"

text \<open>The addresses of the table are IPv4; an entry that does not parse is skipped.\<close>

fun dot_responses ::
  "('t, 'w) tls_ops \<Rightarrow> bytes \<Rightarrow> (string \<times> string) list \<Rightarrow> dns_error option \<Rightarrow> ('w, dns_error option + bytes) act" where
  "dot_responses D query_bytes [] last_error = act_return (Inl last_error)"
| "dot_responses D query_bytes ((ip_str, hostname) # servers) last_error =
     (case parse_ipv4 ip_str of
        None \<Rightarrow> dot_responses D query_bytes servers last_error
      | Some ip \<Rightarrow>
          act_bind (act_try (dot_query D query_bytes (V4 ip) hostname)) (\<lambda>r.
            case r of
              Inr response \<Rightarrow> act_return (Inr response)
            | Inl e \<Rightarrow> dot_responses D query_bytes servers (Some e)))"

definition dot_query_with_fallback ::
  "('t, 'w) tls_ops \<Rightarrow> (dns_error option \<Rightarrow> string) \<Rightarrow> bytes \<Rightarrow> ('w, bytes) act" where
  "dot_query_with_fallback D debug query_bytes =
     act_bind (dot_responses D query_bytes [CLOUDFLARE_DOT, GOOGLE_DOT, QUAD9_DOT] None) (\<lambda>r.
       act_lift (case r of
         Inr response \<Rightarrow> Ok response
       | Inl last_error \<Rightarrow> Err (Transport (''All DoT endpoints failed: '' @ debug last_error))))"

section \<open>Fallback\<close>

text \<open>The state after the queries to all of the endpoints have failed, one after another.\<close>

fun all_fail :: "('e \<Rightarrow> ('w, bytes) act) \<Rightarrow> 'e list \<Rightarrow> 'w \<Rightarrow> 'w option" where
  "all_fail query [] w = Some w"
| "all_fail query (endpoint # endpoints) w =
     (case query endpoint w of (Err e, w) \<Rightarrow> all_fail query endpoints w | _ \<Rightarrow> None)"

definition answers_after ::
  "('e \<Rightarrow> ('w, bytes) act) \<Rightarrow> 'e list \<Rightarrow> 'w \<Rightarrow> bytes \<Rightarrow> 'w \<Rightarrow> bool" where
  "answers_after query endpoints w b w' \<longleftrightarrow>
     (\<exists>tried endpoint rest w1. endpoints = tried @ endpoint # rest \<and> all_fail query tried w = Some w1 \<and>
        query endpoint w1 = (Ok b, w'))"

lemma answers_after_Nil [simp]: "\<not> answers_after query [] w b w'"
  by (simp add: answers_after_def)

lemma answers_after_Cons:
  "answers_after query (endpoint # endpoints) w b w' \<longleftrightarrow>
     query endpoint w = (Ok b, w') \<or> (\<exists>e w1. query endpoint w = (Err e, w1) \<and> answers_after query endpoints w1 b w')"
  (is "?l \<longleftrightarrow> ?r")
proof
  assume ?l
  then obtain tried ep rest w1 where *: "endpoint # endpoints = tried @ ep # rest" "all_fail query tried w = Some w1"
    "query ep w1 = (Ok b, w')" unfolding answers_after_def by blast
  show ?r
  proof (cases tried)
    case (Cons x xs)
    with * obtain e w2 where "query endpoint w = (Err e, w2)" "all_fail query xs w2 = Some w1"
      by (auto split: prod.splits outcome.splits)
    with * Cons show ?thesis unfolding answers_after_def by auto
  qed (use * in simp)
next
  assume ?r
  then show ?l
  proof
    assume "query endpoint w = (Ok b, w')"
    then show ?l unfolding answers_after_def by (intro exI [of _ "[]"]) simp
  next
    assume "\<exists>e w1. query endpoint w = (Err e, w1) \<and> answers_after query endpoints w1 b w'"
    then obtain e w1 tried ep rest w2 where *: "query endpoint w = (Err e, w1)" "endpoints = tried @ ep # rest"
      "all_fail query tried w1 = Some w2" "query ep w2 = (Ok b, w')" unfolding answers_after_def by blast
    then have "all_fail query (endpoint # tried) w = Some w2" by simp
    with * show ?l unfolding answers_after_def by (metis append_Cons)
  qed
qed

lemma first_response_Inr:
  "first_response query endpoints last_error w = (Ok (Inr b), w') \<longleftrightarrow> answers_after query endpoints w b w'"
  by (induction endpoints arbitrary: last_error w)
    (auto simp: answers_after_Cons act_bind_def act_try_def act_return_def split: outcome.splits prod.splits)

lemma first_response_Inl:
  "first_response query endpoints last_error w = (Ok (Inl e), w') \<Longrightarrow> all_fail query endpoints w = Some w'"
  by (induction endpoints arbitrary: last_error w)
    (auto simp: act_bind_def act_try_def act_return_def split: outcome.splits prod.splits)

lemma fallback_Ok:
  "act_bind (first_response query endpoints None) (\<lambda>r. act_lift (case r of Inr b \<Rightarrow> Ok b | Inl e \<Rightarrow> Err (f e))) w = (Ok b, w') \<longleftrightarrow>
     answers_after query endpoints w b w'"
proof (cases "first_response query endpoints None w")
  case (Pair r w1)
  show ?thesis
    unfolding first_response_Inr [of query endpoints None, symmetric]
    by (cases r) (auto simp: Pair act_bind_def act_lift_def split: sum.split)
qed

definition dot_servers :: "(ip_addr \<times> string) list" where
  "dot_servers =
     [(V4 (Ipv4 1 1 1 1), ''cloudflare-dns.com''), (V4 (Ipv4 8 8 8 8), ''dns.google''), (V4 (Ipv4 9 9 9 9), ''dns.quad9.net'')]"

lemma dot_responses_servers:
  "dot_responses D query_bytes [CLOUDFLARE_DOT, GOOGLE_DOT, QUAD9_DOT] last_error =
     first_response (\<lambda>(ip, hostname). dot_query D query_bytes ip hostname) dot_servers last_error"
proof -
  have "parse_ipv4 ''1.1.1.1'' = Some (Ipv4 1 1 1 1)" "parse_ipv4 ''8.8.8.8'' = Some (Ipv4 8 8 8 8)"
    "parse_ipv4 ''9.9.9.9'' = Some (Ipv4 9 9 9 9)" by code_simp+
  then show ?thesis by (simp add: CLOUDFLARE_DOT_def GOOGLE_DOT_def QUAD9_DOT_def dot_servers_def)
qed

section \<open>Properties\<close>

text \<open>
  C38. Both transports ask their three servers in order and return the answer of the first one that
  gives any: a response is returned exactly when some server gives it after all servers before it
  have failed.
\<close>

theorem transport_fallback_order:
  "(doh_query_with_fallback H debug query_bytes w = (Ok b, w') \<longleftrightarrow>
      answers_after (doh_query H query_bytes) [CLOUDFLARE_DOH, GOOGLE_DOH, QUAD9_DOH] w b w') \<and>
   (dot_query_with_fallback D debug query_bytes v = (Ok c, v') \<longleftrightarrow>
      answers_after (\<lambda>(ip, hostname). dot_query D query_bytes ip hostname) dot_servers v c v')"
  unfolding doh_query_with_fallback_def dot_query_with_fallback_def dot_responses_servers fallback_Ok by simp

text \<open>
  The length prefix of the DoT client is the length modulo 65536: a receiver that reads frames as
  the TCP server does gets back a query of up to 65535 bytes, and of a longer query only the part its
  wrapped length covers.
\<close>

theorem dot_frame_read:
  assumes "0 < length query mod 65536"
  shows "read_query (idle_stream (wrap_dns_tcp query)) =
     Ok (take (length query mod 65536) query, idle_stream (drop (length query mod 65536) query))"
proof -
  have len: "unat (of_nat (length query) :: u16) = length query mod 65536" by (simp add: unat_of_nat)
  have "length query mod 65536 \<le> 65535" by simp
  with assms show ?thesis
    by (simp add: read_query_def read_exact_def idle_stream_def wrap_dns_tcp_def bytes_of_u16_def MAX_TCP_MESSAGE_def len Let_def)
qed

theorem dot_frame_read_witness:
  "read_query (idle_stream (wrap_dns_tcp [7, 8, 9])) = Ok ([7, 8, 9], idle_stream [])"
  using dot_frame_read [of "[7, 8, 9]"] by simp

end
