(* ===== verification/Health.thy ===== *)
theory Health
  imports Transport Server_Replies
begin

text \<open>
  The health check of \<open>src/src/health.rs\<close>, which asks the running server for the address of a domain.
  Binding the socket, sending and receiving are arguments: the errors of the first two, if any, and
  what is received within two seconds of sending.
\<close>

section \<open>The check\<close>

record health_report =
  hp_ok :: bool
  hp_detail :: string

definition health_message :: "question \<Rightarrow> message" where
  "health_message q =
     \<lparr>m_header = new_query 0x1234 True, m_questions = [q], m_answers = [], m_authorities = [], m_additionals = []\<rparr>"

fun address_text :: "rdata option \<Rightarrow> string option" where
  "address_text (Some (RD_A ip)) = Some (show_ipv4 ip)"
| "address_text (Some (RD_AAAA ip)) = Some (show_ipv6 ip)"
| "address_text _ = None"

definition arrow :: string where
  "arrow = [CHR 0xE2, CHR 0x86, CHR 0x92]"

definition dash :: string where
  "dash = [CHR 0xE2, CHR 0x80, CHR 0x94]"

definition judge_response :: "string \<Rightarrow> string \<Rightarrow> nat \<Rightarrow> message \<Rightarrow> health_report" where
  "judge_response bind_addr domain millis resp =
     (if h_rcode (m_header resp) = 0 then
        let ips = List.map_filter (\<lambda>r. address_text (rr_parsed r)) (m_answers resp);
            detail = (if ips = [] then bind_addr @ '' answered NOERROR in '' @ show_nat millis @ '' ms''
                      else bind_addr @ '' resolved '' @ domain @ '' '' @ arrow @ '' '' @ join_with '', '' ips @ '' in '' @
                        show_nat millis @ '' ms'')
        in \<lparr>hp_ok = True, hp_detail = detail\<rparr>
      else \<lparr>hp_ok = False, hp_detail = bind_addr @ '' answered RCODE='' @ show_nat (unat (h_rcode (m_header resp))) @
              '' in '' @ show_nat millis @ '' ms''\<rparr>)"

definition judge_received ::
  "string \<Rightarrow> string \<Rightarrow> nat \<Rightarrow> bytes timed \<Rightarrow> health_report dns_result" where
  "judge_received bind_addr domain millis received =
     (case received of
        Done datagram \<Rightarrow>
          (case message_from_bytes (take MAX_UDP_PAYLOAD datagram) of
             Ok resp \<Rightarrow> Ok (judge_response bind_addr domain millis resp)
           | Err e \<Rightarrow> Ok \<lparr>hp_ok = False, hp_detail = ''cannot parse response from '' @ bind_addr @ '': '' @ dns_error_display e\<rparr>
           | Panic \<Rightarrow> Panic
           | Diverge \<Rightarrow> Diverge)
      | Failed e \<Rightarrow> Ok \<lparr>hp_ok = False, hp_detail = ''error receiving response from '' @ bind_addr @ '': '' @ e\<rparr>
      | Timeout \<Rightarrow> Ok \<lparr>hp_ok = False, hp_detail = ''timeout after 2000 ms '' @ dash @ '' no response from '' @ bind_addr\<rparr>)"

definition run_healthcheck ::
  "string option \<Rightarrow> (bytes \<Rightarrow> string option) \<Rightarrow> (bytes \<Rightarrow> bytes timed) \<Rightarrow> nat \<Rightarrow> string \<Rightarrow> string \<Rightarrow> health_report dns_result" where
  "run_healthcheck bind_error send_error recv millis bind_addr domain =
     (case bind_error of
        Some e \<Rightarrow> Ok \<lparr>hp_ok = False, hp_detail = ''cannot create socket: '' @ e\<rparr>
      | None \<Rightarrow>
          (case question_new domain 1 1 of
             Ok q \<Rightarrow>
               (case message_to_bytes (health_message q) (replicate MAX_UDP_PAYLOAD 0) of
                  Ok (buf, len) \<Rightarrow>
                    (case send_error (take len buf) of
                       Some e \<Rightarrow> Ok \<lparr>hp_ok = False, hp_detail = ''cannot send query to '' @ bind_addr @ '': '' @ e\<rparr>
                     | None \<Rightarrow> judge_received bind_addr domain millis (recv (take len buf)))
                | Err e \<Rightarrow> Ok \<lparr>hp_ok = False, hp_detail = ''cannot encode query: '' @ dns_error_display e\<rparr>
                | Panic \<Rightarrow> Panic
                | Diverge \<Rightarrow> Diverge)
           | Err e \<Rightarrow> Panic
           | Panic \<Rightarrow> Panic
           | Diverge \<Rightarrow> Diverge))"

section \<open>The check against the server\<close>

text \<open>What the UDP server sends back, as the check receives it: its reply, or nothing.\<close>

definition server_reply :: "'r resolver_ops \<Rightarrow> 'r \<Rightarrow> bytes \<Rightarrow> bytes timed" where
  "server_reply R s data = (case fst (fst (handle_query R data s)) of b # _ \<Rightarrow> Done b | [] \<Rightarrow> Timeout)"

abbreviation check_server_with where
  "check_server_with R s \<equiv> run_healthcheck None (\<lambda>_. None) (server_reply R s)"

lemma check_runs:
  assumes "encode_domain_name domain = Ok n" "length n \<le> 4080"
  shows "check_server_with R s millis bind_addr domain = judge_received bind_addr domain millis
    (server_reply R s (message_wire (health_message \<lparr>q_name = n, q_type = 1, q_class = 1\<rparr>)))"
proof -
  let ?m = "health_message \<lparr>q_name = n, q_type = 1, q_class = 1\<rparr>"
  have "message_to_bytes ?m (replicate MAX_UDP_PAYLOAD 0) =
      Ok (message_wire ?m @ drop (length (message_wire ?m)) (replicate MAX_UDP_PAYLOAD 0), length (message_wire ?m))"
    by (rule message_to_bytes_fits)
      (use assms(2) in \<open>simp_all add: health_message_def sized_message_def message_records_def message_wire_def
         question_wire_def MAX_UDP_PAYLOAD_def\<close>)
  then show ?thesis using assms(1) by (simp add: run_healthcheck_def question_new_def)
qed

lemma check_asks:
  assumes "encode_domain_name domain = Ok n"
  defines "q \<equiv> \<lparr>q_name = n, q_type = 1, q_class = 1\<rparr>"
  shows "handle_query R (message_wire (health_message q)) s =
    udp_respond R (message_wire (health_message q)) ((health_message q)\<lparr>m_header := counted_header (health_message q)\<rparr>) q s"
proof -
  have "wf_message (health_message q)"
    using encode_domain_name_valid [OF assms(1)]
    by (simp add: wf_message_def health_message_def message_records_def wf_header_def new_query_def wf_question_def q_def)
  from decode_message_wire [OF this, of "[]"] show ?thesis
    by (simp add: handle_query_def health_message_def counted_header_def new_query_def)
qed

lemma send_some_set: "b \<in> set (fst (send_some r)) \<longleftrightarrow> r = Ok (Some b)"
  by (cases r rule: send_some.cases) auto

lemma error_reply_rcode:
  assumes "b \<in> set (fst (udp_error data request q e))" "12 \<le> k"
  shows "\<exists>h. header_from_bytes (take k b) = Ok h \<and> h_rcode h \<noteq> 0"
proof -
  have m: "\<exists>h. header_from_bytes (take k b) = Ok h \<and> h_rcode h \<noteq> 0"
    if "encode_message m = Ok b" "response_header (m_header m)" "h_rcode (m_header m) \<noteq> 0" for m
    using encoded_header [OF that(1,2) assms(2)] that(3) by (simp add: counted_header_def)
  have quick: ?thesis if "quick_error_response data (error_rcode e) = Ok (Some b)"
  proof -
    from quick_error_Ok [OF that] obtain qs where "encode_message (quick_message data (error_rcode e) qs) = Ok b" by blast
    then show ?thesis
      by (rule m) (use error_rcode_positive [of e] error_rcode_less [of e] in
        \<open>simp_all add: quick_message_def new_response_def response_header_def word_neq_0_conv\<close>)
  qed
  show ?thesis
  proof (cases e)
    case (NxDomain soa ad)
    with assms(1) have "encode_message (nxdomain_message request q soa ad) = Ok b" by (simp add: udp_error_def send_ok_set)
    then show ?thesis by (rule m) (simp_all add: nxdomain_message_def new_response_def response_header_def)
  qed (use assms(1) quick in \<open>simp_all add: udp_error_def send_some_set\<close>)
qed

lemma answered_check:
  assumes "encode_domain_name domain = Ok n"
    and "resolve_with_ad_op R (labels_to_string n) 1 1 s = (Ok (records, ad), s1)"
  defines "q \<equiv> \<lparr>q_name = n, q_type = 1, q_class = 1\<rparr>"
  shows "handle_query R (message_wire (health_message q)) s =
    (send_try (udp_payload (build_response (counted_header (health_message q)) q records [] False)), s1)"
proof -
  have "\<not> client_wants_dnssec ((health_message q)\<lparr>m_header := h\<rparr>)" for h
    by (simp add: client_wants_dnssec_def health_message_def)
  then show ?thesis
    by (simp add: q_def check_asks [OF assms(1)] assms(2) udp_respond_def question_name_str_def answer_additionals_def)
qed

lemma failed_check:
  assumes "encode_domain_name domain = Ok n"
    and "resolve_with_ad_op R (labels_to_string n) 1 1 s = (Err e, s1)"
  defines "q \<equiv> \<lparr>q_name = n, q_type = 1, q_class = 1\<rparr>"
  shows "\<exists>request. handle_query R (message_wire (health_message q)) s =
    (udp_error (message_wire (health_message q)) request q e, s1)"
  by (auto simp: q_def check_asks [OF assms(1)] assms(2) udp_respond_def question_name_str_def)

lemma healthy_check:
  assumes "encode_domain_name domain = Ok n" "length n \<le> 4080"
    and "resolve_with_ad_op R (labels_to_string n) 1 1 s = (Ok (records, ad), s1)"
  defines "m \<equiv> build_response (counted_header (health_message \<lparr>q_name = n, q_type = 1, q_class = 1\<rparr>))
    \<lparr>q_name = n, q_type = 1, q_class = 1\<rparr> records [] False"
  assumes sized: "sized_message m" and fits: "length (message_wire m) \<le> MAX_UDP_PAYLOAD"
    and resp: "decode_message (message_wire m) = Ok resp"
  shows "\<exists>detail. check_server_with R s millis bind_addr domain = Ok \<lparr>hp_ok = True, hp_detail = detail\<rparr>"
proof -
  have "handle_query R (message_wire (health_message \<lparr>q_name = n, q_type = 1, q_class = 1\<rparr>)) s = (([message_wire m], Ok ()), s1)"
    using assms(3) udp_payload_cases(1) [OF sized] fits by (simp add: answered_check [OF assms(1), of R s records ad s1] m_def)
  then have "server_reply R s (message_wire (health_message \<lparr>q_name = n, q_type = 1, q_class = 1\<rparr>)) = Done (message_wire m)"
    by (simp add: server_reply_def)
  moreover have "h_rcode (m_header resp) = 0"
  proof -
    have c: "response_header (counted_header m)" "h_rcode (counted_header m) = 0"
      by (simp_all add: m_def counted_header_def new_response_def response_header_def)
    have "header_from_bytes (message_wire m) = Ok (m_header resp)" using decode_message_Ok [OF resp] by blast
    then have "(counted_header m)\<lparr>h_z := 2\<rparr> = m_header resp"
      using response_header_from_wire [OF c(1)] by (simp add: message_wire_def)
    then have "h_rcode (m_header resp) = h_rcode ((counted_header m)\<lparr>h_z := 2\<rparr>)" by simp
    with c(2) show ?thesis by simp
  qed
  ultimately show ?thesis
    using fits resp
    by (simp add: check_runs [OF assms(1,2)] judge_received_def judge_response_def decode_message_def Let_def)
qed

lemma unhealthy_check:
  assumes "encode_domain_name domain = Ok n" "length n \<le> 4080"
    and "resolve_with_ad_op R (labels_to_string n) 1 1 s = (Err e, s1)"
  shows "\<not> (\<exists>detail. check_server_with R s millis bind_addr domain = Ok \<lparr>hp_ok = True, hp_detail = detail\<rparr>)"
proof -
  let ?q = "\<lparr>q_name = n, q_type = 1, q_class = 1\<rparr>"
  obtain request where h: "handle_query R (message_wire (health_message ?q)) s =
      (udp_error (message_wire (health_message ?q)) request ?q e, s1)"
    using failed_check [OF assms(1), of R s e s1] assms(3) by auto
  show "\<not> (\<exists>detail. check_server_with R s millis bind_addr domain = Ok \<lparr>hp_ok = True, hp_detail = detail\<rparr>)"
  proof (cases "fst (udp_error (message_wire (health_message ?q)) request ?q e)")
    case Nil
    then show ?thesis by (simp add: check_runs [OF assms(1,2)] server_reply_def h judge_received_def)
  next
    case (Cons b bs)
    then obtain hd where hd: "header_from_bytes (take MAX_UDP_PAYLOAD b) = Ok hd" "h_rcode hd \<noteq> 0"
      using error_reply_rcode [of b "message_wire (health_message ?q)" request ?q e MAX_UDP_PAYLOAD]
      by (auto simp: MAX_UDP_PAYLOAD_def)
    then have "h_rcode (m_header resp) \<noteq> 0" if "message_from_bytes (take MAX_UDP_PAYLOAD b) = Ok resp" for resp
      using decode_message_Ok [of "take MAX_UDP_PAYLOAD b" resp] that by (auto simp: decode_message_def)
    then show ?thesis
      by (auto simp: check_runs [OF assms(1,2)] server_reply_def h Cons judge_received_def judge_response_def split: outcome.splits)
  qed
qed

section \<open>Properties\<close>


definition failing_resolver :: "unit resolver_ops" where
  "failing_resolver =
     \<lparr>resolve_with_ad_op = (\<lambda>name rtype rclass s. (Err UnexpectedEof, s)), resolve_dnssec_op = (\<lambda>name rtype rclass s. ([], s))\<rparr>"


lemma healthcheck_panics: "check_server_with R s millis bind_addr ''a..b'' = Panic"
proof -
  have "\<exists>e. encode_domain_name ''a..b'' = Err e" by (rule exI [of _ "InvalidLabel ''empty label in domain name''"]) code_simp
  then show ?thesis by (auto simp: run_healthcheck_def question_new_def)
qed

end
