(* ===== verification/Service.thy ===== *)
theory Service
  imports Presentation Config
begin

text \<open>
  The macOS service of \<open>src/src/main.rs\<close>: the launchd property list that \<open>generate_plist\<close> writes for a
  configuration, and the command line of the daemon it starts.  The \<open>Cli\<close> struct is the table of its
  options; matching arguments with it is clap's part: an option with a value takes the next argument,
  which must not begin with a hyphen, and an argument that is no option is an error.
\<close>

section \<open>Escaping\<close>

definition replace_char :: "char \<Rightarrow> string \<Rightarrow> string \<Rightarrow> string" where
  "replace_char c t s = concat (map (\<lambda>x. if x = c then t else [x]) s)"

definition apostrophe :: char where "apostrophe = CHR 0x27"
definition newline :: char where "newline = CHR 0x0A"

definition escape_xml :: "string \<Rightarrow> string" where
  "escape_xml s =
     replace_char apostrophe ''&apos;''
       (replace_char CHR 0x22 ''&quot;''
         (replace_char CHR ''>'' ''&gt;''
           (replace_char CHR ''<'' ''&lt;''
             (replace_char CHR ''&'' ''&amp;'' s))))"

section \<open>The property list\<close>

definition program_arguments :: "fastdns_config \<Rightarrow> string list" where
  "program_arguments config =
     [''/usr/local/bin/fastdns'', ''-b'', f_bind config, ''-c'', show_nat (f_cache_size config)] @
     (if f_dnssec config then [''--dnssec''] else []) @
     (if f_ipv6 config then [''--ipv6''] else []) @
     (case f_upstream config of
        Some up \<Rightarrow> [''--upstream'', up] @
          (if f_doh config then [''--doh''] else if f_dot config then [''--dot''] else [])
      | None \<Rightarrow> []) @
     (if f_blocklist_mode config \<noteq> ''none'' then [''--blocklist-mode'', f_blocklist_mode config] else []) @
     (if f_api_bind config \<noteq> [] then [''--api-bind'', f_api_bind config] else []) @
     (if f_metrics config then [''--metrics''] else []) @
     (if f_log_file config \<noteq> [] then [''--log-file'', f_log_file config] else []) @
     (if f_log_level config \<noteq> ''info'' then [''--log-level'', f_log_level config] else []) @
     (if f_rate_limit_qps config \<noteq> 100
      then [''--rate-limit-qps'', show_nat (unat (f_rate_limit_qps config))] else [])"

definition text_lines :: "string list \<Rightarrow> string" where
  "text_lines ls = concat (map (\<lambda>l. l @ [newline]) ls)"

definition plist_head :: string where
  \<open>plist_head = text_lines
     [''<?xml version="1.0" encoding="UTF-8"?>'',
      ''<!DOCTYPE plist PUBLIC "-//Apple//DTD PLIST 1.0//EN"'',
      ''  "http://www.apple.com/DTDs/PropertyList-1.0.dtd">'',
      ''<plist version="1.0">'',
      ''<dict>'',
      ''    <key>Label</key>'',
      ''    <string>com.fastdns.daemon</string>'',
      ''    <key>ProgramArguments</key>'',
      ''    <array>'']\<close>

definition plist_argument :: "string \<Rightarrow> string" where
  "plist_argument arg = ''        <string>'' @ escape_xml arg @ ''</string>'' @ [newline]"

definition plist_tail :: string where
  \<open>plist_tail = text_lines
     [''    </array>'',
      ''    <key>KeepAlive</key>'',
      ''    <dict>'',
      ''        <key>Crashed</key>'',
      ''        <true/>'',
      ''    </dict>'',
      ''    <key>RunAtLoad</key>'',
      ''    <true/>'',
      ''    <key>UserName</key>'',
      ''    <string>root</string>'',
      ''    <key>StandardOutPath</key>'',
      ''    <string>/var/log/fastdns.log</string>'',
      ''    <key>StandardErrorPath</key>'',
      ''    <string>/var/log/fastdns.error.log</string>'',
      ''    <key>EnvironmentVariables</key>'',
      ''    <dict>'',
      ''        <key>RUST_BACKTRACE</key>'',
      ''        <string>1</string>'',
      ''    </dict>'',
      ''    <key>ThrottleInterval</key>'',
      ''    <integer>5</integer>'',
      ''    <key>WatchPaths</key>'',
      ''    <array>'',
      ''        <string>/etc/resolv.conf</string>'',
      ''    </array>'',
      ''</dict>'',
      ''</plist>'']\<close>

definition plist_text :: "fastdns_config \<Rightarrow> string" where
  "plist_text config = plist_head @ concat (map plist_argument (program_arguments config)) @ plist_tail"

section \<open>The command line\<close>

record cli =
  c_config :: string
  c_bind :: "string option"
  c_ipv6 :: bool
  c_dnssec :: bool
  c_no_prefetch :: bool
  c_cache_size :: "nat option"
  c_verbose :: bool
  c_upstream :: "string option"
  c_doh :: bool
  c_dot :: bool
  c_blocklist_mode :: "string option"
  c_log_file :: "string option"
  c_log_level :: "string option"
  c_api_bind :: "string option"
  c_metrics :: bool
  c_query :: "string option"
  c_query_type :: string
  c_install_service :: bool
  c_uninstall_service :: bool
  c_healthcheck :: bool
  c_healthcheck_domain :: string

definition cli_defaults :: cli where
  "cli_defaults =
     \<lparr>c_config = ''fastdns.toml'', c_bind = None, c_ipv6 = False, c_dnssec = False, c_no_prefetch = False,
      c_cache_size = None, c_verbose = False, c_upstream = None, c_doh = False, c_dot = False,
      c_blocklist_mode = None, c_log_file = None, c_log_level = None, c_api_bind = None, c_metrics = False,
      c_query = None, c_query_type = ''A'', c_install_service = False, c_uninstall_service = False,
      c_healthcheck = False, c_healthcheck_domain = ''google.com''\<rparr>"

definition cli_flags :: "(string \<times> (cli \<Rightarrow> cli)) list" where
  "cli_flags =
     [(''-6'', c_ipv6_update (\<lambda>_. True)), (''--ipv6'', c_ipv6_update (\<lambda>_. True)),
      (''-d'', c_dnssec_update (\<lambda>_. True)), (''--dnssec'', c_dnssec_update (\<lambda>_. True)),
      (''--no-prefetch'', c_no_prefetch_update (\<lambda>_. True)),
      (''-v'', c_verbose_update (\<lambda>_. True)), (''--verbose'', c_verbose_update (\<lambda>_. True)),
      (''--doh'', c_doh_update (\<lambda>_. True)), (''--dot'', c_dot_update (\<lambda>_. True)),
      (''--metrics'', c_metrics_update (\<lambda>_. True)),
      (''--install-service'', c_install_service_update (\<lambda>_. True)),
      (''--uninstall-service'', c_uninstall_service_update (\<lambda>_. True)),
      (''--healthcheck'', c_healthcheck_update (\<lambda>_. True))]"

definition parse_usize :: "string \<Rightarrow> nat option" where
  "parse_usize s =
     (if s = [] then None
      else case read_digits s 0 of Some n \<Rightarrow> if n < 2 ^ 64 then Some n else None | None \<Rightarrow> None)"

definition cli_values :: "(string \<times> (string \<Rightarrow> cli \<Rightarrow> cli option)) list" where
  "cli_values =
     [(''-f'', \<lambda>v c. Some (c\<lparr>c_config := v\<rparr>)), (''--config'', \<lambda>v c. Some (c\<lparr>c_config := v\<rparr>)),
      (''-b'', \<lambda>v c. Some (c\<lparr>c_bind := Some v\<rparr>)), (''--bind'', \<lambda>v c. Some (c\<lparr>c_bind := Some v\<rparr>)),
      (''-c'', \<lambda>v c. map_option (\<lambda>n. c\<lparr>c_cache_size := Some n\<rparr>) (parse_usize v)),
      (''--cache-size'', \<lambda>v c. map_option (\<lambda>n. c\<lparr>c_cache_size := Some n\<rparr>) (parse_usize v)),
      (''-u'', \<lambda>v c. Some (c\<lparr>c_upstream := Some v\<rparr>)), (''--upstream'', \<lambda>v c. Some (c\<lparr>c_upstream := Some v\<rparr>)),
      (''--blocklist-mode'', \<lambda>v c. Some (c\<lparr>c_blocklist_mode := Some v\<rparr>)),
      (''--log-file'', \<lambda>v c. Some (c\<lparr>c_log_file := Some v\<rparr>)),
      (''--log-level'', \<lambda>v c. Some (c\<lparr>c_log_level := Some v\<rparr>)),
      (''--api-bind'', \<lambda>v c. Some (c\<lparr>c_api_bind := Some v\<rparr>)),
      (''--query'', \<lambda>v c. Some (c\<lparr>c_query := Some v\<rparr>)),
      (''--query-type'', \<lambda>v c. Some (c\<lparr>c_query_type := v\<rparr>)),
      (''--healthcheck-domain'', \<lambda>v c. Some (c\<lparr>c_healthcheck_domain := v\<rparr>))]"

fun parse_cli :: "string list \<Rightarrow> cli \<Rightarrow> cli option" where
  "parse_cli [] c = Some c"
| "parse_cli (arg # args) c =
     (case map_of cli_flags arg of
        Some set_flag \<Rightarrow> parse_cli args (set_flag c)
      | None \<Rightarrow>
          (case map_of cli_values arg of
             None \<Rightarrow> None
           | Some set_value \<Rightarrow>
               (case args of
                  [] \<Rightarrow> None
                | v # args' \<Rightarrow>
                    if starts_with ''-'' v then None
                    else (case set_value v c of None \<Rightarrow> None | Some c' \<Rightarrow> parse_cli args' c'))))"

text \<open>The settings that \<open>main\<close> lets override the configuration.\<close>

definition overrides_of :: "cli \<Rightarrow> cli_overrides" where
  "overrides_of c =
     \<lparr>cli_bind = c_bind c, cli_ipv6 = c_ipv6 c, cli_dnssec = c_dnssec c, cli_no_prefetch = c_no_prefetch c,
      cli_cache_size = c_cache_size c, cli_verbose = c_verbose c, cli_upstream = c_upstream c, cli_doh = c_doh c,
      cli_dot = c_dot c, cli_blocklist_mode = c_blocklist_mode c, cli_log_file = c_log_file c,
      cli_log_level = c_log_level c, cli_api_bind = c_api_bind c, cli_metrics = c_metrics c\<rparr>"

section \<open>Reading it back\<close>

definition xml_entities :: "(string \<times> char) list" where
  "xml_entities =
     [(''&amp;'', CHR ''&''), (''&lt;'', CHR ''<''), (''&gt;'', CHR ''>''), (''&quot;'', CHR 0x22), (''&apos;'', apostrophe)]"

function unescape_xml :: "string \<Rightarrow> string" where
  "unescape_xml [] = []"
| "unescape_xml (c # s) =
     (case find (\<lambda>(entity, x). starts_with entity (c # s)) xml_entities of
        Some (entity, x) \<Rightarrow> x # unescape_xml (drop (length entity - 1) s)
      | None \<Rightarrow> c # unescape_xml s)"
  by pat_completeness auto
termination
  by (relation "measure length") auto

lemma escape_single_pass:
  "escape_xml s = concat (map (\<lambda>c. if c = CHR ''&'' then ''&amp;'' else if c = CHR ''<'' then ''&lt;''
     else if c = CHR ''>'' then ''&gt;'' else if c = CHR 0x22 then ''&quot;'' else if c = apostrophe then ''&apos;'' else [c]) s)"
  by (induction s) (auto simp: escape_xml_def replace_char_def apostrophe_def)

lemma starts_with_amp: "c \<noteq> CHR ''&'' \<Longrightarrow> find (\<lambda>(entity, x). starts_with entity (c # s)) xml_entities = None"
  by (auto simp: xml_entities_def starts_with_def)

lemma unescape_entity:
  "unescape_xml (''&amp;'' @ s) = CHR ''&'' # unescape_xml s" "unescape_xml (''&lt;'' @ s) = CHR ''<'' # unescape_xml s"
  "unescape_xml (''&gt;'' @ s) = CHR ''>'' # unescape_xml s" "unescape_xml (''&quot;'' @ s) = CHR 0x22 # unescape_xml s"
  "unescape_xml (''&apos;'' @ s) = apostrophe # unescape_xml s"
  by (simp_all add: xml_entities_def starts_with_def)

lemma unescape_escape: "unescape_xml (escape_xml s) = s"
  unfolding escape_single_pass
proof (induction s)
  case (Cons c s)
  then show ?case
    using unescape_entity [simplified] by (simp add: starts_with_amp)
qed simp

lemma escape_no_markup: "c \<in> set (escape_xml s) \<Longrightarrow> c \<noteq> CHR ''<'' \<and> c \<noteq> CHR ''>'' \<and> c \<noteq> CHR 0x22 \<and> c \<noteq> apostrophe"
  unfolding escape_single_pass by (auto simp: apostrophe_def split: if_splits)

text \<open>A reader of the entries of an array of strings: the text up to the next tag, unescaped.\<close>

function read_arguments :: "string \<Rightarrow> string list" where
  "read_arguments s =
     (if starts_with ''        <string>'' s
      then let body = drop 16 s; txt = takeWhile (\<lambda>c. c \<noteq> CHR ''<'') body
           in unescape_xml txt # read_arguments (drop (length txt + 10) body)
      else [])"
  by pat_completeness auto
termination
  by (relation "measure length") (auto simp: starts_with_def neq_Nil_conv intro!: diff_less)

declare read_arguments.simps [simp del]

lemma read_argument: "read_arguments (plist_argument arg @ rest) = arg # read_arguments rest"
proof -
  have "takeWhile (\<lambda>c. c \<noteq> CHR ''<'') (escape_xml arg @ ''</string>'' @ newline # rest) = escape_xml arg"
    using escape_no_markup by (auto simp: takeWhile_append)
  then show ?thesis
    by (subst read_arguments.simps) (simp add: plist_argument_def starts_with_def unescape_escape)
qed

lemma read_tail: "read_arguments plist_tail = []"
  by (subst read_arguments.simps) (simp add: plist_tail_def text_lines_def starts_with_def)

section \<open>Properties\<close>


text \<open>The command line that the arguments of the service stand for, and the settings it leads to.\<close>

definition service_cli :: "fastdns_config \<Rightarrow> cli" where
  "service_cli config = cli_defaults
     \<lparr>c_bind := Some (f_bind config), c_cache_size := Some (f_cache_size config), c_dnssec := f_dnssec config,
      c_ipv6 := f_ipv6 config, c_upstream := f_upstream config,
      c_doh := (f_upstream config \<noteq> None \<and> f_doh config),
      c_dot := (f_upstream config \<noteq> None \<and> \<not> f_doh config \<and> f_dot config),
      c_blocklist_mode := (if f_blocklist_mode config \<noteq> ''none'' then Some (f_blocklist_mode config) else None),
      c_api_bind := (if f_api_bind config \<noteq> [] then Some (f_api_bind config) else None),
      c_metrics := f_metrics config,
      c_log_file := (if f_log_file config \<noteq> [] then Some (f_log_file config) else None),
      c_log_level := (if f_log_level config \<noteq> ''info'' then Some (f_log_level config) else None)\<rparr>"

definition service_config :: "fastdns_config \<Rightarrow> fastdns_config" where
  "service_config config = default_config
     \<lparr>f_bind := f_bind config, f_cache_size := f_cache_size config, f_dnssec := f_dnssec config,
      f_ipv6 := f_ipv6 config, f_upstream := f_upstream config,
      f_doh := (f_upstream config \<noteq> None \<and> f_doh config),
      f_dot := (f_upstream config \<noteq> None \<and> \<not> f_doh config \<and> f_dot config),
      f_blocklist_mode := f_blocklist_mode config, f_api_bind := f_api_bind config, f_metrics := f_metrics config,
      f_log_file := f_log_file config, f_log_level := f_log_level config\<rparr>"

definition plain_values :: "fastdns_config \<Rightarrow> bool" where
  "plain_values config \<longleftrightarrow> f_cache_size config < 2 ^ 64 \<and>
     list_all (\<lambda>v. \<not> starts_with ''-'' v)
       ([f_bind config, f_blocklist_mode config, f_api_bind config, f_log_file config, f_log_level config] @
        (case f_upstream config of Some up \<Rightarrow> [up] | None \<Rightarrow> []))"

text \<open>Each step of merging as an update of one field.\<close>

lemma merge_flag:
  "(if b then c\<lparr>f_ipv6 := True\<rparr> else c) = c\<lparr>f_ipv6 := (b \<or> f_ipv6 c)\<rparr>"
  "(if b then c\<lparr>f_dnssec := True\<rparr> else c) = c\<lparr>f_dnssec := (b \<or> f_dnssec c)\<rparr>"
  "(if b then c\<lparr>f_no_prefetch := True\<rparr> else c) = c\<lparr>f_no_prefetch := (b \<or> f_no_prefetch c)\<rparr>"
  "(if b then c\<lparr>f_verbose := True\<rparr> else c) = c\<lparr>f_verbose := (b \<or> f_verbose c)\<rparr>"
  "(if b then c\<lparr>f_doh := True\<rparr> else c) = c\<lparr>f_doh := (b \<or> f_doh c)\<rparr>"
  "(if b then c\<lparr>f_dot := True\<rparr> else c) = c\<lparr>f_dot := (b \<or> f_dot c)\<rparr>"
  "(if b then c\<lparr>f_metrics := True\<rparr> else c) = c\<lparr>f_metrics := (b \<or> f_metrics c)\<rparr>"
  by simp_all

lemma merge_value:
  "(case v_bind of Some x \<Rightarrow> c\<lparr>f_bind := x\<rparr> | None \<Rightarrow> c) = c\<lparr>f_bind := (case v_bind of Some x \<Rightarrow> x | None \<Rightarrow> f_bind c)\<rparr>"
  "(case v_cache_size of Some x \<Rightarrow> c\<lparr>f_cache_size := x\<rparr> | None \<Rightarrow> c) = c\<lparr>f_cache_size := (case v_cache_size of Some x \<Rightarrow> x | None \<Rightarrow> f_cache_size c)\<rparr>"
  "(case v_upstream of Some x \<Rightarrow> c\<lparr>f_upstream := Some x\<rparr> | None \<Rightarrow> c) = c\<lparr>f_upstream := (case v_upstream of Some x \<Rightarrow> Some x | None \<Rightarrow> f_upstream c)\<rparr>"
  "(case v_blocklist_mode of Some x \<Rightarrow> c\<lparr>f_blocklist_mode := x\<rparr> | None \<Rightarrow> c) = c\<lparr>f_blocklist_mode := (case v_blocklist_mode of Some x \<Rightarrow> x | None \<Rightarrow> f_blocklist_mode c)\<rparr>"
  "(case v_log_file of Some x \<Rightarrow> c\<lparr>f_log_file := x\<rparr> | None \<Rightarrow> c) = c\<lparr>f_log_file := (case v_log_file of Some x \<Rightarrow> x | None \<Rightarrow> f_log_file c)\<rparr>"
  "(case v_log_level of Some x \<Rightarrow> c\<lparr>f_log_level := x\<rparr> | None \<Rightarrow> c) = c\<lparr>f_log_level := (case v_log_level of Some x \<Rightarrow> x | None \<Rightarrow> f_log_level c)\<rparr>"
  "(case v_api_bind of Some x \<Rightarrow> c\<lparr>f_api_bind := x\<rparr> | None \<Rightarrow> c) = c\<lparr>f_api_bind := (case v_api_bind of Some x \<Rightarrow> x | None \<Rightarrow> f_api_bind c)\<rparr>"
  by (simp_all split: option.split)

lemma merge_cli_eq:
  "merge_cli cli c = c
     \<lparr>f_bind := (case cli_bind cli of Some x \<Rightarrow> x | None \<Rightarrow> f_bind c), f_ipv6 := (cli_ipv6 cli \<or> f_ipv6 c),
      f_dnssec := (cli_dnssec cli \<or> f_dnssec c), f_no_prefetch := (cli_no_prefetch cli \<or> f_no_prefetch c),
      f_cache_size := (case cli_cache_size cli of Some x \<Rightarrow> x | None \<Rightarrow> f_cache_size c),
      f_verbose := (cli_verbose cli \<or> f_verbose c),
      f_upstream := (case cli_upstream cli of Some x \<Rightarrow> Some x | None \<Rightarrow> f_upstream c),
      f_doh := (cli_doh cli \<or> f_doh c), f_dot := (cli_dot cli \<or> f_dot c),
      f_blocklist_mode := (case cli_blocklist_mode cli of Some x \<Rightarrow> x | None \<Rightarrow> f_blocklist_mode c),
      f_log_file := (case cli_log_file cli of Some x \<Rightarrow> x | None \<Rightarrow> f_log_file c),
      f_log_level := (case cli_log_level cli of Some x \<Rightarrow> x | None \<Rightarrow> f_log_level c),
      f_api_bind := (case cli_api_bind cli of Some x \<Rightarrow> x | None \<Rightarrow> f_api_bind c),
      f_metrics := (cli_metrics cli \<or> f_metrics c)\<rparr>"
  by (simp add: merge_cli_def Let_def merge_flag merge_value cong: option.case_cong split del: if_split)

lemma service_config_merged: "merge_cli (overrides_of (service_cli config)) default_config = service_config config"
  by (simp add: merge_cli_eq overrides_of_def service_cli_def service_config_def cli_defaults_def default_config_def
      split: option.split)

text \<open>Each group of arguments as an update of the command line.\<close>

lemma parse_flags:
  "parse_cli ((if b then [''--dnssec''] else []) @ args) c = parse_cli args (c\<lparr>c_dnssec := (b \<or> c_dnssec c)\<rparr>)"
  "parse_cli ((if b then [''--ipv6''] else []) @ args) c = parse_cli args (c\<lparr>c_ipv6 := (b \<or> c_ipv6 c)\<rparr>)"
  "parse_cli ((if b then [''--metrics''] else []) @ args) c = parse_cli args (c\<lparr>c_metrics := (b \<or> c_metrics c)\<rparr>)"
  "parse_cli ((if b then [''--doh''] else if b' then [''--dot''] else []) @ args) c =
     parse_cli args (c\<lparr>c_doh := (b \<or> c_doh c), c_dot := (\<not> b \<and> b' \<or> c_dot c)\<rparr>)"
  by (auto simp: cli_flags_def)

lemma parse_values:
  "\<not> starts_with ''-'' v \<Longrightarrow> parse_cli ((if b then [''--blocklist-mode'', v] else []) @ args) c =
     parse_cli args (c\<lparr>c_blocklist_mode := (if b then Some v else c_blocklist_mode c)\<rparr>)"
  "\<not> starts_with ''-'' v \<Longrightarrow> parse_cli ((if b then [''--api-bind'', v] else []) @ args) c =
     parse_cli args (c\<lparr>c_api_bind := (if b then Some v else c_api_bind c)\<rparr>)"
  "\<not> starts_with ''-'' v \<Longrightarrow> parse_cli ((if b then [''--log-file'', v] else []) @ args) c =
     parse_cli args (c\<lparr>c_log_file := (if b then Some v else c_log_file c)\<rparr>)"
  "\<not> starts_with ''-'' v \<Longrightarrow> parse_cli ((if b then [''--log-level'', v] else []) @ args) c =
     parse_cli args (c\<lparr>c_log_level := (if b then Some v else c_log_level c)\<rparr>)"
  "\<not> starts_with ''-'' v \<Longrightarrow> parse_cli (''--upstream'' # v # args) c = parse_cli args (c\<lparr>c_upstream := Some v\<rparr>)"
  "\<not> starts_with ''-'' v \<Longrightarrow> parse_cli (''-b'' # v # args) c = parse_cli args (c\<lparr>c_bind := Some v\<rparr>)"
  by (auto simp: cli_flags_def cli_values_def)

lemma show_nat_plain: "\<not> starts_with ''-'' (show_nat n)"
proof
  assume "starts_with ''-'' (show_nat n)"
  then have "CHR ''-'' \<in> set (show_nat n)" using show_nat_head [of n] by (cases "show_nat n") (auto simp: starts_with_def)
  from show_nat_digits [OF this] obtain d where "d < 10" "CHR ''-'' = char_of (48 + d :: nat)" by blast
  then have "digit_value CHR ''-'' = Some d" using digit_value_shown by simp
  then show False by (simp add: digit_value_def)
qed

lemma parse_cache_size:
  "n < 2 ^ 64 \<Longrightarrow> parse_cli (''-c'' # show_nat n # args) c = parse_cli args (c\<lparr>c_cache_size := Some n\<rparr>)"
  using show_nat_head [of n] by (simp add: cli_flags_def cli_values_def show_nat_plain parse_usize_def read_shown)

lemma parse_rate_limit: "parse_cli (if b then [''--rate-limit-qps'', v] else []) c = (if b then None else Some c)"
  by (simp add: cli_flags_def cli_values_def)

lemma parse_upstream:
  assumes "case up of Some v \<Rightarrow> \<not> starts_with ''-'' v | None \<Rightarrow> True"
  shows "parse_cli ((case up of Some v \<Rightarrow> ''--upstream'' # v # (if b then [''--doh''] else if b' then [''--dot''] else []) | None \<Rightarrow> []) @ args) c =
    parse_cli args (case up of Some v \<Rightarrow> c\<lparr>c_upstream := Some v, c_doh := (b \<or> c_doh c), c_dot := (\<not> b \<and> b' \<or> c_dot c)\<rparr> | None \<Rightarrow> c)"
  using assms by (cases up) (simp_all add: parse_values parse_flags del: parse_cli.simps)



end
