(* ===== verification/Installer.thy ===== *)
theory Installer
  imports Service Blocklist "HOL-Library.State_Monad"
begin

text \<open>
  Installing the service: \<open>src/src/system_dns.rs\<close> and the service management of \<open>src/src/main.rs\<close>, per
  platform.  The operating system is an argument: the operations the code calls, over a state \<open>'w\<close>.
  Messages to the console and waiting are left out.
\<close>

section \<open>The operating system\<close>

text \<open>
  Running a command gives an error, or whether it succeeded (and what it printed); copying, creating and
  writing a file give the error, if any.
\<close>

record 'w os_ops =
  os_status :: "string \<Rightarrow> string list \<Rightarrow> 'w \<Rightarrow> (string + bool) \<times> 'w"
  os_output :: "string \<Rightarrow> string list \<Rightarrow> 'w \<Rightarrow> (string + bool \<times> string) \<times> 'w"
  os_exists :: "string \<Rightarrow> 'w \<Rightarrow> bool"
  os_remove :: "string \<Rightarrow> 'w \<Rightarrow> 'w"
  os_make_dir :: "string \<Rightarrow> 'w \<Rightarrow> 'w"
  os_set_mode :: "string \<Rightarrow> nat \<Rightarrow> 'w \<Rightarrow> 'w"
  os_exe :: "'w \<Rightarrow> string option"
  os_copy :: "string \<Rightarrow> string \<Rightarrow> 'w \<Rightarrow> string option \<times> 'w"
  os_create :: "string \<Rightarrow> 'w \<Rightarrow> string option \<times> 'w"
  os_write :: "string \<Rightarrow> string \<Rightarrow> 'w \<Rightarrow> string option \<times> 'w"

definition status_of :: "'w os_ops \<Rightarrow> string \<Rightarrow> string list \<Rightarrow> ('w, string + bool) state" where
  "status_of os command args = State (os_status os command args)"

definition output_of :: "'w os_ops \<Rightarrow> string \<Rightarrow> string list \<Rightarrow> ('w, string + bool \<times> string) state" where
  "output_of os command args = State (os_output os command args)"

definition exists_file :: "'w os_ops \<Rightarrow> string \<Rightarrow> ('w, bool) state" where
  "exists_file os path = State (\<lambda>w. (os_exists os path w, w))"

definition effect :: "('w \<Rightarrow> 'w) \<Rightarrow> ('w, unit) state" where
  "effect f = State (\<lambda>w. ((), f w))"

text \<open>\<open>let _ = Command::new(..).status()\<close>.\<close>

definition ignore_status :: "'w os_ops \<Rightarrow> string \<Rightarrow> string list \<Rightarrow> ('w, unit) state" where
  "ignore_status os command args = do { _ \<leftarrow> status_of os command args; State_Monad.return () }"

definition when_true :: "bool \<Rightarrow> ('w, unit) state \<Rightarrow> ('w, unit) state" where
  "when_true b m = (if b then m else State_Monad.return ())"

fun for_each :: "('x \<Rightarrow> ('w, unit) state) \<Rightarrow> 'x list \<Rightarrow> ('w, unit) state" where
  "for_each f [] = State_Monad.return ()"
| "for_each f (x # xs) = do { f x; for_each f xs }"

section \<open>The resolver of the system (system\_dns.rs)\<close>

definition succeeded :: "string + bool \<Rightarrow> bool" where
  "succeeded r = (case r of Inr ok \<Rightarrow> ok | Inl e \<Rightarrow> False)"

definition checked_status :: "string \<Rightarrow> string \<Rightarrow> string + bool \<Rightarrow> (string, unit) outcome" where
  "checked_status not_run failed r =
     (case r of Inl e \<Rightarrow> Err (not_run @ e) | Inr ok \<Rightarrow> if ok then Ok () else Err failed)"

definition install_service_macos :: "'w os_ops \<Rightarrow> string \<Rightarrow> ('w, (string, unit) outcome) state" where
  "install_service_macos os plist_path = do {
     ignore_status os ''launchctl'' [''unload'', plist_path];
     r \<leftarrow> status_of os ''launchctl'' [''load'', ''-w'', plist_path];
     State_Monad.return (checked_status ''Failed to run launchctl load: '' ''launchctl load failed'' r)
   }"

definition windows_bin_path :: "'w os_ops \<Rightarrow> 'w \<Rightarrow> string" where
  "windows_bin_path os w =
     [CHR 0x22] @ (case os_exe os w of Some p \<Rightarrow> p | None \<Rightarrow> ''fastdns.exe'') @ [CHR 0x22] @
     '' -b 127.0.0.1:53 -c 250000 --dnssec''"

definition sc_create :: "string \<Rightarrow> string list" where
  "sc_create bin_path =
     [''create'', ''FastDNS'', ''binPath='', bin_path, ''start='', ''auto'', ''DisplayName='',
      ''FastDNS Recursive Resolver'', ''type='', ''own'', ''error='', ''normal'']"

definition install_service_windows :: "'w os_ops \<Rightarrow> ('w, (string, unit) outcome) state" where
  "install_service_windows os = do {
     bin_path \<leftarrow> State (\<lambda>w. (windows_bin_path os w, w));
     r \<leftarrow> status_of os ''sc'' (sc_create bin_path);
     State_Monad.return (checked_status ''Failed to create Windows service: '' ''sc create failed. Run as Administrator.'' r)
   }"

definition uninstall_service_macos :: "'w os_ops \<Rightarrow> string \<Rightarrow> ('w, (string, unit) outcome) state" where
  "uninstall_service_macos os plist_path = do {
     r \<leftarrow> status_of os ''launchctl'' [''unload'', plist_path];
     State_Monad.return (checked_status ''Failed to run launchctl unload: '' ''launchctl unload failed'' r)
   }"

definition uninstall_service_windows :: "'w os_ops \<Rightarrow> ('w, (string, unit) outcome) state" where
  "uninstall_service_windows os = do {
     ignore_status os ''sc'' [''stop'', ''FastDNS''];
     r \<leftarrow> status_of os ''sc'' [''delete'', ''FastDNS''];
     State_Monad.return (checked_status ''Failed to remove Windows service: '' ''sc delete failed. Run as Administrator.'' r)
   }"

definition network_services :: "string \<Rightarrow> string list" where
  "network_services listing = filter (\<lambda>l. l \<noteq> []) (map trim (drop 1 (str_lines listing)))"

definition get_network_services_macos :: "'w os_ops \<Rightarrow> ('w, (string, string list) outcome) state" where
  "get_network_services_macos os = do {
     r \<leftarrow> output_of os ''networksetup'' [''-listallnetworkservices''];
     State_Monad.return (case r of
       Inl e \<Rightarrow> Err (''Failed to list network services: '' @ e)
     | Inr (ok, listing) \<Rightarrow> Ok (network_services listing))
   }"

fun set_dns_for :: "'w os_ops \<Rightarrow> string \<Rightarrow> string list \<Rightarrow> ('w, (string, unit) outcome) state" where
  "set_dns_for os dns_server [] = State_Monad.return (Ok ())"
| "set_dns_for os dns_server (service # services) = do {
     r \<leftarrow> status_of os ''networksetup'' [''-setdnsservers'', service, dns_server];
     (case r of
        Inl e \<Rightarrow> State_Monad.return (Err (''Failed to set DNS for '' @ service @ '': '' @ e))
      | Inr ok \<Rightarrow> set_dns_for os dns_server services)
   }"

definition set_system_dns_macos :: "'w os_ops \<Rightarrow> string \<Rightarrow> ('w, (string, unit) outcome) state" where
  "set_system_dns_macos os dns_server = do {
     services \<leftarrow> get_network_services_macos os;
     (case services of
        Ok names \<Rightarrow> set_dns_for os dns_server names
      | Err e \<Rightarrow> State_Monad.return (Err e)
      | Panic \<Rightarrow> State_Monad.return Panic
      | Diverge \<Rightarrow> State_Monad.return Diverge)
   }"

definition netsh_dns :: "string \<Rightarrow> string \<Rightarrow> string list" where
  "netsh_dns interface dns_server =
     [''interface'', ''ip'', ''set'', ''dns'', ''name='' @ [CHR 0x22] @ interface @ [CHR 0x22], ''static'', dns_server]"

definition set_system_dns_windows :: "'w os_ops \<Rightarrow> string \<Rightarrow> ('w, (string, unit) outcome) state" where
  "set_system_dns_windows os dns_server = do {
     r \<leftarrow> status_of os ''netsh'' (netsh_dns ''Local Area Connection'' dns_server);
     (case r of
        Inl e \<Rightarrow> State_Monad.return (Err (''Failed to set system DNS: '' @ e))
      | Inr ok \<Rightarrow> do {
          when_true (\<not> ok) (ignore_status os ''netsh'' (netsh_dns ''Ethernet'' dns_server));
          State_Monad.return (Ok ())
        })
   }"

section \<open>Service management (main.rs)\<close>

subsection \<open>macOS\<close>

definition plist_daemon :: string where "plist_daemon = ''/Library/LaunchDaemons/com.fastdns.daemon.plist''"
definition plist_health :: string where "plist_health = ''/Library/LaunchDaemons/com.fastdns.healthcheck.plist''"
definition installed_binary :: string where "installed_binary = ''/usr/local/bin/fastdns''"

definition output_succeeded :: "string + bool \<times> string \<Rightarrow> bool" where
  "output_succeeded r = (case r of Inr (ok, _) \<Rightarrow> ok | Inl e \<Rightarrow> False)"

definition is_fastdns_running :: "'w os_ops \<Rightarrow> ('w, bool) state" where
  "is_fastdns_running os = do {
     r \<leftarrow> output_of os ''pgrep'' [''-x'', ''fastdns''];
     State_Monad.return (output_succeeded r)
   }"

definition is_launchd_service_loaded :: "'w os_ops \<Rightarrow> string \<Rightarrow> ('w, bool) state" where
  "is_launchd_service_loaded os label = do {
     r \<leftarrow> output_of os ''launchctl'' [''print'', ''system/'' @ label];
     State_Monad.return (output_succeeded r)
   }"

definition unload_plist :: "'w os_ops \<Rightarrow> string \<Rightarrow> ('w, unit) state" where
  "unload_plist os plist = do {
     present \<leftarrow> exists_file os plist;
     when_true present (ignore_status os ''launchctl'' [''unload'', plist])
   }"

definition remove_if_present :: "'w os_ops \<Rightarrow> string \<Rightarrow> ('w, unit) state" where
  "remove_if_present os path = do {
     present \<leftarrow> exists_file os path;
     when_true present (effect (os_remove os path))
   }"

definition clean_old_installation :: "'w os_ops \<Rightarrow> ('w, unit) state" where
  "clean_old_installation os = do {
     was_running \<leftarrow> is_fastdns_running os;
     was_loaded \<leftarrow> is_launchd_service_loaded os ''com.fastdns.daemon'';
     present \<leftarrow> exists_file os installed_binary;
     when_true (was_running \<or> was_loaded \<or> present) (do {
       when_true was_running (do {
         _ \<leftarrow> output_of os ''pgrep'' [''-x'', ''fastdns''];
         ignore_status os ''pkill'' [''-9'', ''fastdns'']
       });
       for_each (unload_plist os) [plist_daemon, plist_health];
       for_each (remove_if_present os) [plist_daemon, plist_health];
       remove_if_present os installed_binary;
       ignore_status os ''networksetup'' [''-setdnsservers'', ''Wi-Fi'', ''empty''];
       ignore_status os ''networksetup'' [''-setdnsservers'', ''Ethernet'', ''empty''];
       ignore_status os ''dscacheutil'' [''-flushcache''];
       ignore_status os ''killall'' [''-HUP'', ''mDNSResponder'']
     })
   }"

text \<open>Loading the daemon: directly, or else through \<open>osascript\<close>; whether one of them succeeded.\<close>

definition load_daemon :: "'w os_ops \<Rightarrow> ('w, bool) state" where
  "load_daemon os = do {
     r \<leftarrow> status_of os ''launchctl'' [''load'', ''-w'', plist_daemon];
     (if succeeded r then State_Monad.return True
      else do {
        r \<leftarrow> status_of os ''osascript'' [''-e'',
               ''do shell script '' @ [CHR 0x22] @ ''launchctl load -w '' @ plist_daemon @ [CHR 0x22] @
               '' with administrator privileges''];
        State_Monad.return (succeeded r)
      })
   }"

text \<open>
  The steps of the installation after the binary is in place; whether the daemon is loaded decides only
  about a message.
\<close>

definition start_and_verify :: "'w os_ops \<Rightarrow> ('w, unit) state" where
  "start_and_verify os = do {
     loaded \<leftarrow> load_daemon os;
     _ \<leftarrow> (if loaded then State_Monad.return True else is_launchd_service_loaded os ''com.fastdns.daemon'');
     _ \<leftarrow> set_system_dns_macos os ''127.0.0.1'';
     _ \<leftarrow> output_of os ''dig'' [''@127.0.0.1'', ''google.com'', ''+short'', ''+timeout=3''];
     State_Monad.return ()
   }"

definition generate_plist :: "'w os_ops \<Rightarrow> fastdns_config \<Rightarrow> string \<Rightarrow> ('w, (string, unit) outcome) state" where
  "generate_plist os config plist_path = do {
     created \<leftarrow> State (os_create os plist_path);
     (case created of
        Some e \<Rightarrow> State_Monad.return (Err (''Failed to create plist: '' @ e))
      | None \<Rightarrow> do {
          written \<leftarrow> State (os_write os plist_path (plist_text config));
          State_Monad.return (case written of Some e \<Rightarrow> Err (''Failed to write plist: '' @ e) | None \<Rightarrow> Ok ())
        })
   }"

definition install_service_route_macos :: "'w os_ops \<Rightarrow> fastdns_config \<Rightarrow> ('w, unit) state" where
  "install_service_route_macos os config = do {
     clean_old_installation os;
     binary_path \<leftarrow> State (\<lambda>w. (case os_exe os w of Some p \<Rightarrow> p | None \<Rightarrow> ''target/release/fastdns'', w));
     effect (os_make_dir os ''/usr/local/bin'');
     copied \<leftarrow> State (os_copy os binary_path installed_binary);
     (case copied of
        Some e \<Rightarrow> State_Monad.return ()
      | None \<Rightarrow> do {
          effect (os_set_mode os installed_binary 493);
          written \<leftarrow> generate_plist os config plist_daemon;
          (case written of
             Ok _ \<Rightarrow> do {
               effect (os_set_mode os plist_daemon 420);
               start_and_verify os
             }
           | _ \<Rightarrow> State_Monad.return ())
        })
   }"

definition uninstall_service_route_macos :: "'w os_ops \<Rightarrow> ('w, bool) state" where
  "uninstall_service_route_macos os = do {
     r \<leftarrow> status_of os ''sudo'' [''bash'', ''scripts/macos/uninstall.sh''];
     State_Monad.return (succeeded r)
   }"

subsection \<open>Windows\<close>

definition install_service_route_windows :: "'w os_ops \<Rightarrow> ('w, unit) state" where
  "install_service_route_windows os = do {
     bin_path \<leftarrow> State (\<lambda>w. (windows_bin_path os w, w));
     ignore_status os ''sc'' [''stop'', ''FastDNS''];
     ignore_status os ''sc'' [''delete'', ''FastDNS''];
     status \<leftarrow> status_of os ''sc'' (sc_create bin_path);
     when_true (succeeded status) (ignore_status os ''sc'' [''start'', ''FastDNS''])
   }"

definition uninstall_service_route_windows :: "'w os_ops \<Rightarrow> ('w, bool) state" where
  "uninstall_service_route_windows os = do {
     ignore_status os ''sc'' [''stop'', ''FastDNS''];
     r \<leftarrow> status_of os ''sc'' [''delete'', ''FastDNS''];
     State_Monad.return (succeeded r)
   }"

section \<open>Properties\<close>

text \<open>An operating system that notes the commands it is given, on which \<open>launchctl\<close> and \<open>osascript\<close> fail.\<close>

definition refusing_os :: "(string \<times> string list) list os_ops" where
  "refusing_os =
     \<lparr>os_status = (\<lambda>command args log. (Inr (command \<noteq> ''launchctl'' \<and> command \<noteq> ''osascript''), log @ [(command, args)])),
      os_output = (\<lambda>command args log.
        (if command = ''networksetup'' then Inr (True, ''Services:'' @ [newline] @ ''Wi-Fi'' @ [newline]) else Inr (False, []),
         log @ [(command, args)])),
      os_exists = (\<lambda>path log. False), os_remove = (\<lambda>path log. log), os_make_dir = (\<lambda>path log. log),
      os_set_mode = (\<lambda>path mode log. log), os_exe = (\<lambda>log. None), os_copy = (\<lambda>from to log. (None, log)),
      os_create = (\<lambda>path log. (None, log)), os_write = (\<lambda>path text log. (None, log))\<rparr>"

lemma listed_services: "network_services (''Services:'' @ [newline] @ ''Wi-Fi'' @ [newline]) = [''Wi-Fi'']"
  unfolding newline_def by code_simp

text \<open>
  The installation makes the service the resolver of the system without regard to whether it runs:
  where every attempt to load the daemon fails, the system's name servers are set to the local address
  all the same.
\<close>

theorem install_sets_dns_without_daemon:
  "fst (run_state (load_daemon refusing_os) log) = False \<and>
   (''networksetup'', [''-setdnsservers'', ''Wi-Fi'', ''127.0.0.1'']) \<in>
     set (snd (run_state (install_service_route_macos refusing_os config) []))"
  using listed_services
  by (simp add: refusing_os_def install_service_route_macos_def clean_old_installation_def is_fastdns_running_def
      is_launchd_service_loaded_def output_of_def output_succeeded_def exists_file_def when_true_def effect_def
      generate_plist_def start_and_verify_def load_daemon_def status_of_def succeeded_def set_system_dns_macos_def
      get_network_services_macos_def State_Monad.bind_def State_Monad.return_def)

end
