(* ===== verification/Command_Line.thy ===== *)
theory Command_Line
  imports Health Service Resolver
begin

text \<open>
  What the program does with its command line (\<open>main\<close> of \<open>src/src/main.rs\<close>): which mode it runs in, the diagnostic queries, and the way to the running system.  Loading the configuration file,
  parsing socket addresses and the privileges of the process are arguments.
\<close>

section \<open>Record types and privileges\<close>

text \<open>
  Upper case, as far as the names of record types go: besides the ASCII letters, the long s of Unicode
  (the bytes C5 BF) becomes S.
\<close>

fun upper_type :: "string \<Rightarrow> string" where
  "upper_type [] = []"
| "upper_type (c # s) =
     (if c = CHR 0xC5 \<and> s \<noteq> [] \<and> hd s = CHR 0xBF then CHR ''S'' # upper_type (tl s)
      else (if 97 \<le> (of_char c :: nat) \<and> (of_char c :: nat) \<le> 122 then char_of ((of_char c :: nat) - 32) else c) # upper_type s)"

text \<open>No type: the program exits.\<close>

definition parse_rtype :: "string \<Rightarrow> u16 option" where
  "parse_rtype rtype_str =
     map_of [(''A'', 1), (''AAAA'', 28), (''CNAME'', 5), (''MX'', 15), (''NS'', 2), (''TXT'', 16), (''SOA'', 6),
       (''SRV'', 33)] (upper_type rtype_str)"

definition may_bind :: "(string \<Rightarrow> 'a option) \<Rightarrow> ('a \<Rightarrow> u16) \<Rightarrow> bool \<Rightarrow> string \<Rightarrow> bool \<Rightarrow> bool" where
  "may_bind parse_addr port is_root bind_str healthcheck \<longleftrightarrow>
     healthcheck \<or>
     (case parse_addr bind_str of
        Some addr \<Rightarrow> \<not> (port addr < 1024 \<and> \<not> is_root)
      | None \<Rightarrow> True)"

section \<open>Logging\<close>

datatype log_target = To_Stderr | To_File string

text \<open>The filter of the environment, if it parses, or else the level; \<open>file_ok\<close>: the log file can be made.\<close>

definition init_logging ::
  "string option \<Rightarrow> (string \<Rightarrow> bool) \<Rightarrow> fastdns_config \<Rightarrow> bool \<Rightarrow> string \<times> log_target" where
  "init_logging env_filter file_ok config prefer_stderr =
     (let log_level = (if f_verbose config then ''debug'' else f_log_level config);
          env_filter = (case env_filter of Some f \<Rightarrow> f | None \<Rightarrow> ''fastdns='' @ log_level)
      in if f_log_file config = [] \<or> prefer_stderr then (env_filter, To_Stderr)
         else if file_ok (f_log_file config) then (env_filter, To_File (f_log_file config))
         else (env_filter, To_Stderr))"

definition one_shot :: "cli \<Rightarrow> bool" where
  "one_shot c \<longleftrightarrow> c_healthcheck c \<or> c_query c \<noteq> None \<or> c_install_service c \<or> c_uninstall_service c"

section \<open>Modes\<close>

datatype 'a mode =
    Exit nat
  | Install fastdns_config
  | Uninstall
  | Check 'a string
  | Diagnose_DoH string string bool bool
  | Diagnose_DoT string string
  | Diagnose string string bool bool
  | Serve "'a server_config"
  | As_Service "'a server_config"
  | Crash

definition main_config :: "(string \<Rightarrow> fastdns_config) \<Rightarrow> cli \<Rightarrow> fastdns_config" where
  "main_config load c = merge_cli (overrides_of c) (load (c_config c))"

definition main_mode ::
  "(string \<Rightarrow> fastdns_config) \<Rightarrow> (string \<Rightarrow> 'a option) \<Rightarrow> ('a \<Rightarrow> u16) \<Rightarrow> bool \<Rightarrow> cli \<Rightarrow> 'a mode" where
  "main_mode load parse_addr port is_root c =
     (let config = main_config load c in
      case validate_config parse_addr config of
        Ok _ \<Rightarrow>
          if c_install_service c then Install config
          else if c_uninstall_service c then Uninstall
          else if c_healthcheck c then
            (case parse_addr (f_bind config) of None \<Rightarrow> Crash | Some addr \<Rightarrow> Check addr (c_healthcheck_domain c))
          else if \<not> may_bind parse_addr port is_root (f_bind config) (c_healthcheck c) then Exit 1
          else (case c_query c of
                  Some query_name \<Rightarrow>
                    if f_doh config then Diagnose_DoH query_name (c_query_type c) (f_ipv6 config) (f_dnssec config)
                    else if f_dot config then Diagnose_DoT query_name (c_query_type c)
                    else Diagnose query_name (c_query_type c) (f_ipv6 config) (f_dnssec config)
                | None \<Rightarrow>
                    (case to_server_config parse_addr config of Ok server_config \<Rightarrow> Serve server_config | _ \<Rightarrow> Crash))
      | _ \<Rightarrow> Exit 1)"

text \<open>
  On Windows there is no test for privileges, and the program tries to run as a service before it goes
  on to a diagnostic query or to serving: \<open>dispatched\<close> tells whether the service manager has started it.
  The configuration of the service is in a cell that is set once; a failure is not reported.
\<close>

definition run_as_service :: "'a server_config option \<Rightarrow> 'a server_config \<Rightarrow> bool \<Rightarrow> bool \<times> 'a server_config option" where
  "run_as_service cell config dispatched = (dispatched, case cell of Some c \<Rightarrow> Some c | None \<Rightarrow> Some config)"

definition main_mode_windows ::
  "(string \<Rightarrow> fastdns_config) \<Rightarrow> (string \<Rightarrow> 'a option) \<Rightarrow> ('a \<Rightarrow> u16) \<Rightarrow> bool \<Rightarrow> cli \<Rightarrow> 'a mode" where
  "main_mode_windows load parse_addr port dispatched c =
     (let m = main_mode load parse_addr port True c;
          as_service = (case to_server_config parse_addr (main_config load c) of
            Ok svc_config \<Rightarrow>
              (case run_as_service None svc_config dispatched of (True, Some config) \<Rightarrow> As_Service config | _ \<Rightarrow> m)
          | _ \<Rightarrow> Crash)
      in case m of
           Diagnose_DoH _ _ _ _ \<Rightarrow> as_service
         | Diagnose_DoT _ _ \<Rightarrow> as_service
         | Diagnose _ _ _ _ \<Rightarrow> as_service
         | Serve _ \<Rightarrow> as_service
         | _ \<Rightarrow> m)"

text \<open>The exit code of the health check.\<close>

definition check_exit_code :: "health_report dns_result \<Rightarrow> nat option" where
  "check_exit_code r = (case r of Ok report \<Rightarrow> Some (if hp_ok report then 0 else 1) | _ \<Rightarrow> None)"

section \<open>Diagnostic queries\<close>

definition record_line :: "resource_record \<Rightarrow> string" where
  "record_line r =
     ''   '' @ rr_name_str r @ '' '' @ show_u16 (rr_type r) @ '' '' @ show_u16 (rr_class r) @ '' '' @ arrow @ '' '' @
     rdata_str r @ '' (TTL='' @ show_nat (unat (rr_ttl r)) @ '')''"

datatype diagnosis =
    Records "string list"
  | Resolution_Failed dns_error
  | No_Resolver dns_error
  | Bad_Rcode u8
  | Unreadable dns_error
  | Bad_Type
  | Aborted

definition diagnosis_of :: "resource_record list dns_result \<Rightarrow> diagnosis" where
  "diagnosis_of r =
     (case r of
        Ok records \<Rightarrow> Records (map record_line records)
      | Err e \<Rightarrow> Resolution_Failed e
      | _ \<Rightarrow> Aborted)"

text \<open>\<open>created\<close> is the result of creating the resolver, for IPv6 or not, with a cache of 100000 entries.\<close>

definition run_diagnostic_query ::
  "('c, 'n, 'd, 'r, 't, 'w) res_env \<Rightarrow> nat \<Rightarrow> ('c, 'n, 'd, 'r, 't, 'w) resolver dns_result \<Rightarrow> string \<Rightarrow> string \<Rightarrow> bool \<Rightarrow>
     diagnosis" where
  "run_diagnostic_query E fuel created name rtype_str dnssec =
     (case parse_rtype rtype_str of
        None \<Rightarrow> Bad_Type
      | Some rtype \<Rightarrow>
          (case created of
             Ok resolver \<Rightarrow> diagnosis_of (fst (resolve E fuel dnssec name rtype 1 resolver))
           | Err e \<Rightarrow> No_Resolver e
           | _ \<Rightarrow> Aborted))"

definition run_diagnostic_query_doh ::
  "('c, 'n, 'd, 'r, 't, 'w) res_env \<Rightarrow> ('c, 'n, 'd, 'r, 't, 'w) resolver dns_result \<Rightarrow> string \<Rightarrow> string \<Rightarrow> bool \<Rightarrow>
     diagnosis" where
  "run_diagnostic_query_doh E created name rtype_str dnssec =
     (case parse_rtype rtype_str of
        None \<Rightarrow> Bad_Type
      | Some rtype \<Rightarrow>
          (case created of
             Ok resolver \<Rightarrow> diagnosis_of (fst (resolve_via_doh E dnssec name rtype 1 resolver))
           | Err e \<Rightarrow> No_Resolver e
           | _ \<Rightarrow> Aborted))"

definition or_default :: "bytes dns_result \<Rightarrow> bytes" where
  "or_default r = (case r of Ok b \<Rightarrow> b | _ \<Rightarrow> [])"

definition dot_message :: "u16 \<Rightarrow> string \<Rightarrow> u16 \<Rightarrow> message" where
  "dot_message i name rtype =
     \<lparr>m_header = new_query i False,
      m_questions = [\<lparr>q_name = or_default (encode_domain_name name), q_type = rtype, q_class = 1\<rparr>],
      m_answers = [], m_authorities = [], m_additionals = []\<rparr>"

definition judge_dot :: "bytes dns_result \<Rightarrow> diagnosis" where
  "judge_dot response =
     (case response of
        Ok response_data \<Rightarrow>
          (case decode_message response_data of
             Ok msg \<Rightarrow>
               if h_rcode (m_header msg) = 0 then Records (map record_line (m_answers msg))
               else Bad_Rcode (h_rcode (m_header msg))
           | Err e \<Rightarrow> Unreadable e
           | _ \<Rightarrow> Aborted)
      | Err e \<Rightarrow> Resolution_Failed e
      | _ \<Rightarrow> Aborted)"

definition run_diagnostic_query_dot ::
  "('t, 'w) tls_ops \<Rightarrow> (dns_error option \<Rightarrow> string) \<Rightarrow> u16 \<Rightarrow> string \<Rightarrow> string \<Rightarrow> 'w \<Rightarrow> diagnosis" where
  "run_diagnostic_query_dot D debug i name rtype_str w =
     (case parse_rtype rtype_str of
        None \<Rightarrow> Bad_Type
      | Some rtype \<Rightarrow>
          judge_dot (fst (dot_query_with_fallback D debug (or_default (encode_message (dot_message i name rtype))) w)))"

section \<open>Starting\<close>

lemma validated_server_config:
  assumes "validate_config parse_addr config = Ok ()"
  shows "\<exists>svc. to_server_config parse_addr config = Ok svc \<and> 0 < s_cache_size svc \<and> s_cache_size svc \<le> MAX_CACHE_SIZE \<and>
    parse_addr (f_bind config) = Some (s_bind_addr svc)"
  using validate_config_bind [OF assms] validate_config_cache [OF assms] by (auto simp: to_server_config_def)

lemma invalid_exits: "validate_config parse_addr (main_config load c) \<noteq> Ok () \<Longrightarrow> main_mode load parse_addr port is_root c = Exit 1"
  by (auto simp: main_mode_def Let_def validate_config_def split: if_splits)

lemma main_mode_serves:
  "main_mode load parse_addr port is_root c \<noteq> Crash \<and>
   (case main_mode load parse_addr port is_root c of
      Serve s \<Rightarrow> 0 < s_cache_size s \<and> s_cache_size s \<le> MAX_CACHE_SIZE \<and>
        parse_addr (f_bind (main_config load c)) = Some (s_bind_addr s) \<and> (is_root \<or> 1024 \<le> port (s_bind_addr s))
    | As_Service s \<Rightarrow> False
    | _ \<Rightarrow> True)"
proof (cases "validate_config parse_addr (main_config load c) = Ok ()")
  case True
  from validated_server_config [OF this] True show ?thesis
    by (auto simp: main_mode_def may_bind_def Let_def not_less split: option.split)
qed (simp add: invalid_exits)

lemma windows_mode_serves:
  "main_mode_windows load parse_addr port dispatched c \<noteq> Crash \<and>
   (case main_mode_windows load parse_addr port dispatched c of
      As_Service s \<Rightarrow> 0 < s_cache_size s \<and> s_cache_size s \<le> MAX_CACHE_SIZE \<and>
        parse_addr (f_bind (main_config load c)) = Some (s_bind_addr s)
    | _ \<Rightarrow> True)"
proof (cases "validate_config parse_addr (main_config load c) = Ok ()")
  case True
  with validated_server_config [OF this] main_mode_serves [of load parse_addr port True c] show ?thesis
    by (auto simp: main_mode_windows_def run_as_service_def Let_def split: mode.splits bool.splits)
qed (simp add: main_mode_windows_def invalid_exits)

section \<open>Properties\<close>


end
